theory Spec2Isabelle
  imports Complex_Main
begin


section \<open>Data model (types/Chess.ts)\<close>

text \<open>
  The chess types of the repository.  A \<open>Piece\<close> is an object with the fields
  \<open>type\<close>, \<open>color\<close>, \<open>hasMoved\<close> and the optional \<open>justMoved2\<close>; an absent
  \<open>justMoved2\<close> (JavaScript \<open>undefined\<close>) is \<open>None\<close>.  A \<open>CellState\<close> is an object
  whose only field \<open>piece\<close> is a piece or the literal \<open>"empty"\<close>; it is modelled as
  an optional piece, \<open>None\<close> standing for \<open>"empty"\<close>.  Board coordinates are
  JavaScript numbers that only ever hold integers; they are \<open>int\<close> here.
\<close>

datatype PieceType = Pawn | Rook | Knight | Bishop | Queen | King

datatype PlayerColor = White | Black

record Piece =
  ptype :: PieceType
  color :: PlayerColor
  hasMoved :: bool
  justMoved2 :: "bool option"

type_synonym CellState = "Piece option"

type_synonym Position = "int \<times> int"

record Move =
  moveFrom :: Position
  moveTo :: Position
  algebraic :: string
  enPassant :: bool
  castling :: bool
  isPawnMoving2 :: bool
  promotion :: "PieceType option"

record GameState =
  turn :: PlayerColor
  boardState :: "CellState list list"
  moveHistory :: "Move list"

datatype EndgameState = CheckmateWhite | CheckmateBlack | Draw | InProgress

text \<open>
  Exceptions are values.  \<open>Error msg\<close> is a \<open>new Error(msg)\<close> of the source;
  \<open>TypeError\<close> is what the runtime raises when a property of \<open>undefined\<close> is read
  (a square outside the arrays); \<open>OutsideRow\<close> marks a store into a column
  beyond the end of the row array or before its start, where the script makes
  an array that the lists of this embedding cannot hold: the embedding stops
  there.
\<close>

datatype error = Error string | TypeError | OutsideRow

definition bindE :: "error + 'a \<Rightarrow> ('a \<Rightarrow> error + 'b) \<Rightarrow> error + 'b" where
  "bindE m f = (case m of Inl e \<Rightarrow> Inl e | Inr v \<Rightarrow> f v)"

section \<open>Rules engine (class ChessGame)\<close>

definition linearDirections :: "(int \<times> int) list" where
  "linearDirections = [(1, 0), (-1, 0), (0, 1), (0, -1)]"

definition diagonalDirections :: "(int \<times> int) list" where
  "diagonalDirections = [(1, 1), (-1, -1), (1, -1), (-1, 1)]"

definition knightDirections :: "(int \<times> int) list" where
  "knightDirections =
     [(2, 1), (2, -1), (-2, 1), (-2, -1), (1, 2), (1, -2), (-1, 2), (-1, -2)]"

subsection \<open>Reading and writing squares\<close>

text \<open>
  \<open>boardState[r][c]\<close> followed by a property access.  Outside the arrays the
  first index yields \<open>undefined\<close> and the next access raises.
\<close>

definition readCell :: "CellState list list \<Rightarrow> Position \<Rightarrow> error + CellState" where
  "readCell b p =
     (if 0 \<le> fst p \<and> nat (fst p) < length b \<and>
         0 \<le> snd p \<and> nat (snd p) < length (b ! nat (fst p))
      then Inr (b ! nat (fst p) ! nat (snd p))
      else Inl TypeError)"

text \<open>\<open>boardState[r][c].piece = v\<close>: the cell object is read, then its field is set.\<close>

definition setPiece :: "CellState list list \<Rightarrow> Position \<Rightarrow> CellState \<Rightarrow> error + CellState list list" where
  "setPiece b p v =
     bindE (readCell b p) (\<lambda>_.
       Inr (b[nat (fst p) := (b ! nat (fst p))[nat (snd p) := v]]))"

text \<open>
  \<open>boardState[r][c] = {piece: v}\<close>: a store into the row array.  With \<open>r\<close> outside
  the board array the script raises a \<open>TypeError\<close>.  With \<open>c\<close> outside the row the
  script does not raise: it sets a property of the row.  At the end of the row
  this appends the cell.  Further out it grows the row and leaves holes behind
  the old end, and for a negative \<open>c\<close> the property is no element at all.  Rows
  are lists of cells here, without holes and without further properties, and
  \<open>OutsideRow\<close> marks that the script has left what the lists can hold; it is no
  exception of the script.  A move to a square of an 8 by 8 board does not lead
  there.
\<close>

definition storeCell :: "CellState list list \<Rightarrow> Position \<Rightarrow> CellState \<Rightarrow> error + CellState list list" where
  "storeCell b p v =
     (if \<not> (0 \<le> fst p \<and> nat (fst p) < length b) then Inl TypeError
      else if 0 \<le> snd p \<and> nat (snd p) < length (b ! nat (fst p))
      then Inr (b[nat (fst p) := (b ! nat (fst p))[nat (snd p) := v]])
      else if snd p = int (length (b ! nat (fst p)))
      then Inr (b[nat (fst p) := b ! nat (fst p) @ [v]])
      else Inl OutsideRow)"

definition getPosInDirection :: "Position \<Rightarrow> int \<times> int \<Rightarrow> Position option" where
  "getPosInDirection position direction =
     (let newRow = fst position + fst direction;
          newCol = snd position + snd direction
      in if newRow < 0 \<or> newRow > 7 \<or> newCol < 0 \<or> newCol > 7 then None
         else Some (newRow, newCol))"

definition isCellEmpty :: "GameState \<Rightarrow> Position \<Rightarrow> error + bool" where
  "isCellEmpty s position =
     bindE (readCell (boardState s) position) (\<lambda>cellState. Inr (cellState = None))"

definition isCellEnemy :: "GameState \<Rightarrow> Position \<Rightarrow> PlayerColor \<Rightarrow> error + bool" where
  "isCellEnemy s position c =
     bindE (readCell (boardState s) position) (\<lambda>cellState.
       Inr (case cellState of None \<Rightarrow> False | Some piece \<Rightarrow> color piece \<noteq> c))"

subsection \<open>Algebraic annotation\<close>

fun natToString :: "nat \<Rightarrow> string" where
  "natToString n =
     (if n < 10 then [char_of (48 + n)]
      else natToString (n div 10) @ [char_of (48 + n mod 10)])"

definition intToString :: "int \<Rightarrow> string" where
  "intToString i = (if i < 0 then CHR ''-'' # natToString (nat (- i)) else natToString (nat i))"

text \<open>
  \<open>String.fromCharCode("a".charCodeAt(0) + col)\<close> followed by \<open>(row + 1).toString()\<close>.
\<close>

definition convertPositionToString :: "Position \<Rightarrow> string" where
  "convertPositionToString position =
     (let rowString = intToString (fst position + 1);
          colString = [char_of (97 + snd position)]
      in colString @ rowString)"

declare natToString.simps [simp del]

text \<open>
  On the board the file letter and the rank digit can be read from a table;
  this equation replaces the arithmetic on character codes when a position is
  evaluated.
\<close>

lemma char_of_file_letter:
  "char_of (97::int) = CHR ''a''" "char_of (98::int) = CHR ''b''"
  "char_of (99::int) = CHR ''c''" "char_of (100::int) = CHR ''d''"
  "char_of (101::int) = CHR ''e''" "char_of (102::int) = CHR ''f''"
  "char_of (103::int) = CHR ''g''" "char_of (104::int) = CHR ''h''"
proof -
  have "(97::int) = of_char (CHR ''a'')" "(98::int) = of_char (CHR ''b'')"
       "(99::int) = of_char (CHR ''c'')" "(100::int) = of_char (CHR ''d'')"
       "(101::int) = of_char (CHR ''e'')" "(102::int) = of_char (CHR ''f'')"
       "(103::int) = of_char (CHR ''g'')" "(104::int) = of_char (CHR ''h'')"
    by simp_all
  then show
    "char_of (97::int) = CHR ''a''" "char_of (98::int) = CHR ''b''"
    "char_of (99::int) = CHR ''c''" "char_of (100::int) = CHR ''d''"
    "char_of (101::int) = CHR ''e''" "char_of (102::int) = CHR ''f''"
    "char_of (103::int) = CHR ''g''" "char_of (104::int) = CHR ''h''"
    by (simp_all only: char_of_char)
qed

lemma char_of_rank_digit:
  "char_of (49::nat) = CHR ''1''" "char_of (50::nat) = CHR ''2''"
  "char_of (51::nat) = CHR ''3''" "char_of (52::nat) = CHR ''4''"
  "char_of (53::nat) = CHR ''5''" "char_of (54::nat) = CHR ''6''"
  "char_of (55::nat) = CHR ''7''" "char_of (56::nat) = CHR ''8''"
proof -
  have "(49::nat) = of_char (CHR ''1'')" "(50::nat) = of_char (CHR ''2'')"
       "(51::nat) = of_char (CHR ''3'')" "(52::nat) = of_char (CHR ''4'')"
       "(53::nat) = of_char (CHR ''5'')" "(54::nat) = of_char (CHR ''6'')"
       "(55::nat) = of_char (CHR ''7'')" "(56::nat) = of_char (CHR ''8'')"
    by simp_all
  then show
    "char_of (49::nat) = CHR ''1''" "char_of (50::nat) = CHR ''2''"
    "char_of (51::nat) = CHR ''3''" "char_of (52::nat) = CHR ''4''"
    "char_of (53::nat) = CHR ''5''" "char_of (54::nat) = CHR ''6''"
    "char_of (55::nat) = CHR ''7''" "char_of (56::nat) = CHR ''8''"
    by (simp_all only: char_of_char)
qed

lemma convertPositionToString_on_board:
  assumes "0 \<le> fst position" "fst position \<le> 7" "0 \<le> snd position" "snd position \<le> 7"
  shows "convertPositionToString position =
           [''abcdefgh'' ! nat (snd position), ''12345678'' ! nat (fst position)]"
proof -
  have c: "snd position \<in> {0, 1, 2, 3, 4, 5, 6, 7}"
    using assms(3,4) by auto
  have r: "fst position \<in> {0, 1, 2, 3, 4, 5, 6, 7}"
    using assms(1,2) by auto
  have letter: "char_of (97 + snd position) = ''abcdefgh'' ! nat (snd position)"
    using c by (auto simp: char_of_file_letter)
  have digit: "intToString (fst position + 1) = [''12345678'' ! nat (fst position)]"
    using r by (auto simp: intToString_def natToString.simps char_of_rank_digit)
  show ?thesis
    by (simp add: convertPositionToString_def letter digit)
qed

lemma convertPositionToString_code [code]:
  "convertPositionToString position =
     (if 0 \<le> fst position \<and> fst position \<le> 7 \<and> 0 \<le> snd position \<and> snd position \<le> 7
      then [''abcdefgh'' ! nat (snd position), ''12345678'' ! nat (fst position)]
      else [char_of (97 + snd position)] @ intToString (fst position + 1))"
  by (simp add: convertPositionToString_on_board) (simp add: convertPositionToString_def)

fun convertPieceTypeToChar :: "PieceType \<Rightarrow> string" where
  "convertPieceTypeToChar Pawn = ''''"
| "convertPieceTypeToChar Rook = ''R''"
| "convertPieceTypeToChar Knight = ''N''"
| "convertPieceTypeToChar Bishop = ''B''"
| "convertPieceTypeToChar Queen = ''Q''"
| "convertPieceTypeToChar King = ''K''"

definition annotateCastlingMove :: "Move \<Rightarrow> error + Move" where
  "annotateCastlingMove move =
     (if castling move then
        (if snd (moveTo move) = 2 then Inr (move\<lparr>algebraic := ''0-0-0''\<rparr>)
         else Inr (move\<lparr>algebraic := ''0-0''\<rparr>))
      else Inl (Error ''Not a castling move''))"

definition annotateMove :: "GameState \<Rightarrow> Move \<Rightarrow> error + Move" where
  "annotateMove s move =
     (if castling move then annotateCastlingMove move
      else
        bindE (readCell (boardState s) (moveFrom move)) (\<lambda>cellStateAtFromPos.
        case cellStateAtFromPos of
          None \<Rightarrow> Inl (Error ''No piece to move'')
        | Some pieceMoving \<Rightarrow>
            bindE (readCell (boardState s) (moveTo move)) (\<lambda>cellStateAtToPos.
              let capturing = (cellStateAtToPos \<noteq> None);
                  pieceChar = convertPieceTypeToChar (ptype pieceMoving);
                  toPositionString = convertPositionToString (moveTo move);
                  capturingChar = (if capturing then ''x'' else '''');
                  promotionChar = (case promotion move of
                                     Some t \<Rightarrow> ''='' @ convertPieceTypeToChar t
                                   | None \<Rightarrow> '''')
              in Inr (move\<lparr>algebraic :=
                        pieceChar @ capturingChar @ toPositionString @ promotionChar\<rparr>))))"

text \<open>A move object before annotation: only \<open>from\<close> and \<open>to\<close> are set.\<close>

definition plainMove :: "Position \<Rightarrow> Position \<Rightarrow> Move" where
  "plainMove f t =
     \<lparr>moveFrom = f, moveTo = t, algebraic = '''', enPassant = False, castling = False,
      isPawnMoving2 = False, promotion = None\<rparr>"


definition appendE :: "error + 'a list \<Rightarrow> error + 'a list \<Rightarrow> error + 'a list" where
  "appendE a b = bindE a (\<lambda>xs. bindE b (\<lambda>ys. Inr (xs @ ys)))"

text \<open>Runs the blocks of a loop in order and collects what each pushes.\<close>

fun concatE :: "(error + 'a list) list \<Rightarrow> error + 'a list" where
  "concatE [] = Inr []"
| "concatE (a # as) = appendE a (concatE as)"

subsection \<open>Move generation\<close>

text \<open>
  The three blocks of \<open>getPawnMoves\<close>: the forward moves, one diagonal capture,
  and one side of the en-passant check.  In the en-passant block the target is
  \<open>leftDiagonalPos!\<close> (or the right one): were it \<open>undefined\<close>, reading \<open>move.to[0]\<close>
  would raise.
\<close>

definition pawnForwardMoves :: "GameState \<Rightarrow> Position \<Rightarrow> Piece \<Rightarrow> int \<Rightarrow> error + Move list" where
  "pawnForwardMoves s position piece direction =
     (case getPosInDirection position (direction, 0) of
        None \<Rightarrow> Inr []
      | Some forwardPos \<Rightarrow>
          bindE (isCellEmpty s forwardPos) (\<lambda>e.
            if \<not> e then Inr []
            else
              bindE (annotateMove s (plainMove position forwardPos)) (\<lambda>m1.
                if hasMoved piece then Inr [m1]
                else
                  (case getPosInDirection position (direction * 2, 0) of
                     None \<Rightarrow> Inr [m1]
                   | Some doubleForwardCell \<Rightarrow>
                       bindE (isCellEmpty s doubleForwardCell) (\<lambda>e2.
                         if \<not> e2 then Inr [m1]
                         else
                           bindE (annotateMove s
                                    ((plainMove position doubleForwardCell)\<lparr>isPawnMoving2 := True\<rparr>))
                             (\<lambda>m2. Inr [m1, m2]))))))"

definition pawnCaptureMove :: "GameState \<Rightarrow> Position \<Rightarrow> Piece \<Rightarrow> Position option \<Rightarrow> error + Move list" where
  "pawnCaptureMove s position piece diagonalPos =
     (case diagonalPos of
        None \<Rightarrow> Inr []
      | Some d \<Rightarrow>
          bindE (isCellEnemy s d (color piece)) (\<lambda>en.
            if en then bindE (annotateMove s (plainMove position d)) (\<lambda>m. Inr [m])
            else Inr []))"

definition pawnEnPassantMove ::
  "GameState \<Rightarrow> Position \<Rightarrow> Piece \<Rightarrow> Position option \<Rightarrow> Position option \<Rightarrow> error + Move list" where
  "pawnEnPassantMove s position piece sidePos diagonalPos =
     (case sidePos of
        None \<Rightarrow> Inr []
      | Some sp \<Rightarrow>
          bindE (readCell (boardState s) sp) (\<lambda>sideCell.
            case sideCell of
              None \<Rightarrow> Inr []
            | Some other \<Rightarrow>
                if ptype other = Pawn \<and> color other \<noteq> color piece \<and> justMoved2 other = Some True
                then (case diagonalPos of
                        None \<Rightarrow> Inl TypeError
                      | Some d \<Rightarrow>
                          bindE (annotateMove s ((plainMove position d)\<lparr>enPassant := True\<rparr>))
                            (\<lambda>m. Inr [m]))
                else Inr []))"

definition getPawnMoves :: "GameState \<Rightarrow> Position \<Rightarrow> error + Move list" where
  "getPawnMoves s position =
     bindE (readCell (boardState s) position) (\<lambda>cellState.
       case cellState of
         None \<Rightarrow> Inl (Error ''Not a pawn: can't move like a pawn'')
       | Some piece \<Rightarrow>
           if ptype piece \<noteq> Pawn then Inl (Error ''Not a pawn: can't move like a pawn'')
           else
             let direction = (if color piece = White then 1 else - 1);
                 leftDiagonalPos = getPosInDirection position (direction, - 1);
                 rightDiagonalPos = getPosInDirection position (direction, 1)
             in concatE
                  [pawnForwardMoves s position piece direction,
                   pawnCaptureMove s position piece leftDiagonalPos,
                   pawnCaptureMove s position piece rightDiagonalPos,
                   if (color piece = White \<and> fst position = 4) \<or>
                      (color piece = Black \<and> fst position = 3)
                   then appendE
                          (pawnEnPassantMove s position piece
                             (getPosInDirection position (0, - 1)) leftDiagonalPos)
                          (pawnEnPassantMove s position piece
                             (getPosInDirection position (0, 1)) rightDiagonalPos)
                   else Inr []])"


text \<open>
  The \<open>while (newPos)\<close> loop of \<open>getMovesInDirection\<close>.  With the direction
  \<open>(0, 0)\<close> the first square looked at is the start square, which holds the moving
  piece, so the loop stops at once without stepping; the step is therefore only
  taken for a direction that moves.
\<close>

function walkDirection ::
  "GameState \<Rightarrow> Position \<Rightarrow> int \<times> int \<Rightarrow> PlayerColor \<Rightarrow> Position option \<Rightarrow> error + Move list" where
  "walkDirection s startPosition direction c None = Inr []"
| "walkDirection s startPosition direction c (Some newPos) =
     bindE (isCellEmpty s newPos) (\<lambda>e.
       if e then
         bindE (annotateMove s (plainMove startPosition newPos)) (\<lambda>m.
           bindE (if direction = (0, 0) then Inr []
                  else walkDirection s startPosition direction c
                         (getPosInDirection newPos direction))
             (\<lambda>ms. Inr (m # ms)))
       else
         bindE (isCellEnemy s newPos c) (\<lambda>en.
           if en then bindE (annotateMove s (plainMove startPosition newPos)) (\<lambda>m. Inr [m])
           else Inr []))"
  by pat_completeness auto

definition stepsLeft :: "int \<times> int \<Rightarrow> Position option \<Rightarrow> nat" where
  "stepsLeft direction p =
     (case p of
        None \<Rightarrow> 0
      | Some q \<Rightarrow>
          Suc (if fst direction > 0 then nat (7 - fst q)
               else if fst direction < 0 then nat (fst q)
               else if snd direction > 0 then nat (7 - snd q)
               else nat (snd q)))"

lemma stepsLeft_decreases:
  "direction \<noteq> (0, 0) \<Longrightarrow>
   stepsLeft direction (getPosInDirection newPos direction) < stepsLeft direction (Some newPos)"
  by (cases direction; cases newPos)
     (auto simp: stepsLeft_def getPosInDirection_def Let_def split: option.splits)

termination walkDirection
  by (relation "measure (\<lambda>(s, startPosition, direction, c, p). stepsLeft direction p)")
     (auto simp: stepsLeft_decreases)

declare walkDirection.simps [simp del]

definition getMovesInDirection :: "GameState \<Rightarrow> Position \<Rightarrow> int \<times> int \<Rightarrow> error + Move list" where
  "getMovesInDirection s startPosition direction =
     bindE (readCell (boardState s) startPosition) (\<lambda>startingCellState.
       case startingCellState of
         None \<Rightarrow> Inl (Error ''No piece to move'')
       | Some piece \<Rightarrow>
           walkDirection s startPosition direction (color piece)
             (getPosInDirection startPosition direction))"

definition getRookMoves :: "GameState \<Rightarrow> Position \<Rightarrow> error + Move list" where
  "getRookMoves s position =
     bindE (readCell (boardState s) position) (\<lambda>cellState.
       case cellState of
         None \<Rightarrow> Inl (Error ''Cell is empty: don't know what pieces are enemies'')
       | Some piece \<Rightarrow> concatE (map (getMovesInDirection s position) linearDirections))"

definition getBishopMoves :: "GameState \<Rightarrow> Position \<Rightarrow> error + Move list" where
  "getBishopMoves s position =
     bindE (readCell (boardState s) position) (\<lambda>cellState.
       case cellState of
         None \<Rightarrow> Inl (Error ''Cell is empty: don't know what pieces are enemies'')
       | Some piece \<Rightarrow> concatE (map (getMovesInDirection s position) diagonalDirections))"

definition getQueenMoves :: "GameState \<Rightarrow> Position \<Rightarrow> error + Move list" where
  "getQueenMoves s position =
     bindE (readCell (boardState s) position) (\<lambda>cellState.
       case cellState of
         None \<Rightarrow> Inl (Error ''Cell is empty: don't know what pieces are enemies'')
       | Some piece \<Rightarrow>
           appendE (concatE (map (getMovesInDirection s position) linearDirections))
                   (concatE (map (getMovesInDirection s position) diagonalDirections)))"

text \<open>
  One round of the loop shared by the knight and the plain king moves: the
  square in the given direction is a target when it is on the board and empty
  or held by the enemy (\<open>||\<close> does not look at the second test when the first holds).
\<close>

definition stepMove :: "GameState \<Rightarrow> Position \<Rightarrow> PlayerColor \<Rightarrow> int \<times> int \<Rightarrow> error + Move list" where
  "stepMove s position c direction =
     (case getPosInDirection position direction of
        None \<Rightarrow> Inr []
      | Some newPos \<Rightarrow>
          bindE (isCellEmpty s newPos) (\<lambda>e.
          bindE (if e then Inr True else isCellEnemy s newPos c) (\<lambda>ok.
            if ok then bindE (annotateMove s (plainMove position newPos)) (\<lambda>m. Inr [m])
            else Inr [])))"

definition getKnightMoves :: "GameState \<Rightarrow> Position \<Rightarrow> error + Move list" where
  "getKnightMoves s position =
     bindE (readCell (boardState s) position) (\<lambda>cellState.
       case cellState of
         None \<Rightarrow> Inl (Error ''Cell is empty: don't know what pieces are enemies'')
       | Some piece \<Rightarrow>
           concatE (map (stepMove s position (color piece))
                      [(2, 1), (2, -1), (-2, 1), (-2, -1), (1, 2), (1, -2), (-1, 2), (-1, -2)]))"

text \<open>
  One side of the castling block of \<open>getKingMoves\<close>: the corner cell must hold a
  piece that has not moved (its type is not looked at), and every cell listed in
  \<open>between\<close> is read and must be empty.
\<close>

definition castlingMove ::
  "GameState \<Rightarrow> Position \<Rightarrow> int \<Rightarrow> int list \<Rightarrow> int \<Rightarrow> error + Move list" where
  "castlingMove s position rookCol between kingCol =
     (let row = fst position in
      bindE (readCell (boardState s) (row, rookCol)) (\<lambda>rookCellState.
        case rookCellState of
          None \<Rightarrow> Inr []
        | Some rook \<Rightarrow>
            if hasMoved rook then Inr []
            else
              bindE (concatE (map (\<lambda>col. bindE (readCell (boardState s) (row, col))
                                            (\<lambda>cell. Inr [cell \<noteq> None])) between))
                (\<lambda>occupied.
                   if True \<in> set occupied then Inr []
                   else bindE (annotateMove s ((plainMove position (row, kingCol))\<lparr>castling := True\<rparr>))
                          (\<lambda>m. Inr [m]))))"

definition getKingMoves :: "GameState \<Rightarrow> Position \<Rightarrow> error + Move list" where
  "getKingMoves s position =
     bindE (readCell (boardState s) position) (\<lambda>cellState.
       case cellState of
         None \<Rightarrow> Inl (Error ''Not a king'')
       | Some piece \<Rightarrow>
           if ptype piece \<noteq> King then Inl (Error ''Not a king'')
           else
             bindE (concatE (map (stepMove s position (color piece))
                               [(1, 0), (-1, 0), (0, 1), (0, -1)])) (\<lambda>moves.
               if hasMoved piece then Inr moves
               else
                 appendE (Inr moves)
                   (appendE (castlingMove s position 0 [1, 2, 3] 2)
                            (castlingMove s position 7 [5, 6] 6))))"

definition getMovesFromPosition :: "GameState \<Rightarrow> Position \<Rightarrow> error + Move list" where
  "getMovesFromPosition s position =
     bindE (readCell (boardState s) position) (\<lambda>cellState.
       case cellState of
         None \<Rightarrow> Inr []
       | Some piece \<Rightarrow>
           (case ptype piece of
              Pawn \<Rightarrow> getPawnMoves s position
            | Rook \<Rightarrow> getRookMoves s position
            | Knight \<Rightarrow> getKnightMoves s position
            | Bishop \<Rightarrow> getBishopMoves s position
            | Queen \<Rightarrow> getQueenMoves s position
            | King \<Rightarrow> getKingMoves s position))"


subsection \<open>Applying a move\<close>

text \<open>
  The methods below mutate \<open>this.gameState\<close>; here each takes the state and returns
  the new one, or the exception.
\<close>

definition addMoveToHistory :: "GameState \<Rightarrow> Move \<Rightarrow> GameState" where
  "addMoveToHistory s move = s\<lparr>moveHistory := moveHistory s @ [move]\<rparr>"

definition flipTurn :: "GameState \<Rightarrow> GameState" where
  "flipTurn s = s\<lparr>turn := (if turn s = White then Black else White)\<rparr>"

definition movePieceAccordingToMove :: "GameState \<Rightarrow> Move \<Rightarrow> error + GameState" where
  "movePieceAccordingToMove s move =
     bindE (readCell (boardState s) (moveFrom move)) (\<lambda>fromCellState.
       case fromCellState of
         None \<Rightarrow> Inl (Error ''No piece to move'')
       | Some piece \<Rightarrow>
           let moved = piece\<lparr>hasMoved := True,
                              justMoved2 := Some (isPawnMoving2 move)\<rparr>;
               pieceToPutInToCell =
                 (case promotion move of
                    Some t \<Rightarrow> \<lparr>ptype = t, color = turn s, hasMoved = True, justMoved2 = None\<rparr>
                  | None \<Rightarrow> moved)
           in bindE (storeCell (boardState s) (moveTo move) (Some pieceToPutInToCell)) (\<lambda>b1.
              bindE (setPiece b1 (moveFrom move) None) (\<lambda>b2.
                Inr (s\<lparr>boardState := b2\<rparr>))))"

definition executeEnPassant :: "GameState \<Rightarrow> Move \<Rightarrow> error + GameState" where
  "executeEnPassant s move =
     (let directionOfCapturedPawn = (if turn s = White then - 1 else 1);
          capturedPawnRow = fst (moveTo move) + directionOfCapturedPawn;
          capturedPawnCol = snd (moveTo move)
      in bindE (readCell (boardState s) (capturedPawnRow, capturedPawnCol)) (\<lambda>capturedPawnCellState.
           case capturedPawnCellState of
             None \<Rightarrow> Inl (Error ''No piece to capture'')
           | Some _ \<Rightarrow>
               bindE (setPiece (boardState s) (capturedPawnRow, capturedPawnCol) None) (\<lambda>b1.
               bindE (movePieceAccordingToMove
                        (addMoveToHistory (s\<lparr>boardState := b1\<rparr>) move) move) (\<lambda>s2.
                 Inr (flipTurn s2)))))"

definition executeCastling :: "GameState \<Rightarrow> Move \<Rightarrow> error + GameState" where
  "executeCastling s move =
     (let row = fst (moveFrom move);
          rookStartCol = (if snd (moveTo move) = 6 then 7 else 0);
          rookEndCol = (if snd (moveTo move) = 6 then 5 else 3)
      in bindE (readCell (boardState s) (row, rookStartCol)) (\<lambda>rookCellState.
         bindE (setPiece (boardState s) (row, rookEndCol) rookCellState) (\<lambda>b1.
         bindE (setPiece b1 (row, rookStartCol) None) (\<lambda>b2.
         bindE (movePieceAccordingToMove
                  (addMoveToHistory (s\<lparr>boardState := b2\<rparr>) move) move) (\<lambda>s3.
           Inr (flipTurn s3))))))"

definition makeMove :: "GameState \<Rightarrow> Move \<Rightarrow> error + GameState" where
  "makeMove s move =
     bindE (readCell (boardState s) (moveFrom move)) (\<lambda>fromCellState.
       case fromCellState of
         None \<Rightarrow>
           Inl (Error (''Failed to make move, '' @ algebraic move @ '': No piece to move''))
       | Some piece \<Rightarrow>
           if color piece \<noteq> turn s
           then Inl (Error (''Failed to make move, '' @ algebraic move @ '' Not your turn''))
           else if enPassant move then executeEnPassant s move
           else if castling move then executeCastling s move
           else bindE (movePieceAccordingToMove (addMoveToHistory s move) move) (\<lambda>s2.
                  Inr (flipTurn s2)))"

subsection \<open>Check, legal moves, endgame\<close>

definition allSquares :: "Position list" where
  "allSquares = concat (map (\<lambda>row. map (\<lambda>col. (row, col)) [0..7]) [0..7])"

fun findKing :: "GameState \<Rightarrow> PlayerColor \<Rightarrow> Position list \<Rightarrow> error + Position" where
  "findKing s c [] = Inl (Error ''King not found'')"
| "findKing s c (p # ps) =
     bindE (readCell (boardState s) p) (\<lambda>cellState.
       case cellState of
         None \<Rightarrow> findKing s c ps
       | Some piece \<Rightarrow>
           if ptype piece = King \<and> color piece = c then Inr p else findKing s c ps)"

definition getKingPosition :: "GameState \<Rightarrow> PlayerColor \<Rightarrow> error + Position" where
  "getKingPosition s c = findKing s c allSquares"

text \<open>A \<open>for\<close> loop that returns true at the first element passing the test.\<close>

fun existsE :: "('a \<Rightarrow> error + bool) \<Rightarrow> 'a list \<Rightarrow> error + bool" where
  "existsE f [] = Inr False"
| "existsE f (x # xs) = bindE (f x) (\<lambda>b. if b then Inr True else existsE f xs)"

definition attacksAlongLine :: "GameState \<Rightarrow> PlayerColor \<Rightarrow> Move \<Rightarrow> error + bool" where
  "attacksAlongLine s c move =
     bindE (readCell (boardState s) (moveTo move)) (\<lambda>toCellState.
       case toCellState of
         None \<Rightarrow> Inr False
       | Some piece \<Rightarrow>
           Inr (color piece \<noteq> c \<and> (ptype piece = Rook \<or> ptype piece = Queen)))"

definition attacksAlongDiagonal ::
  "GameState \<Rightarrow> PlayerColor \<Rightarrow> Position \<Rightarrow> Move \<Rightarrow> error + bool" where
  "attacksAlongDiagonal s c kingPosition move =
     bindE (readCell (boardState s) (moveTo move)) (\<lambda>toCellState.
       case toCellState of
         None \<Rightarrow> Inr False
       | Some piece \<Rightarrow>
           Inr (color piece \<noteq> c \<and>
                (ptype piece = Bishop \<or> ptype piece = Queen \<or>
                 (ptype piece = Pawn \<and>
                  (if c = White then fst (moveTo move) = fst kingPosition + 1
                   else fst (moveTo move) = fst kingPosition - 1)))))"

definition attacksAsKnight :: "GameState \<Rightarrow> PlayerColor \<Rightarrow> Move \<Rightarrow> error + bool" where
  "attacksAsKnight s c move =
     bindE (readCell (boardState s) (moveTo move)) (\<lambda>toCellState.
       case toCellState of
         None \<Rightarrow> Inr False
       | Some piece \<Rightarrow> Inr (color piece \<noteq> c \<and> ptype piece = Knight))"

definition isCheck :: "GameState \<Rightarrow> PlayerColor \<Rightarrow> error + bool" where
  "isCheck s c =
     bindE (getKingPosition s c) (\<lambda>kingPosition.
     bindE (getRookMoves s kingPosition) (\<lambda>linearDirectionMoves.
     bindE (existsE (attacksAlongLine s c) linearDirectionMoves) (\<lambda>hit1.
       if hit1 then Inr True
       else
         bindE (getBishopMoves s kingPosition) (\<lambda>diagonalDirectionMoves.
         bindE (existsE (attacksAlongDiagonal s c kingPosition) diagonalDirectionMoves) (\<lambda>hit2.
           if hit2 then Inr True
           else
             bindE (getKnightMoves s kingPosition) (\<lambda>knightMoves.
               existsE (attacksAsKnight s c) knightMoves))))))"

text \<open>
  \<open>doesMovePutMovingPlayerInCheck\<close> plays the move on a deep copy of the state;
  with states as values the copy is the state itself.
\<close>

definition doesMovePutMovingPlayerInCheck :: "GameState \<Rightarrow> Move \<Rightarrow> error + bool" where
  "doesMovePutMovingPlayerInCheck s move =
     bindE (makeMove s move) (\<lambda>hypotheticalGameState.
       isCheck hypotheticalGameState (turn s))"

fun keepLegal :: "GameState \<Rightarrow> Move list \<Rightarrow> error + Move list" where
  "keepLegal s [] = Inr []"
| "keepLegal s (move # pieceMoves) =
     bindE (doesMovePutMovingPlayerInCheck s move) (\<lambda>inCheck.
     bindE (keepLegal s pieceMoves) (\<lambda>rest.
       Inr (if inCheck then rest else move # rest)))"

definition legalMovesAt :: "GameState \<Rightarrow> PlayerColor \<Rightarrow> Position \<Rightarrow> error + Move list" where
  "legalMovesAt s c p =
     bindE (readCell (boardState s) p) (\<lambda>cellState.
       case cellState of
         None \<Rightarrow> Inr []
       | Some piece \<Rightarrow>
           if color piece = c then bindE (getMovesFromPosition s p) (keepLegal s)
           else Inr [])"

definition getAllLegalMoves :: "GameState \<Rightarrow> PlayerColor \<Rightarrow> error + Move list" where
  "getAllLegalMoves s c = concatE (map (legalMovesAt s c) allSquares)"

definition isTerminal :: "GameState \<Rightarrow> error + bool" where
  "isTerminal s = bindE (getAllLegalMoves s (turn s)) (\<lambda>moves. Inr (moves = []))"

definition isCheckmate :: "GameState \<Rightarrow> PlayerColor \<Rightarrow> error + bool" where
  "isCheckmate s c =
     bindE (isCheck s c) (\<lambda>chk.
       if \<not> chk then Inr False
       else bindE (getAllLegalMoves s c) (\<lambda>allLegalMoves. Inr (allLegalMoves = [])))"

definition getEndgameState :: "GameState \<Rightarrow> error + EndgameState" where
  "getEndgameState s =
     bindE (isTerminal s) (\<lambda>terminal.
       if \<not> terminal then Inr InProgress
       else
         bindE (isCheckmate s White) (\<lambda>mateWhite.
           if mateWhite then Inr CheckmateWhite
           else
             bindE (isCheckmate s Black) (\<lambda>mateBlack.
               if mateBlack then Inr CheckmateBlack else Inr Draw)))"

subsection \<open>State hash\<close>

fun colorToString :: "PlayerColor \<Rightarrow> string" where
  "colorToString White = ''white''"
| "colorToString Black = ''black''"

fun pieceTypeToString :: "PieceType \<Rightarrow> string" where
  "pieceTypeToString Pawn = ''pawn''"
| "pieceTypeToString Rook = ''rook''"
| "pieceTypeToString Knight = ''knight''"
| "pieceTypeToString Bishop = ''bishop''"
| "pieceTypeToString Queen = ''queen''"
| "pieceTypeToString King = ''king''"

definition boolToString :: "bool \<Rightarrow> string" where
  "boolToString b = (if b then ''true'' else ''false'')"

text \<open>What string concatenation makes of a value that may be \<open>undefined\<close>.\<close>

definition toStringOrUndefined :: "('a \<Rightarrow> string) \<Rightarrow> 'a option \<Rightarrow> string" where
  "toStringOrUndefined f v = (case v of None \<Rightarrow> ''undefined'' | Some x \<Rightarrow> f x)"

text \<open>
  \<open>hashCellState\<close> returns \<open>"empty"\<close> for an empty cell.  For a piece it builds the
  tag \<open>out\<close> and then falls off the end of the function body: there is no
  \<open>return out\<close>, so the result is \<open>undefined\<close> (\<open>None\<close>).
\<close>

definition hashCellState :: "CellState \<Rightarrow> string option" where
  "hashCellState cellState =
     (case cellState of
        None \<Rightarrow> Some ''empty''
      | Some piece \<Rightarrow>
          (let out0 = colorToString (color piece) @ ''_'' @ pieceTypeToString (ptype piece)
                        @ ''_'' @ boolToString (hasMoved piece);
               out = (if ptype piece = Pawn
                      then out0 @ ''_'' @ toStringOrUndefined boolToString (justMoved2 piece)
                      else out0)
           in None))"

definition hashGameState :: "GameState \<Rightarrow> string" where
  "hashGameState s =
     butlast
       (colorToString (turn s) @ '','' @
        concat (map (\<lambda>row. concat (map (\<lambda>cellState.
                  toStringOrUndefined id (hashCellState cellState) @ '','') row))
                (boardState s)))"

subsection \<open>ChessGame objects and the state they hold\<close>

text \<open>
  A \<open>GameState\<close> is a mutable object; whether two holders see each other's writes
  depends on whether they hold the same object.  The store lists the state
  objects, and a reference is an index into it.  The constructor
  \<open>new ChessGame(gameState)\<close> keeps the reference it is given in its private
  field; \<open>_.cloneDeep\<close> allocates a copy; the method \<open>makeMove\<close> writes to the
  object the game holds and returns the game; \<open>getGameState\<close> returns a deep copy.
  A reference outside the store is not an object the program can hold; an
  exception ends the run and leaves no store.
\<close>

type_synonym ref = nat

type_synonym store = "GameState list"

record ChessGame =
  gameState :: ref

definition newChessGame :: "ref \<Rightarrow> ChessGame" where
  "newChessGame r = \<lparr>gameState = r\<rparr>"

definition cloneDeep :: "store \<Rightarrow> ref \<Rightarrow> ref \<times> store" where
  "cloneDeep h r = (length h, h @ [h ! r])"

definition getGameState :: "store \<Rightarrow> ChessGame \<Rightarrow> ref \<times> store" where
  "getGameState h game = cloneDeep h (gameState game)"

definition ChessGame_makeMove :: "store \<Rightarrow> ChessGame \<Rightarrow> Move \<Rightarrow> error + store" where
  "ChessGame_makeMove h game move =
     bindE (makeMove (h ! gameState game) move) (\<lambda>s'. Inr (h[gameState game := s']))"

text \<open>
  The expression the agent uses to build a successor state:
  \<open>new ChessGame(_.cloneDeep(gameState)).makeMove(move).getGameState()\<close>.
\<close>

definition moveOnClone :: "store \<Rightarrow> ref \<Rightarrow> Move \<Rightarrow> error + ref \<times> store" where
  "moveOnClone h r move =
     (let (c, h1) = cloneDeep h r;
          game = newChessGame c
      in bindE (ChessGame_makeMove h1 game move) (\<lambda>h2. Inr (getGameState h2 game)))"

section \<open>LLM agent (class LLMMinimaxAgent), oracle tasks\<close>

subsection \<open>Promises and the oracle\<close>

text \<open>
  The agent's methods are \<open>async\<close>.  The model runs them one after the other,
  each to completion, and records for every promise how it ends: fulfilled
  with a value, rejected with an exception, or never settled.  A promise built
  as \<open>new Promise(async (resolve, reject) => ...)\<close> never settles when its executor
  throws after the first \<open>await\<close> without calling \<open>reject\<close>: the exception is lost.
\<close>

datatype 'a promise = Pending | Resolved 'a | Rejected error

text \<open>
  What \<open>callLLM\<close> answers: a list of message choices, or an exception.  Of a
  choice the agent reads \<open>message.content\<close> (a string or \<open>null\<close>) and the optional
  \<open>logprobs\<close>, whose \<open>content\<close> lists per token the optional \<open>top_logprobs\<close>.
  The oracle is a function of the number of calls made before: the \<open>n\<close>-th call
  of the agent's life is answered by \<open>callLLM n\<close>.  The prompt texts are not
  modelled.
\<close>

record TokenLogprob =
  token :: string
  logprob :: real

record LogprobEntry =
  entryToken :: string
  entryLogprob :: real
  top_logprobs :: "TokenLogprob list option"

record MessageChoice =
  content :: "string option"
  logprobs :: "LogprobEntry list option"

type_synonym CallLLM = "nat \<Rightarrow> error + MessageChoice list"

text \<open>A description message, reduced to its content.\<close>

type_synonym Message = "string option"

subsection \<open>Types of the search (CompressedMinimax.ts)\<close>

record CostSetup =
  maxDepth :: int
  totalBudget :: real
  stateEvaluationCost :: real
  getSuccessorsCost :: real
  basicMinimaxCost :: real

record GameStateProgression =
  nextState :: GameState
  move :: Move
  probability :: real

text \<open>
  A minimax cache entry holds a \<open>Promise<number>\<close> object and the budget it was
  requested with.  The promise objects live in \<open>valuePromises\<close>, indexed by the
  order of their creation, so that an entry still sees its promise settle
  after the entry was stored.
\<close>

record PendingCacheEntry =
  valuePromise :: nat
  budget :: real

text \<open>
  The mutable fields of an agent instance.  \<open>llmCalls\<close> counts the oracle calls
  made so far.  \<open>retryingForever\<close> is set when a successor request has entered a
  retry loop that never ends: from then on the oracle keeps being called and
  \<open>llmCalls\<close> no longer tells how often.  Budgets, costs and values are
  JavaScript numbers, taken as real numbers here.
\<close>

record Agent =
  minimaxCache :: "string \<rightharpoonup> PendingCacheEntry"
  valuePromises :: "nat \<Rightarrow> real promise"
  nextValuePromise :: nat
  successorsCache :: "string \<rightharpoonup> GameStateProgression list promise"
  gameDescriptionCache :: "string \<rightharpoonup> Message promise"
  llmCalls :: nat
  retryingForever :: bool

definition maxLLMTries :: nat where
  "maxLLMTries = 5"

definition targetSuccessorCount :: nat where
  "targetSuccessorCount = 8"

subsection \<open>Description\<close>

text \<open>
  The retry loop of \<open>getGameDescription\<close> and of \<open>stateEvaluation\<close>,
  \<open>while ((!messageChoices) && tries++ < maxLLMTries)\<close> around a \<open>try\<close> whose
  \<open>catch\<close> continues.  It returns what the last call answered, if any call
  answered, and the new number of calls.
\<close>

function callWithRetries :: "CallLLM \<Rightarrow> nat \<Rightarrow> nat \<Rightarrow> MessageChoice list option \<times> nat" where
  "callWithRetries callLLM tries calls =
     (if tries < maxLLMTries then
        (case callLLM calls of
           Inl e \<Rightarrow> callWithRetries callLLM (tries + 1) (calls + 1)
         | Inr messageChoices \<Rightarrow> (Some messageChoices, calls + 1))
      else (None, calls))"
  by pat_completeness auto
termination
  by (relation "measure (\<lambda>(callLLM, tries, calls). maxLLMTries - tries)") auto

declare callWithRetries.simps [simp del]

text \<open>
  \<open>getTextRepresentation\<close> draws the board from the 64 cells \<open>boardState[row][col]\<close>;
  a missing cell raises.  Only whether the text can be built is modelled.
\<close>

definition getTextRepresentation :: "GameState \<Rightarrow> error + unit" where
  "getTextRepresentation gs =
     bindE (concatE (map (\<lambda>p. bindE (readCell (boardState gs) p) (\<lambda>cell. Inr [cell]))
                      allSquares))
       (\<lambda>_. Inr ())"

text \<open>
  \<open>getGameDescription\<close>.  The result is what awaiting the description promise
  yields.  On a cache miss the promise is rejected when no call answered,
  fulfilled with the first choice's message otherwise; with an empty list of
  choices \<open>messageChoices[0].message\<close> throws inside the executor and the promise
  never settles.  The promise is stored under the state's hash in every case.
\<close>

definition getGameDescription :: "CallLLM \<Rightarrow> GameState \<Rightarrow> Agent \<Rightarrow> Message promise \<times> Agent" where
  "getGameDescription callLLM gs a =
     (let hash = hashGameState gs in
      case getTextRepresentation gs of
        Inl e \<Rightarrow> (Rejected e, a)
      | Inr _ \<Rightarrow>
          (case gameDescriptionCache a hash of
             Some descriptionAsPromise \<Rightarrow> (descriptionAsPromise, a)
           | None \<Rightarrow>
               let (messageChoices, calls) = callWithRetries callLLM 0 (llmCalls a);
                   descriptionAsPromise =
                     (case messageChoices of
                        None \<Rightarrow> Rejected (Error
                          ''Exceeded max tries and could not get game description from LLM'')
                      | Some [] \<Rightarrow> Pending
                      | Some (choice # _) \<Rightarrow> Resolved (content choice))
               in (descriptionAsPromise,
                   a\<lparr>gameDescriptionCache := (gameDescriptionCache a)(hash \<mapsto> descriptionAsPromise),
                     llmCalls := calls\<rparr>)))"

subsection \<open>Evaluation\<close>

text \<open>
  \<open>normalizeLogprobs\<close> fills an object keyed by token; a token listed twice keeps
  its last entry.  Here \<open>exp\<close> is the real exponential and the quotient is exact.
  The script computes in IEEE doubles: \<open>Math.exp\<close> rounds, gives 0 below about
  -745 and \<open>Infinity\<close> above about 709, and a quotient \<open>0 / 0\<close> or
  \<open>Infinity / Infinity\<close> is \<open>NaN\<close>, a value this model does not have.  What is
  stated below about values speaks of runs in which the script meets neither.
\<close>

definition normalizeLogprobs :: "TokenLogprob list \<Rightarrow> (string \<rightharpoonup> real)" where
  "normalizeLogprobs lps =
     (let unNormalizedProbs = map (\<lambda>lp. (token lp, exp (logprob lp))) lps;
          unNormalizedProbsSum = foldl (\<lambda>acc tp. acc + snd tp) 0 unNormalizedProbs
      in map_of (rev (map (\<lambda>tp. (fst tp, snd tp / unNormalizedProbsSum)) unNormalizedProbs)))"

text \<open>The part of \<open>stateEvaluation\<close> that reads the first message choice.\<close>

definition evaluateChoice :: "MessageChoice \<Rightarrow> error + real" where
  "evaluateChoice messageChoice =
     (case logprobs messageChoice of
        None \<Rightarrow> (if content messageChoice = Some ''black'' then Inr (- 1) else Inr 1)
      | Some entries \<Rightarrow>
          (case entries of
             [] \<Rightarrow> Inl TypeError
           | entry # _ \<Rightarrow>
               (case top_logprobs entry of
                  None \<Rightarrow> Inl (Error ''No top logprobs in message choice'')
                | Some topLogprobs \<Rightarrow>
                    (let normalizedProbs = normalizeLogprobs topLogprobs
                     in case normalizedProbs ''white'' of
                          None \<Rightarrow> Inl (Error ''Black or white not in normalized probs'')
                        | Some w \<Rightarrow>
                            (case normalizedProbs ''black'' of
                               None \<Rightarrow> Inl (Error ''Black or white not in normalized probs'')
                             | Some _ \<Rightarrow> Inr w)))))"

definition stateEvaluation :: "CallLLM \<Rightarrow> GameState \<Rightarrow> Agent \<Rightarrow> real promise \<times> Agent" where
  "stateEvaluation callLLM gs a =
     (case getGameDescription callLLM gs a of
        (Pending, a1) \<Rightarrow> (Pending, a1)
      | (Rejected e, a1) \<Rightarrow> (Rejected e, a1)
      | (Resolved gameDescriptionMessage, a1) \<Rightarrow>
          (let (messageChoices, calls) = callWithRetries callLLM 0 (llmCalls a1);
               a2 = a1\<lparr>llmCalls := calls\<rparr>
           in case messageChoices of
                None \<Rightarrow> (Rejected (Error
                  ''Exceeded max tries and could not get game description from LLM''), a2)
              | Some [] \<Rightarrow> (Rejected TypeError, a2)
              | Some (messageChoice # _) \<Rightarrow>
                  (case evaluateChoice messageChoice of
                     Inl e \<Rightarrow> (Rejected e, a2)
                   | Inr v \<Rightarrow> (Resolved v, a2))))"

subsection \<open>Successor proposal\<close>

text \<open>
  \<open>/Moves: (.*)/g.exec(llmOutput)\<close>: the text after the first \<open>Moves: \<close> up to the
  end of that line.
\<close>

fun textAfter :: "string \<Rightarrow> string \<Rightarrow> string option" where
  "textAfter pat [] = (if pat = [] then Some [] else None)"
| "textAfter pat (c # cs) =
     (if take (length pat) (c # cs) = pat then Some (drop (length pat) (c # cs))
      else textAfter pat cs)"

definition isLineTerminator :: "char \<Rightarrow> bool" where
  "isLineTerminator ch = (ch = CHR 0x0A \<or> ch = CHR 0x0D)"

definition matchMovesLine :: "string \<Rightarrow> string option" where
  "matchMovesLine llmOutput =
     map_option (takeWhile (\<lambda>ch. \<not> isLineTerminator ch)) (textAfter ''Moves: '' llmOutput)"

text \<open>
  \<open>split(",")\<close> and \<open>trim()\<close>.  A string is a sequence of code units below 256.
  \<open>trim\<close> strips white space and line terminators; in that range these are the
  six ASCII ones and the no-break space \<open>U+00A0\<close>.
\<close>

fun split :: "char \<Rightarrow> string \<Rightarrow> string list" where
  "split sep [] = [[]]"
| "split sep (ch # rest) =
     (if ch = sep then [] # split sep rest
      else (case split sep rest of
              [] \<Rightarrow> [[ch]]
            | w # ws \<Rightarrow> (ch # w) # ws))"

definition isWhiteSpace :: "char \<Rightarrow> bool" where
  "isWhiteSpace ch =
     (ch = CHR '' '' \<or> ch = CHR 0x09 \<or> ch = CHR 0x0A \<or> ch = CHR 0x0B \<or>
      ch = CHR 0x0C \<or> ch = CHR 0x0D \<or> ch = CHR 0xA0)"

definition trim :: "string \<Rightarrow> string" where
  "trim str = rev (dropWhile isWhiteSpace (rev (dropWhile isWhiteSpace str)))"

text \<open>
  One round of the loop over the move strings: the exact match first, then the
  three rewrites; \<open>None\<close> when the string is dropped.
\<close>

definition lookupMoveString :: "(string \<rightharpoonup> Move) \<Rightarrow> string \<Rightarrow> Move option" where
  "lookupMoveString validMoveMapping moveString =
     (case validMoveMapping moveString of
        Some m \<Rightarrow> Some m
      | None \<Rightarrow>
          (case (if moveString \<noteq> [] \<and> (hd moveString = CHR ''P'' \<or> hd moveString = CHR ''p'')
                 then validMoveMapping (tl moveString) else None) of
             Some m \<Rightarrow> Some m
           | None \<Rightarrow>
               (case (if moveString = ''O-O'' then validMoveMapping ''0-0'' else None) of
                  Some m \<Rightarrow> Some m
                | None \<Rightarrow>
                    (if moveString = ''O-O-O'' then validMoveMapping ''0-0-0'' else None))))"

definition extractMovesFromMessage :: "(string \<rightharpoonup> Move) \<Rightarrow> string \<Rightarrow> Move list option" where
  "extractMovesFromMessage validMoveMapping llmOutput =
     (case matchMovesLine llmOutput of
        None \<Rightarrow> None
      | Some movesString \<Rightarrow>
          (let moveStrings = map trim (split CHR '','' movesString);
               moves = List.map_filter (lookupMoveString validMoveMapping) moveStrings
           in if moves = [] then None else Some moves))"

text \<open>
  The loop \<open>while (moves === null)\<close> of \<open>getSuccessorsInOneSingleOptionLLMCall\<close>.
  \<open>tires\<close> is only incremented after an answer was parsed; the \<open>catch\<close> branch
  continues without counting.  The loop may therefore run forever, and \<open>None\<close> is
  the result of a run that does.  A finished run gives the moves or the
  exception, and the new number of calls.
\<close>

partial_function (option) successorsLoop ::
  "CallLLM \<Rightarrow> (string \<rightharpoonup> Move) \<Rightarrow> nat \<Rightarrow> nat \<Rightarrow> ((error + Move list) \<times> nat) option" where
  "successorsLoop callLLM validMoveMapping tires calls =
     (if tires \<ge> maxLLMTries
      then Some (Inl (Error ''Exceeded max tries and could not extract moves from LLM output''), calls)
      else
        (case callLLM calls of
           Inl e \<Rightarrow> successorsLoop callLLM validMoveMapping tires (calls + 1)
         | Inr messageChoices \<Rightarrow>
             (case messageChoices of
                [] \<Rightarrow> Some (Inl TypeError, calls + 1)
              | messageChoice # _ \<Rightarrow>
                  (case content messageChoice of
                     None \<Rightarrow> Some (Inl (Error ''No message content in message choice''), calls + 1)
                   | Some messageContent \<Rightarrow>
                       if messageContent = []
                       then Some (Inl (Error ''No message content in message choice''), calls + 1)
                       else
                         (case extractMovesFromMessage validMoveMapping messageContent of
                            None \<Rightarrow> successorsLoop callLLM validMoveMapping (tires + 1) (calls + 1)
                          | Some moves \<Rightarrow> Some (Inr moves, calls + 1))))))"

text \<open>The \<open>Map\<close> from algebraic strings to moves: a later move replaces an earlier one.\<close>

definition validMoveMappingOf :: "Move list \<Rightarrow> (string \<rightharpoonup> Move)" where
  "validMoveMappingOf validMoves = map_of (rev (map (\<lambda>m. (algebraic m, m)) validMoves))"

fun mapE :: "('a \<Rightarrow> error + 'b) \<Rightarrow> 'a list \<Rightarrow> error + 'b list" where
  "mapE f [] = Inr []"
| "mapE f (x # xs) = bindE (f x) (\<lambda>y. bindE (mapE f xs) (\<lambda>ys. Inr (y # ys)))"

text \<open>
  \<open>getSuccessors\<close>, that is \<open>getSuccessorsInOneSingleOptionLLMCall\<close>.  Each successor
  state is built by \<open>new ChessGame(_.cloneDeep(gameState)).makeMove(move).getGameState()\<close>,
  which on state values is \<open>makeMove\<close>.
\<close>

definition getSuccessors ::
  "CallLLM \<Rightarrow> GameState \<Rightarrow> Agent \<Rightarrow> GameStateProgression list promise \<times> Agent" where
  "getSuccessors callLLM gs a =
     (case getGameDescription callLLM gs a of
        (Pending, a1) \<Rightarrow> (Pending, a1)
      | (Rejected e, a1) \<Rightarrow> (Rejected e, a1)
      | (Resolved gameDescriptionMessage, a1) \<Rightarrow>
          (case getAllLegalMoves gs (turn gs) of
             Inl e \<Rightarrow> (Rejected e, a1)
           | Inr validMoves \<Rightarrow>
               (case successorsLoop callLLM (validMoveMappingOf validMoves) 0 (llmCalls a1) of
                  None \<Rightarrow> (Pending, a1\<lparr>retryingForever := True\<rparr>)
                | Some (Inl e, calls) \<Rightarrow> (Rejected e, a1\<lparr>llmCalls := calls\<rparr>)
                | Some (Inr moves, calls) \<Rightarrow>
                    (let constantProbability = 1 / real (length moves)
                     in case mapE (\<lambda>m. bindE (makeMove gs m) (\<lambda>s'.
                                     Inr \<lparr>nextState = s', move = m,
                                          probability = constantProbability\<rparr>)) moves of
                          Inl e \<Rightarrow> (Rejected e, a1\<lparr>llmCalls := calls\<rparr>)
                        | Inr gameStateProgressions \<Rightarrow>
                            (Resolved gameStateProgressions, a1\<lparr>llmCalls := calls\<rparr>)))))"

section \<open>Compressed minimax (class CompressedMinimax)\<close>

text \<open>
  The search as the LLM agent runs it.  The field \<open>parallel\<close> is initialised to
  \<open>true\<close> and never assigned, so only \<open>minimaxParallelTreeSearch\<close> is reachable; it
  passes no \<open>alpha\<close> and \<open>beta\<close> other than the infinities, and the two parameters
  are left out.  Writing the log files is left out as well.  Children that
  the script starts together are run here one after the other, each to
  completion, in successor order.
\<close>

record MinimaxIterationResult =
  computedValue :: real
  usedBudget :: real

definition budgetCacheTolerance :: real where
  "budgetCacheTolerance = 1 / 10"


definition estimateNumberOfSuccessors :: real where
  "estimateNumberOfSuccessors = real targetSuccessorCount"

definition addToMinimaxCache :: "Agent \<Rightarrow> string \<Rightarrow> PendingCacheEntry \<Rightarrow> Agent" where
  "addToMinimaxCache a gameHash entry =
     (case minimaxCache a gameHash of
        None \<Rightarrow> a\<lparr>minimaxCache := (minimaxCache a)(gameHash \<mapsto> entry)\<rparr>
      | Some existingEntry \<Rightarrow>
          if budget existingEntry > budget entry then a
          else a\<lparr>minimaxCache := (minimaxCache a)(gameHash \<mapsto> entry)\<rparr>)"

text \<open>A new \<open>Promise<number>\<close> object in the given state.\<close>

definition newValuePromise :: "Agent \<Rightarrow> real promise \<Rightarrow> nat \<times> Agent" where
  "newValuePromise a p =
     (nextValuePromise a,
      a\<lparr>valuePromises := (valuePromises a)(nextValuePromise a := p),
        nextValuePromise := nextValuePromise a + 1\<rparr>)"

text \<open>
  \<open>Promise.all\<close> over promises that have run to their end: rejected when one is
  rejected (here the first in list order), never settled when none is rejected
  and one never settles.
\<close>

fun awaitAll :: "'a promise list \<Rightarrow> 'a list promise" where
  "awaitAll [] = Resolved []"
| "awaitAll (p # ps) =
     (case p of
        Rejected e \<Rightarrow> Rejected e
      | Pending \<Rightarrow> (case awaitAll ps of Rejected e \<Rightarrow> Rejected e | _ \<Rightarrow> Pending)
      | Resolved v \<Rightarrow>
          (case awaitAll ps of
             Rejected e \<Rightarrow> Rejected e
           | Pending \<Rightarrow> Pending
           | Resolved vs \<Rightarrow> Resolved (v # vs)))"

text \<open>
  The loop that starts one search per successor.  \<open>search\<close> is \<open>this.minimax\<close> at
  the child depth for the other player.  The script starts every search before
  the first answer of the oracle arrives, and leaves to the event loop in which
  order the requests of the searches are sent from then on.  The model takes one
  such order: each search runs to its end before the next is started.  As the
  oracle is a function of the number of the call, a request can meet another
  answer here than it meets in a run of the script that sends the requests in
  another order; an oracle that answers alike from some call on, as those of the
  examples do, gives every order the same answers.
\<close>

fun exploreSubnodes ::
  "(GameState \<Rightarrow> real \<Rightarrow> Agent \<Rightarrow> 'r \<times> Agent) \<Rightarrow> real \<Rightarrow> GameStateProgression list \<Rightarrow> Agent
   \<Rightarrow> 'r list \<times> Agent" where
  "exploreSubnodes search budgetForSearch [] a = ([], a)"
| "exploreSubnodes search budgetForSearch (successor # rest) a =
     (let thisNodeBudget = budgetForSearch * probability successor;
          (r, a1) = search (nextState successor) thisNodeBudget a;
          (rs, a2) = exploreSubnodes search budgetForSearch rest a1
      in (r # rs, a2))"

text \<open>
  \<open>minimaxParallelTreeSearch\<close>.  Over no children the script computes
  \<open>Math.max()\<close>, which is minus infinity, a value no caller receives: \<open>minimax\<close> has
  rejected with \<open>No successors found\<close> before the call.  The model rejects there.
\<close>

definition minimaxParallelTreeSearch ::
  "(GameState \<Rightarrow> real \<Rightarrow> Agent \<Rightarrow> MinimaxIterationResult promise \<times> Agent) \<Rightarrow> real \<Rightarrow>
   GameStateProgression list \<Rightarrow> bool \<Rightarrow> Agent \<Rightarrow> MinimaxIterationResult promise \<times> Agent" where
  "minimaxParallelTreeSearch search budgetForSearch successors maximizingPlayer a =
     (let (subnodeExplorations, a1) = exploreSubnodes search budgetForSearch successors a
      in case awaitAll subnodeExplorations of
           Pending \<Rightarrow> (Pending, a1)
         | Rejected e \<Rightarrow> (Rejected e, a1)
         | Resolved subnodeResults \<Rightarrow>
             (case subnodeResults of
                [] \<Rightarrow> (Rejected (Error ''No successors found''), a1)
              | r # rs \<Rightarrow>
                  (let used = foldl (\<lambda>acc val. acc + usedBudget val) 0 subnodeResults;
                       bestValue =
                         (if maximizingPlayer
                          then foldl max (computedValue r) (map computedValue rs)
                          else foldl min (computedValue r) (map computedValue rs))
                   in (Resolved \<lparr>computedValue = bestValue, usedBudget = used\<rparr>, a1))))"

text \<open>
  The cache probe of \<open>minimax\<close>: the entry under the hash, when its budget is at
  least the requested one or within the tolerance of it.  Budgets are real
  numbers here and the tolerance is 1/10; the script subtracts IEEE doubles and
  compares with the double nearest to 0.1, so that for budgets whose distance is
  within a rounding step of the tolerance its answer can be the other one.
\<close>

definition probeMinimaxCache :: "Agent \<Rightarrow> string \<Rightarrow> real \<Rightarrow> PendingCacheEntry option" where
  "probeMinimaxCache a gameHash b =
     (case minimaxCache a gameHash of
        None \<Rightarrow> None
      | Some cacheResult \<Rightarrow>
          if budget cacheResult \<ge> b \<or> \<bar>budget cacheResult - b\<bar> < budgetCacheTolerance
          then Some cacheResult else None)"

text \<open>
  The start of the executor of \<open>minimaxResultPromise\<close>: the successors cached for
  the hash, if any.  Awaiting a cached promise that is rejected throws inside the
  executor, which then never settles; so does awaiting one that never settles.
\<close>

definition awaitCachedSuccessors :: "Agent \<Rightarrow> string \<Rightarrow> GameStateProgression list option promise" where
  "awaitCachedSuccessors a gameHash =
     (case successorsCache a gameHash of
        None \<Rightarrow> Resolved None
      | Some Pending \<Rightarrow> Pending
      | Some (Rejected e) \<Rightarrow> Pending
      | Some (Resolved cachedSuccessors) \<Rightarrow> Resolved (Some cachedSuccessors))"

definition realizedGetSuccessorsCost :: "CostSetup \<Rightarrow> GameStateProgression list option \<Rightarrow> real" where
  "realizedGetSuccessorsCost cs cachedSuccessors =
     (if cachedSuccessors \<noteq> None then 0 else getSuccessorsCost cs)"

definition estimatedNumberOfSuccessors :: "GameStateProgression list option \<Rightarrow> real" where
  "estimatedNumberOfSuccessors cachedSuccessors =
     (case cachedSuccessors of
        None \<Rightarrow> estimateNumberOfSuccessors
      | Some successors \<Rightarrow> real (length successors))"

text \<open>The test that makes a node a leaf; \<open>used\<close> is the budget charged so far.\<close>

definition leafDecision ::
  "CostSetup \<Rightarrow> int \<Rightarrow> real \<Rightarrow> real \<Rightarrow> GameStateProgression list option \<Rightarrow> bool" where
  "leafDecision cs depth b used cachedSuccessors =
     (depth \<ge> maxDepth cs \<or>
      b < realizedGetSuccessorsCost cs cachedSuccessors
            + estimatedNumberOfSuccessors cachedSuccessors * stateEvaluationCost cs + used)"

text \<open>
  The two ways the executor of \<open>minimaxResultPromise\<close> goes on after the leaf
  test.  A leaf charges \<open>stateEvaluationCost\<close> and awaits \<open>stateEvaluation\<close>; a
  rejection there is thrown inside the executor outside any \<open>try\<close>, so the node
  never settles.  Otherwise the node charges the realized cost of the
  successors, takes them from the cache or requests and caches them, and
  searches the children with the budget that is left; a rejection of the
  request or of the tree search is caught and rejects the node.
\<close>

definition evaluateLeaf ::
  "CostSetup \<Rightarrow> CallLLM \<Rightarrow> GameState \<Rightarrow> real \<Rightarrow> Agent \<Rightarrow> MinimaxIterationResult promise \<times> Agent" where
  "evaluateLeaf cs callLLM gs used a =
     (case stateEvaluation callLLM gs a of
        (Resolved v, a1) \<Rightarrow>
          (Resolved \<lparr>computedValue = v, usedBudget = used + stateEvaluationCost cs\<rparr>, a1)
      | (Rejected e, a1) \<Rightarrow> (Pending, a1)
      | (Pending, a1) \<Rightarrow> (Pending, a1))"

definition expandNode ::
  "(GameState \<Rightarrow> real \<Rightarrow> Agent \<Rightarrow> MinimaxIterationResult promise \<times> Agent) \<Rightarrow>
   CostSetup \<Rightarrow> CallLLM \<Rightarrow> GameState \<Rightarrow> real \<Rightarrow> real \<Rightarrow> GameStateProgression list option \<Rightarrow> bool \<Rightarrow>
   Agent \<Rightarrow> MinimaxIterationResult promise \<times> Agent" where
  "expandNode search cs callLLM gs b used cachedSuccessors maximizingPlayer a =
     (let used2 = used + realizedGetSuccessorsCost cs cachedSuccessors;
          (successorsPromise, a1) =
            (case cachedSuccessors of
               Some successors \<Rightarrow> (Resolved successors, a)
             | None \<Rightarrow>
                 (let (sp, a') = getSuccessors callLLM gs a
                  in (sp, a'\<lparr>successorsCache := (successorsCache a')(hashGameState gs \<mapsto> sp)\<rparr>)))
      in case successorsPromise of
           Pending \<Rightarrow> (Pending, a1)
         | Rejected e \<Rightarrow> (Rejected e, a1)
         | Resolved successors \<Rightarrow>
             if successors = [] then (Rejected (Error ''No successors found''), a1)
             else
               (case minimaxParallelTreeSearch search (b - used2) successors maximizingPlayer a1 of
                  (Resolved r, a2) \<Rightarrow>
                    (Resolved \<lparr>computedValue = computedValue r,
                               usedBudget = used2 + usedBudget r\<rparr>, a2)
                | (Rejected e, a2) \<Rightarrow> (Rejected e, a2)
                | (Pending, a2) \<Rightarrow> (Pending, a2)))"

text \<open>
  A terminal result is published as an already fulfilled promise with the budget
  charged so far.
\<close>

definition publishTerminal :: "Agent \<Rightarrow> string \<Rightarrow> real \<Rightarrow> real \<Rightarrow> Agent" where
  "publishTerminal a gameHash v used =
     (let (p, a1) = newValuePromise a (Resolved v)
      in addToMinimaxCache a1 gameHash \<lparr>valuePromise = p, budget = used\<rparr>)"

text \<open>
  \<open>minimax\<close>.  After the two probes the node's promise is made and published
  under the hash with the requested budget, then the executor body runs, and at
  its end the promise settles as the body did.
\<close>

function minimax ::
  "CostSetup \<Rightarrow> CallLLM \<Rightarrow> int \<Rightarrow> GameState \<Rightarrow> real \<Rightarrow> bool \<Rightarrow> Agent
   \<Rightarrow> MinimaxIterationResult promise \<times> Agent" where
  "minimax cs callLLM depth gs b maximizingPlayer a =
     (let gameHash = hashGameState gs in
      case probeMinimaxCache a gameHash b of
        Some cacheResult \<Rightarrow>
          (case valuePromises a (valuePromise cacheResult) of
             Pending \<Rightarrow> (Pending, a)
           | Rejected e \<Rightarrow> (Rejected e, a)
           | Resolved v \<Rightarrow> (Resolved \<lparr>computedValue = v, usedBudget = 0\<rparr>, a))
      | None \<Rightarrow>
          (let used = basicMinimaxCost cs in
           case getEndgameState gs of
             Inl e \<Rightarrow> (Rejected e, a)
           | Inr endgameState \<Rightarrow>
               if endgameState = CheckmateWhite then
                 (Resolved \<lparr>computedValue = - 1, usedBudget = used\<rparr>,
                  publishTerminal a gameHash (- 1) used)
               else if endgameState = CheckmateBlack then
                 (Resolved \<lparr>computedValue = 1, usedBudget = used\<rparr>,
                  publishTerminal a gameHash 1 used)
               else
                 (let (p, a1) = newValuePromise a Pending;
                      a2 = addToMinimaxCache a1 gameHash \<lparr>valuePromise = p, budget = b\<rparr>;
                      (result, a3) =
                        (case awaitCachedSuccessors a2 gameHash of
                           Pending \<Rightarrow> (Pending, a2)
                         | Rejected e \<Rightarrow> (Pending, a2)
                         | Resolved cachedSuccessors \<Rightarrow>
                             if leafDecision cs depth b used cachedSuccessors
                             then evaluateLeaf cs callLLM gs used a2
                             else expandNode
                                    (\<lambda>gs' b' a'. minimax cs callLLM (depth + 1) gs' b'
                                                    (\<not> maximizingPlayer) a')
                                    cs callLLM gs b used cachedSuccessors maximizingPlayer a2)
                  in (result,
                      a3\<lparr>valuePromises := (valuePromises a3)
                            (p := map_promise computedValue result)\<rparr>))))"
  by pat_completeness auto
termination
  by (relation "measure (\<lambda>(cs, callLLM, depth, gs, b, maximizingPlayer, a). nat (maxDepth cs - depth))")
     (auto simp: leafDecision_def)

declare minimax.simps [simp del]

text \<open>
  \<open>Array.prototype.reduce\<close> without an initial value: the first element starts the
  accumulator; on an empty array the runtime raises a \<open>TypeError\<close>.
\<close>

fun reduce :: "('a \<Rightarrow> 'a \<Rightarrow> 'a) \<Rightarrow> 'a list \<Rightarrow> error + 'a" where
  "reduce f [] = Inl TypeError"
| "reduce f (x # xs) = Inr (foldl f x xs)"

text \<open>
  The last step of \<open>selectMove\<close>: each element of \<open>results\<close> is a child's
  \<open>MinimaxIterationResult\<close> together with the move that leads to the child.
\<close>

definition selectBest ::
  "bool \<Rightarrow> (Move \<times> MinimaxIterationResult) list \<Rightarrow> error + (Move \<times> MinimaxIterationResult)" where
  "selectBest maximizingPlayer results =
     (if maximizingPlayer
      then reduce (\<lambda>prev current.
             if computedValue (snd prev) > computedValue (snd current) then prev else current) results
      else reduce (\<lambda>prev current.
             if computedValue (snd prev) < computedValue (snd current) then prev else current) results)"

text \<open>
  \<open>selectMove\<close>: the root.  Its children are searched at depth 1 for the other
  player, each with its share of the budget that is left after the successors
  were paid for.
\<close>

definition selectMove :: "CostSetup \<Rightarrow> CallLLM \<Rightarrow> GameState \<Rightarrow> Agent \<Rightarrow> Move promise \<times> Agent" where
  "selectMove cs callLLM gs a =
     (let maximizingPlayer = (turn gs = White);
          gameHash = hashGameState gs;
          (successorsPromise, b, a1) =
            (case successorsCache a gameHash of
               Some sp \<Rightarrow> (sp, totalBudget cs, a)
             | None \<Rightarrow>
                 (let (sp, a') = getSuccessors callLLM gs a
                  in (sp, totalBudget cs - getSuccessorsCost cs,
                      a'\<lparr>successorsCache := (successorsCache a')(gameHash \<mapsto> sp)\<rparr>)))
      in case successorsPromise of
           Pending \<Rightarrow> (Pending, a1)
         | Rejected e \<Rightarrow> (Rejected e, a1)
         | Resolved successors \<Rightarrow>
             if successors = [] then (Rejected (Error ''No successors found''), a1)
             else
               (let (subnodeExplorations, a2) =
                      exploreSubnodes
                        (\<lambda>gs' b' a'. minimax cs callLLM 1 gs' b' (\<not> maximizingPlayer) a')
                        b successors a1
                in case awaitAll subnodeExplorations of
                     Pending \<Rightarrow> (Pending, a2)
                   | Rejected e \<Rightarrow> (Rejected e, a2)
                   | Resolved results \<Rightarrow>
                       (case selectBest maximizingPlayer (zip (map move successors) results) of
                          Inl e \<Rightarrow> (Rejected e, a2)
                        | Inr best \<Rightarrow> (Resolved (fst best), a2))))"

subsection \<open>The two steps around the executor\<close>

text \<open>
  Names for what \<open>minimax\<close> does to the agent before and after the executor body:
  \<open>publishPending\<close> creates the node's promise and offers it to the cache with the
  requested budget; \<open>settleNode\<close> settles that promise as the body ended.
\<close>

definition publishPending :: "Agent \<Rightarrow> string \<Rightarrow> real \<Rightarrow> Agent" where
  "publishPending a gameHash b =
     addToMinimaxCache
       (a\<lparr>valuePromises := (valuePromises a)(nextValuePromise a := Pending),
          nextValuePromise := nextValuePromise a + 1\<rparr>)
       gameHash \<lparr>valuePromise = nextValuePromise a, budget = b\<rparr>"

definition settleNode ::
  "nat \<Rightarrow> MinimaxIterationResult promise \<times> Agent \<Rightarrow> MinimaxIterationResult promise \<times> Agent" where
  "settleNode p ra =
     (fst ra, (snd ra)\<lparr>valuePromises := (valuePromises (snd ra))(p := map_promise computedValue (fst ra))\<rparr>)"


section \<open>Example positions\<close>

definition emptyRow :: "CellState list" where
  "emptyRow = replicate 8 None"

text \<open>A piece that has been moved before: both flags were written by the move.\<close>

definition movedPiece :: "PlayerColor \<Rightarrow> PieceType \<Rightarrow> CellState" where
  "movedPiece c t = Some \<lparr>ptype = t, color = c, hasMoved = True, justMoved2 = Some False\<rparr>"

text \<open>
  Two positions with black to move that differ in one piece: white king a1, black
  king h8, and on g1 a white rook (\<open>collideA\<close>) or a white knight (\<open>collideB\<close>).
\<close>

definition collideA :: GameState where
  "collideA =
     \<lparr>turn = Black,
      boardState =
        [[movedPiece White King, None, None, None, None, None, movedPiece White Rook, None],
         emptyRow, emptyRow, emptyRow, emptyRow, emptyRow, emptyRow,
         [None, None, None, None, None, None, None, movedPiece Black King]],
      moveHistory = []\<rparr>"

definition collideB :: GameState where
  "collideB =
     \<lparr>turn = Black,
      boardState =
        [[movedPiece White King, None, None, None, None, None, movedPiece White Knight, None],
         emptyRow, emptyRow, emptyRow, emptyRow, emptyRow, emptyRow,
         [None, None, None, None, None, None, None, movedPiece Black King]],
      moveHistory = []\<rparr>"

definition kingStep :: "Position \<Rightarrow> Position \<Rightarrow> string \<Rightarrow> Move" where
  "kingStep f t a = (plainMove f t)\<lparr>algebraic := a\<rparr>"

text \<open>\<open>collideB\<close> after black has played Kh7.\<close>

definition afterKh7 :: GameState where
  "afterKh7 =
     \<lparr>turn = White,
      boardState =
        [[movedPiece White King, None, None, None, None, None, movedPiece White Knight, None],
         emptyRow, emptyRow, emptyRow, emptyRow, emptyRow,
         [None, None, None, None, None, None, None, movedPiece Black King],
         emptyRow],
      moveHistory = [kingStep (7, 7) (6, 7) ''Kh7'']\<rparr>"

text \<open>A piece on its initial square, as \<open>initialGameState\<close> has it: no \<open>justMoved2\<close> yet.\<close>

definition freshPiece :: "PlayerColor \<Rightarrow> PieceType \<Rightarrow> CellState" where
  "freshPiece c t = Some \<lparr>ptype = t, color = c, hasMoved = False, justMoved2 = None\<rparr>"

text \<open>
  White to move with the king on e1 and a pawn on e2; black has a pawn on d4 and
  the king on e8.  \<open>doubleStepE4\<close> is the move e2 to e4 as \<open>getPawnMoves\<close> emits it.
\<close>

definition epReady0 :: GameState where
  "epReady0 =
     \<lparr>turn = White,
      boardState =
        [[None, None, None, None, movedPiece White King, None, None, None],
         [None, None, None, None, freshPiece White Pawn, None, None, None],
         emptyRow,
         [None, None, None, movedPiece Black Pawn, None, None, None, None],
         emptyRow, emptyRow, emptyRow,
         [None, None, None, None, movedPiece Black King, None, None, None]],
      moveHistory = []\<rparr>"

definition doubleStepE4 :: Move where
  "doubleStepE4 = (plainMove (1, 4) (3, 4))\<lparr>algebraic := ''e4'', isPawnMoving2 := True\<rparr>"

definition enPassantE3 :: Move where
  "enPassantE3 = (plainMove (3, 3) (2, 4))\<lparr>enPassant := True, algebraic := ''e3''\<rparr>"

text \<open>
  The same with a white rook on d1 and the black king on d8: the pawn on d4 is
  all that stands between rook and king.  \<open>pinned1\<close> is the position after e2 to e4.
\<close>

definition pinned0 :: GameState where
  "pinned0 =
     \<lparr>turn = White,
      boardState =
        [[None, None, None, movedPiece White Rook, movedPiece White King, None, None, None],
         [None, None, None, None, freshPiece White Pawn, None, None, None],
         emptyRow,
         [None, None, None, movedPiece Black Pawn, None, None, None, None],
         emptyRow, emptyRow, emptyRow,
         [None, None, None, movedPiece Black King, None, None, None, None]],
      moveHistory = []\<rparr>"

definition pinned1 :: GameState where
  "pinned1 =
     \<lparr>turn = Black,
      boardState =
        [[None, None, None, movedPiece White Rook, movedPiece White King, None, None, None],
         emptyRow,
         emptyRow,
         [None, None, None, movedPiece Black Pawn,
          Some \<lparr>ptype = Pawn, color = White, hasMoved = True, justMoved2 = Some True\<rparr>,
          None, None, None],
         emptyRow, emptyRow, emptyRow,
         [None, None, None, movedPiece Black King, None, None, None, None]],
      moveHistory = [doubleStepE4]\<rparr>"

text \<open>An agent right after construction, and the cost setup of \<open>callGenericAgent\<close>.\<close>

definition newAgent :: Agent where
  "newAgent =
     \<lparr>minimaxCache = Map.empty, valuePromises = (\<lambda>_. Pending), nextValuePromise = 0,
      successorsCache = Map.empty, gameDescriptionCache = Map.empty, llmCalls = 0,
      retryingForever = False\<rparr>"

definition defaultCostSetup :: CostSetup where
  "defaultCostSetup =
     \<lparr>maxDepth = 1, totalBudget = 500, stateEvaluationCost = 10, getSuccessorsCost = 10,
      basicMinimaxCost = 1\<rparr>"

text \<open>
  Oracles.  Each answers the first call, which is the description request of a
  new agent, with a single choice.  \<open>describeThenAnswer reply\<close> answers every later
  call with the text \<open>reply\<close> and no log-probabilities; \<open>describeThenThrow\<close> throws
  on every later call.
\<close>

definition describeThenAnswer :: "string \<Rightarrow> CallLLM" where
  "describeThenAnswer reply n =
     (if n = 0 then Inr [\<lparr>content = Some ''Both sides have a bare king.'', logprobs = None\<rparr>]
      else Inr [\<lparr>content = Some reply, logprobs = None\<rparr>])"

definition describeThenThrow :: CallLLM where
  "describeThenThrow n =
     (if n = 0 then Inr [\<lparr>content = Some ''Both sides have a bare king.'', logprobs = None\<rparr>]
      else Inl (Error ''rate limit''))"

definition describedAgent :: "GameState \<Rightarrow> Agent" where
  "describedAgent gs =
     newAgent\<lparr>gameDescriptionCache :=
                [hashGameState gs \<mapsto> Resolved (Some ''Both sides have a bare king.'')],
              llmCalls := 1\<rparr>"

text \<open>
  White to move with the king on h1 against black rooks on g8 and h8 and the
  black king on a8: white is checkmated (this engine's king steps along ranks
  and files only).  \<open>unmatedWhite\<close> has a black knight on h8 instead of the rook;
  there white can play Kh2.
\<close>

definition matedWhite :: GameState where
  "matedWhite =
     \<lparr>turn = White,
      boardState =
        [[None, None, None, None, None, None, None, movedPiece White King],
         emptyRow, emptyRow, emptyRow, emptyRow, emptyRow, emptyRow,
         [movedPiece Black King, None, None, None, None, None,
          movedPiece Black Rook, movedPiece Black Rook]],
      moveHistory = []\<rparr>"

definition unmatedWhite :: GameState where
  "unmatedWhite =
     \<lparr>turn = White,
      boardState =
        [[None, None, None, None, None, None, None, movedPiece White King],
         emptyRow, emptyRow, emptyRow, emptyRow, emptyRow, emptyRow,
         [movedPiece Black King, None, None, None, None, None,
          movedPiece Black Rook, movedPiece Black Knight]],
      moveHistory = []\<rparr>"

text \<open>
  The exception of a description request that ran out of tries, and an oracle
  that throws on every call.
\<close>

definition descriptionFailure :: error where
  "descriptionFailure = Error ''Exceeded max tries and could not get game description from LLM''"

definition alwaysThrow :: CallLLM where
  "alwaysThrow n = Inl (Error ''rate limit'')"

text \<open>
  The agent after a search of \<open>unmatedWhite\<close> at depth 1 with budget 100, against
  an oracle that describes the position and then answers \<open>white\<close>: the position is
  a leaf of value 1, published under its hash.
\<close>

definition searchedAgent :: Agent where
  "searchedAgent =
     \<lparr>minimaxCache = [hashGameState matedWhite \<mapsto> \<lparr>valuePromise = 0, budget = 100\<rparr>],
      valuePromises = (\<lambda>_. Pending)(0 := Resolved 1),
      nextValuePromise = 1,
      successorsCache = Map.empty,
      gameDescriptionCache =
        [hashGameState matedWhite \<mapsto> Resolved (Some ''Both sides have a bare king.'')],
      llmCalls = 2,
      retryingForever = False\<rparr>"

text \<open>
  A cost setup that lets the search go one level below the children of the
  root.  \<open>failedSearchAgent\<close> is the agent after a search of \<open>unmatedWhite\<close> at
  depth 1 with budget 100 under that setup, against the oracle that always
  throws: the node asked for successors, the description request behind that
  ran out of tries, and the node's promise was rejected.
\<close>

definition searchCostSetup :: CostSetup where
  "searchCostSetup = defaultCostSetup\<lparr>maxDepth := 2\<rparr>"

definition failedSearchAgent :: Agent where
  "failedSearchAgent =
     \<lparr>minimaxCache = [hashGameState unmatedWhite \<mapsto> \<lparr>valuePromise = 0, budget = 100\<rparr>],
      valuePromises = (\<lambda>_. Pending)(0 := Rejected descriptionFailure),
      nextValuePromise = 1,
      successorsCache = [hashGameState unmatedWhite \<mapsto> Rejected descriptionFailure],
      gameDescriptionCache = [hashGameState unmatedWhite \<mapsto> Rejected descriptionFailure],
      llmCalls = 5,
      retryingForever = False\<rparr>"

text \<open>
  \<open>unmatedWhite\<close> after Kh2, and an agent that holds this one successor of
  \<open>unmatedWhite\<close> in its successors cache.
\<close>

definition afterKh2 :: GameState where
  "afterKh2 =
     \<lparr>turn = Black,
      boardState =
        [emptyRow,
         [None, None, None, None, None, None, None, movedPiece White King],
         emptyRow, emptyRow, emptyRow, emptyRow, emptyRow,
         [movedPiece Black King, None, None, None, None, None,
          movedPiece Black Rook, movedPiece Black Knight]],
      moveHistory = [kingStep (0, 7) (1, 7) ''Kh2'']\<rparr>"



text \<open>
  Two bare kings, white to move from a1: the king can step to a2 or to b1.
  \<open>afterKa2\<close> and \<open>afterKb1\<close> are the positions after these moves, and the two
  progressions are what \<open>getSuccessors\<close> builds when the oracle proposes both moves
  in this order.
\<close>

definition twoKings :: GameState where
  "twoKings =
     \<lparr>turn = White,
      boardState =
        [[movedPiece White King, None, None, None, None, None, None, None],
         emptyRow, emptyRow, emptyRow, emptyRow, emptyRow, emptyRow,
         [None, None, None, None, None, None, None, movedPiece Black King]],
      moveHistory = []\<rparr>"

definition afterKa2 :: GameState where
  "afterKa2 =
     \<lparr>turn = Black,
      boardState =
        [emptyRow,
         [movedPiece White King, None, None, None, None, None, None, None],
         emptyRow, emptyRow, emptyRow, emptyRow, emptyRow,
         [None, None, None, None, None, None, None, movedPiece Black King]],
      moveHistory = [kingStep (0, 0) (1, 0) ''Ka2'']\<rparr>"

definition afterKb1 :: GameState where
  "afterKb1 =
     \<lparr>turn = Black,
      boardState =
        [[None, movedPiece White King, None, None, None, None, None, None],
         emptyRow, emptyRow, emptyRow, emptyRow, emptyRow, emptyRow,
         [None, None, None, None, None, None, None, movedPiece Black King]],
      moveHistory = [kingStep (0, 0) (0, 1) ''Kb1'']\<rparr>"

definition ka2Progression :: GameStateProgression where
  "ka2Progression =
     \<lparr>nextState = afterKa2, move = kingStep (0, 0) (1, 0) ''Ka2'', probability = 1 / 2\<rparr>"

definition kb1Progression :: GameStateProgression where
  "kb1Progression =
     \<lparr>nextState = afterKb1, move = kingStep (0, 0) (0, 1) ''Kb1'', probability = 1 / 2\<rparr>"

text \<open>
  An oracle that describes the position on the first call, proposes Ka2 and Kb1
  on the second, and answers \<open>white\<close> to every call after that, whichever
  request it carries.
\<close>

definition proposeThenAnswer :: CallLLM where
  "proposeThenAnswer n =
     (if n = 0 then Inr [\<lparr>content = Some ''Both sides have a bare king.'', logprobs = None\<rparr>]
      else if n = 1 then Inr [\<lparr>content = Some ''The king should leave the corner. Moves: Ka2, Kb1'',
                               logprobs = None\<rparr>]
      else Inr [\<lparr>content = Some ''white'', logprobs = None\<rparr>])"

text \<open>
  The agent during \<open>selectMove\<close> on \<open>twoKings\<close> with this oracle and the default
  cost setup: when the successors of the root are there (\<open>rootedAgent\<close>), after
  the search of the first child (\<open>halfTiedAgent\<close>) and after the search of the
  second (\<open>tiedAgent\<close>).  Each child is a leaf of value 1, searched with half of
  the budget 490.
\<close>

definition rootedAgent :: Agent where
  "rootedAgent =
     \<lparr>minimaxCache = Map.empty,
      valuePromises = (\<lambda>_. Pending),
      nextValuePromise = 0,
      successorsCache = [hashGameState twoKings \<mapsto> Resolved [ka2Progression, kb1Progression]],
      gameDescriptionCache =
        [hashGameState twoKings \<mapsto> Resolved (Some ''Both sides have a bare king.'')],
      llmCalls = 2,
      retryingForever = False\<rparr>"

definition halfTiedAgent :: Agent where
  "halfTiedAgent =
     \<lparr>minimaxCache = [hashGameState afterKa2 \<mapsto> \<lparr>valuePromise = 0, budget = 245\<rparr>],
      valuePromises = (\<lambda>_. Pending)(0 := Resolved 1),
      nextValuePromise = 1,
      successorsCache = [hashGameState twoKings \<mapsto> Resolved [ka2Progression, kb1Progression]],
      gameDescriptionCache =
        [hashGameState twoKings \<mapsto> Resolved (Some ''Both sides have a bare king.''),
         hashGameState afterKa2 \<mapsto> Resolved (Some ''white'')],
      llmCalls = 4,
      retryingForever = False\<rparr>"

definition tiedAgent :: Agent where
  "tiedAgent =
     \<lparr>minimaxCache =
        [hashGameState afterKa2 \<mapsto> \<lparr>valuePromise = 0, budget = 245\<rparr>,
         hashGameState afterKb1 \<mapsto> \<lparr>valuePromise = 1, budget = 245\<rparr>],
      valuePromises = (\<lambda>_. Pending)(0 := Resolved 1, 1 := Resolved 1),
      nextValuePromise = 2,
      successorsCache = [hashGameState twoKings \<mapsto> Resolved [ka2Progression, kb1Progression]],
      gameDescriptionCache =
        [hashGameState twoKings \<mapsto> Resolved (Some ''Both sides have a bare king.''),
         hashGameState afterKa2 \<mapsto> Resolved (Some ''white''),
         hashGameState afterKb1 \<mapsto> Resolved (Some ''white'')],
      llmCalls = 6,
      retryingForever = False\<rparr>"

section \<open>Well-formed boards\<close>

text \<open>
  The board of a \<open>GameState\<close> is documented as an 8 by 8 array; the general
  statements below are about such boards and about squares on them.
\<close>

definition wfBoard :: "CellState list list \<Rightarrow> bool" where
  "wfBoard b = (length b = 8 \<and> (\<forall>row\<in>set b. length row = 8))"

definition onBoard :: "Position \<Rightarrow> bool" where
  "onBoard p = (0 \<le> fst p \<and> fst p \<le> 7 \<and> 0 \<le> snd p \<and> snd p \<le> 7)"

section \<open>Auxiliary facts\<close>

lemma bindE_Inl [simp]: "bindE (Inl e) f = Inl e"
  by (simp add: bindE_def)

lemma bindE_Inr [simp]: "bindE (Inr v) f = f v"
  by (simp add: bindE_def)

lemma hashCellState_piece: "hashCellState (Some piece) = None"
  by (simp add: hashCellState_def Let_def)

text \<open>
  The hash only records which cells are empty: every piece contributes the text
  \<open>undefined\<close>.
\<close>

lemma hashGameState_occupancy:
  "hashGameState s =
     butlast (colorToString (turn s) @ '','' @
       concat (map (\<lambda>row. concat (map (\<lambda>cellState.
                 (if cellState = None then ''empty'' else ''undefined'') @ '','') row))
               (boardState s)))"
proof -
  have "toStringOrUndefined id (hashCellState cellState) =
          (if cellState = None then ''empty'' else ''undefined'')" for cellState
    by (cases cellState) (simp_all add: hashCellState_def toStringOrUndefined_def Let_def)
  then show ?thesis
    by (simp add: hashGameState_def)
qed

lemma foldl_keep_greater:
  fixes v :: "'a \<Rightarrow> real"
  shows "\<exists>ys zs. x # xs = ys @ foldl (\<lambda>prev current. if v prev > v current then prev else current) x xs # zs
           \<and> (\<forall>y\<in>set ys. v y \<le> v (foldl (\<lambda>prev current. if v prev > v current then prev else current) x xs))
           \<and> (\<forall>z\<in>set zs. v z < v (foldl (\<lambda>prev current. if v prev > v current then prev else current) x xs))"
proof (induction xs rule: rev_induct)
  case Nil
  have "[x] = [] @ x # [] \<and> (\<forall>y\<in>set []. v y \<le> v x) \<and> (\<forall>z\<in>set []. v z < v x)" by simp
  then show ?case unfolding foldl_Nil by (intro exI)
next
  case (snoc a xs)
  let ?f = "\<lambda>prev current. if v prev > v current then prev else current"
  let ?r = "foldl ?f x xs"
  from snoc obtain ys zs where d: "x # xs = ys @ ?r # zs"
    and le: "\<forall>y\<in>set ys. v y \<le> v ?r" and lt: "\<forall>z\<in>set zs. v z < v ?r"
    by blast
  show ?case
  proof (cases "v ?r > v a")
    case True
    then have r: "foldl ?f x (xs @ [a]) = ?r" by simp
    have "x # xs @ [a] = ys @ ?r # (zs @ [a])" using d by simp
    moreover have "\<forall>z\<in>set (zs @ [a]). v z < v ?r" using lt True by auto
    ultimately show ?thesis using le unfolding r by blast
  next
    case False
    then have r: "foldl ?f x (xs @ [a]) = a" by simp
    have all: "\<forall>y\<in>set (x # xs). v y \<le> v ?r"
    proof
      fix y assume "y \<in> set (x # xs)"
      then have "y \<in> set (ys @ ?r # zs)" using d by simp
      then have "y \<in> set ys \<or> y = ?r \<or> y \<in> set zs" by auto
      then show "v y \<le> v ?r" using le lt by auto
    qed
    have "x # xs @ [a] = (x # xs) @ a # [] \<and> (\<forall>y\<in>set (x # xs). v y \<le> v a) \<and> (\<forall>z\<in>set []. v z < v a)"
      using all False by force
    then show ?thesis unfolding r by (intro exI)
  qed
qed

lemma foldl_keep_less:
  fixes v :: "'a \<Rightarrow> real"
  shows "\<exists>ys zs. x # xs = ys @ foldl (\<lambda>prev current. if v prev < v current then prev else current) x xs # zs
           \<and> (\<forall>y\<in>set ys. v (foldl (\<lambda>prev current. if v prev < v current then prev else current) x xs) \<le> v y)
           \<and> (\<forall>z\<in>set zs. v (foldl (\<lambda>prev current. if v prev < v current then prev else current) x xs) < v z)"
proof -
  have eq: "(\<lambda>prev current. if v prev < v current then prev else current)
          = (\<lambda>prev current. if (\<lambda>x. - v x) prev > (\<lambda>x. - v x) current then prev else current)"
    by (intro ext) simp
  show ?thesis
    using foldl_keep_greater [of x xs "\<lambda>x. - v x"] unfolding eq by simp
qed

subsection \<open>Reads and pawn moves on a well-formed board\<close>

lemma readCell_wf:
  "wfBoard b \<Longrightarrow> onBoard p \<Longrightarrow> readCell b p = Inr (b ! nat (fst p) ! nat (snd p))"
  by (auto simp: wfBoard_def onBoard_def readCell_def)

lemma getPosInDirection_Some:
  "getPosInDirection p d = Some q \<Longrightarrow> onBoard q \<and> q = (fst p + fst d, snd p + snd d)"
  by (auto simp: getPosInDirection_def onBoard_def Let_def split: if_splits)

lemma isCellEmpty_wf:
  "wfBoard (boardState s) \<Longrightarrow> onBoard p \<Longrightarrow> \<exists>e. isCellEmpty s p = Inr e"
  by (simp add: isCellEmpty_def readCell_wf)

lemma isCellEnemy_wf:
  "wfBoard (boardState s) \<Longrightarrow> onBoard p \<Longrightarrow> \<exists>e. isCellEnemy s p c = Inr e"
  by (simp add: isCellEnemy_def readCell_wf)

lemma annotateMove_wf:
  assumes "wfBoard (boardState s)" "onBoard (moveTo mv)"
    and "readCell (boardState s) (moveFrom mv) = Inr (Some piece)" "\<not> castling mv"
  shows "\<exists>a. annotateMove s mv = Inr (mv\<lparr>algebraic := a\<rparr>)"
  using assms by (cases "boardState s ! nat (fst (moveTo mv)) ! nat (snd (moveTo mv))")
    (auto simp: annotateMove_def readCell_wf Let_def intro!: exI)

lemma pawnForwardMoves_wf:
  assumes "wfBoard (boardState s)"
    and "readCell (boardState s) position = Inr (Some piece)"
  shows "\<exists>ms. pawnForwardMoves s position piece d = Inr ms"
proof (cases "getPosInDirection position (d, 0)")
  case None
  then show ?thesis by (simp add: pawnForwardMoves_def)
next
  case (Some f)
  then have f: "onBoard f" by (auto dest: getPosInDirection_Some)
  obtain e where e: "isCellEmpty s f = Inr e" using isCellEmpty_wf [OF assms(1) f] by blast
  obtain a where a: "annotateMove s (plainMove position f) = Inr ((plainMove position f)\<lparr>algebraic := a\<rparr>)"
    using annotateMove_wf [of s "plainMove position f" piece] assms f by (auto simp: plainMove_def)
  show ?thesis
  proof (cases "getPosInDirection position (d * 2, 0)")
    case None
    then show ?thesis using Some e a by (simp add: pawnForwardMoves_def)
  next
    case (Some g)
    then have g: "onBoard g" by (auto dest: getPosInDirection_Some)
    obtain e2 where e2: "isCellEmpty s g = Inr e2" using isCellEmpty_wf [OF assms(1) g] by blast
    obtain a2 where a2: "annotateMove s ((plainMove position g)\<lparr>isPawnMoving2 := True\<rparr>)
         = Inr ((plainMove position g)\<lparr>isPawnMoving2 := True, algebraic := a2\<rparr>)"
      using annotateMove_wf [of s "(plainMove position g)\<lparr>isPawnMoving2 := True\<rparr>" piece] assms g
      by (auto simp: plainMove_def)
    show ?thesis using \<open>getPosInDirection position (d, 0) = Some f\<close> Some e a e2 a2
      by (simp add: pawnForwardMoves_def)
  qed
qed

lemma pawnCaptureMove_wf:
  assumes "wfBoard (boardState s)"
    and "readCell (boardState s) position = Inr (Some piece)"
  shows "\<exists>ms. pawnCaptureMove s position piece (getPosInDirection position d) = Inr ms"
proof (cases "getPosInDirection position d")
  case None
  then show ?thesis by (simp add: pawnCaptureMove_def)
next
  case (Some f)
  then have f: "onBoard f" by (auto dest: getPosInDirection_Some)
  obtain e where e: "isCellEnemy s f (color piece) = Inr e" using isCellEnemy_wf [OF assms(1) f] by blast
  obtain a where a: "annotateMove s (plainMove position f) = Inr ((plainMove position f)\<lparr>algebraic := a\<rparr>)"
    using annotateMove_wf [of s "plainMove position f" piece] assms f by (auto simp: plainMove_def)
  show ?thesis using Some e a by (simp add: pawnCaptureMove_def)
qed

lemma pawnEnPassantMove_wf:
  assumes "wfBoard (boardState s)"
    and "readCell (boardState s) position = Inr (Some piece)"
    and "fst position + d \<ge> 0" "fst position + d \<le> 7"
  shows "\<exists>ms. pawnEnPassantMove s position piece
                 (getPosInDirection position (0, k)) (getPosInDirection position (d, k)) = Inr ms"
proof (cases "getPosInDirection position (0, k)")
  case None
  then show ?thesis by (simp add: pawnEnPassantMove_def)
next
  case (Some sp)
  then have sp: "onBoard sp" by (auto dest: getPosInDirection_Some)
  from Some assms(3,4) obtain dp where dp: "getPosInDirection position (d, k) = Some dp"
    by (auto simp: getPosInDirection_def Let_def split: if_splits)
  then have dpb: "onBoard dp" by (auto dest: getPosInDirection_Some)
  obtain a where a: "annotateMove s ((plainMove position dp)\<lparr>enPassant := True\<rparr>)
      = Inr ((plainMove position dp)\<lparr>enPassant := True, algebraic := a\<rparr>)"
    using annotateMove_wf [of s "(plainMove position dp)\<lparr>enPassant := True\<rparr>" piece] assms dpb
    by (auto simp: plainMove_def)
  show ?thesis using Some dp a assms(1) sp
    by (auto simp: pawnEnPassantMove_def readCell_wf split: option.splits)
qed

lemma appendE_Inr [simp]: "appendE (Inr xs) (Inr ys) = Inr (xs @ ys)"
  by (simp add: appendE_def)

lemma concatE_Inr:
  "concatE xs = Inr r \<Longrightarrow> (\<forall>x\<in>set xs. \<exists>l. x = Inr l) \<and> set r = (\<Union>x\<in>set xs. case x of Inr l \<Rightarrow> set l | Inl e \<Rightarrow> {})"
proof (induction xs arbitrary: r)
  case Nil
  then show ?case by simp
next
  case (Cons a as)
  from Cons.prems obtain l r' where a: "a = Inr l" and r': "concatE as = Inr r'" and r: "r = l @ r'"
    by (cases a; cases "concatE as") (auto simp: appendE_def)
  from Cons.IH [OF r'] show ?case using a r by auto
qed

lemma keepLegal_Inr:
  "keepLegal s ms = Inr r \<Longrightarrow>
   set r = {m \<in> set ms. doesMovePutMovingPlayerInCheck s m = Inr False}"
proof (induction ms arbitrary: r)
  case Nil
  then show ?case by simp
next
  case (Cons m ms)
  show ?case
  proof (cases "doesMovePutMovingPlayerInCheck s m")
    case (Inl e)
    then show ?thesis using Cons.prems by simp
  next
    case b: (Inr b)
    show ?thesis
    proof (cases "keepLegal s ms")
      case (Inl e)
      then show ?thesis using Cons.prems b by simp
    next
      case (Inr r')
      have ih: "set r' = {m \<in> set ms. doesMovePutMovingPlayerInCheck s m = Inr False}"
        by (rule Cons.IH [OF Inr])
      show ?thesis
      proof (cases b)
        case True
        then have "r = r'" using Cons.prems b Inr by simp
        moreover have "doesMovePutMovingPlayerInCheck s m \<noteq> Inr False" using b True by simp
        ultimately show ?thesis using ih by auto
      next
        case False
        then have "r = m # r'" using Cons.prems b Inr by simp
        moreover have "doesMovePutMovingPlayerInCheck s m = Inr False" using b False by simp
        ultimately show ?thesis using ih by auto
      qed
    qed
  qed
qed

lemma wfBoard_update:
  "wfBoard b \<Longrightarrow> wfBoard (b[i := (b ! i)[j := v]])"
proof -
  assume wf: "wfBoard b"
  show ?thesis
  proof (cases "i < length b")
    case True
    have "set (b[i := (b ! i)[j := v]]) \<subseteq> insert ((b ! i)[j := v]) (set b)"
      by (rule set_update_subset_insert)
    moreover have "length ((b ! i)[j := v]) = 8" using wf True by (simp add: wfBoard_def)
    ultimately show ?thesis using wf by (auto simp: wfBoard_def)
  next
    case False
    then have "b[i := (b ! i)[j := v]] = b" by (simp add: list_update_beyond)
    then show ?thesis using wf by simp
  qed
qed

lemma storeCell_wf:
  "wfBoard b \<Longrightarrow> onBoard p \<Longrightarrow>
   storeCell b p v = Inr (b[nat (fst p) := (b ! nat (fst p))[nat (snd p) := v]])"
  by (auto simp: storeCell_def wfBoard_def onBoard_def)

lemma setPiece_wf:
  "wfBoard b \<Longrightarrow> onBoard p \<Longrightarrow>
   setPiece b p v = Inr (b[nat (fst p) := (b ! nat (fst p))[nat (snd p) := v]])"
  by (simp add: setPiece_def readCell_wf)

lemma readCell_update:
  "wfBoard b \<Longrightarrow> onBoard p \<Longrightarrow> onBoard q \<Longrightarrow>
   readCell (b[nat (fst p) := (b ! nat (fst p))[nat (snd p) := v]]) q =
     (if q = p then Inr v else readCell b q)"
proof -
  assume wf: "wfBoard b" and p: "onBoard p" and q: "onBoard q"
  have wf': "wfBoard (b[nat (fst p) := (b ! nat (fst p))[nat (snd p) := v]])"
    by (rule wfBoard_update [OF wf])
  have lb: "nat (fst p) < length b" "nat (fst q) < length b"
    using wf p q by (auto simp: wfBoard_def onBoard_def)
  have lr: "nat (snd p) < length (b ! nat (fst p))"
    using wf p lb by (auto simp: wfBoard_def onBoard_def)
  have eq: "q = p \<longleftrightarrow> nat (fst q) = nat (fst p) \<and> nat (snd q) = nat (snd p)"
    using p q by (auto simp: onBoard_def prod_eq_iff)
  show ?thesis
    unfolding readCell_wf [OF wf' q] readCell_wf [OF wf q]
    using lb lr eq by (auto simp: nth_list_update)
qed

lemma makeMove_plain:
  assumes wf: "wfBoard (boardState s)"
    and on: "onBoard (moveFrom m)" "onBoard (moveTo m)"
    and src: "readCell (boardState s) (moveFrom m) = Inr (Some p)" "color p = turn s"
    and m: "\<not> enPassant m" "\<not> castling m" "promotion m = None"
  shows "makeMove s m =
     Inr \<lparr>turn = (if turn s = White then Black else White),
          boardState =
            (let b1 = (boardState s)[nat (fst (moveTo m)) :=
                        (boardState s ! nat (fst (moveTo m)))[nat (snd (moveTo m)) :=
                           Some (p\<lparr>hasMoved := True, justMoved2 := Some (isPawnMoving2 m)\<rparr>)]]
             in b1[nat (fst (moveFrom m)) := (b1 ! nat (fst (moveFrom m)))[nat (snd (moveFrom m)) := None]]),
          moveHistory = moveHistory s @ [m]\<rparr>"
proof -
  let ?p' = "p\<lparr>hasMoved := True, justMoved2 := Some (isPawnMoving2 m)\<rparr>"
  let ?b1 = "(boardState s)[nat (fst (moveTo m)) :=
               (boardState s ! nat (fst (moveTo m)))[nat (snd (moveTo m)) := Some ?p']]"
  have wf1: "wfBoard ?b1" by (rule wfBoard_update [OF wf])
  have st: "storeCell (boardState s) (moveTo m) (Some ?p') = Inr ?b1"
    by (rule storeCell_wf [OF wf on(2)])
  have sp: "setPiece ?b1 (moveFrom m) None =
              Inr (?b1[nat (fst (moveFrom m)) := (?b1 ! nat (fst (moveFrom m)))[nat (snd (moveFrom m)) := None]])"
    by (rule setPiece_wf [OF wf1 on(1)])
  have mv: "movePieceAccordingToMove (addMoveToHistory s m) m =
              Inr ((addMoveToHistory s m)\<lparr>boardState :=
                 ?b1[nat (fst (moveFrom m)) := (?b1 ! nat (fst (moveFrom m)))[nat (snd (moveFrom m)) := None]]\<rparr>)"
    using src m st sp by (simp add: movePieceAccordingToMove_def addMoveToHistory_def Let_def)
  have "makeMove s m =
          bindE (movePieceAccordingToMove (addMoveToHistory s m) m) (\<lambda>s2. Inr (flipTurn s2))"
    using src m by (simp add: makeMove_def)
  then show ?thesis
    by (simp only: mv) (simp add: flipTurn_def addMoveToHistory_def Let_def)
qed

lemma legalMovesAt_Inr:
  assumes "legalMovesAt s c pos = Inr l" "m \<in> set l"
  shows "doesMovePutMovingPlayerInCheck s m = Inr False"
proof (cases "readCell (boardState s) pos")
  case (Inl e)
  then show ?thesis using assms by (simp add: legalMovesAt_def)
next
  case (Inr cell)
  show ?thesis
  proof (cases cell)
    case None
    then show ?thesis using assms Inr by (simp add: legalMovesAt_def)
  next
    case (Some piece)
    show ?thesis
    proof (cases "color piece = c")
      case False
      then show ?thesis using assms Inr Some by (simp add: legalMovesAt_def)
    next
      case True
      show ?thesis
      proof (cases "getMovesFromPosition s pos")
        case (Inl e)
        then show ?thesis using assms Inr Some True by (simp add: legalMovesAt_def)
      next
        case ms: (Inr ms)
        then have "keepLegal s ms = Inr l"
          using assms Inr Some True by (simp add: legalMovesAt_def)
        from keepLegal_Inr [OF this] assms(2) show ?thesis by simp
      qed
    qed
  qed
qed

subsection \<open>The retry loops\<close>

lemma concatE_all_Inr:
  "(\<And>x. x \<in> set xs \<Longrightarrow> \<exists>l. f x = Inr l) \<Longrightarrow> \<exists>r. concatE (map f xs) = Inr r"
proof (induction xs)
  case Nil
  then show ?case by simp
next
  case (Cons a xs)
  from Cons.prems obtain l where l: "f a = Inr l" by auto
  from Cons obtain r where r: "concatE (map f xs) = Inr r" by auto
  show ?case using l r by simp
qed

lemma allSquares_onBoard: "p \<in> set allSquares \<Longrightarrow> onBoard p"
  by (auto simp: allSquares_def onBoard_def)

lemma getTextRepresentation_wf:
  "wfBoard (boardState gs) \<Longrightarrow> getTextRepresentation gs = Inr ()"
proof -
  assume wf: "wfBoard (boardState gs)"
  have "\<exists>r. concatE (map (\<lambda>p. bindE (readCell (boardState gs) p) (\<lambda>cell. Inr [cell])) allSquares) = Inr r"
    by (rule concatE_all_Inr) (simp add: readCell_wf [OF wf] allSquares_onBoard)
  then show ?thesis by (auto simp: getTextRepresentation_def)
qed

lemma callWithRetries_answer:
  "tries < maxLLMTries \<Longrightarrow> callLLM calls = Inr messageChoices \<Longrightarrow>
   callWithRetries callLLM tries calls = (Some messageChoices, calls + 1)"
  by (subst callWithRetries.simps) simp

lemma callWithRetries_throw:
  "tries < maxLLMTries \<Longrightarrow> callLLM calls = Inl e \<Longrightarrow>
   callWithRetries callLLM tries calls = callWithRetries callLLM (tries + 1) (calls + 1)"
  by (subst callWithRetries.simps) simp

lemma callWithRetries_exhausted:
  "\<not> tries < maxLLMTries \<Longrightarrow> callWithRetries callLLM tries calls = (None, calls)"
  by (subst callWithRetries.simps) simp

lemma callWithRetries_all_throw:
  "(\<And>n. calls \<le> n \<Longrightarrow> n < calls + (maxLLMTries - tries) \<Longrightarrow> \<exists>e. callLLM n = Inl e) \<Longrightarrow>
   callWithRetries callLLM tries calls = (None, calls + (maxLLMTries - tries))"
proof (induction callLLM tries calls rule: callWithRetries.induct)
  case (1 callLLM tries calls)
  show ?case
  proof (cases "tries < maxLLMTries")
    case False
    then show ?thesis by (simp add: callWithRetries_exhausted)
  next
    case True
    then have "calls < calls + (maxLLMTries - tries)" by arith
    then obtain e where e: "callLLM calls = Inl e" using "1.prems" [of calls] by blast
    have "callWithRetries callLLM (tries + 1) (calls + 1)
            = (None, calls + 1 + (maxLLMTries - (tries + 1)))"
      using True e "1.prems" by (intro "1.IH") auto
    then show ?thesis using True e by (simp add: callWithRetries_throw)
  qed
qed

lemma callWithRetries_bound:
  "snd (callWithRetries callLLM tries calls) \<le> calls + (maxLLMTries - tries)"
proof (induction callLLM tries calls rule: callWithRetries.induct)
  case (1 callLLM tries calls)
  show ?case
  proof (cases "tries < maxLLMTries")
    case False
    then show ?thesis by (simp add: callWithRetries_exhausted)
  next
    case True
    show ?thesis
    proof (cases "callLLM calls")
      case (Inl e)
      then show ?thesis using True "1.IH" [OF True Inl] by (simp add: callWithRetries_throw)
    next
      case (Inr mcs)
      then show ?thesis using True by (simp add: callWithRetries_answer)
    qed
  qed
qed

lemma successorsLoop_throwing_never_returns:
  assumes "successorsLoop callLLM validMoveMapping tires calls = Some y"
  shows "tires \<ge> maxLLMTries \<or> (\<exists>n\<ge>calls. \<exists>mcs. callLLM n = Inr mcs)"
  using assms
proof (induct rule: successorsLoop.raw_induct [rotated 1, consumes 1])
  case (1 loop callLLM validMoveMapping tires calls y)
  show ?case
  proof (cases "tires \<ge> maxLLMTries")
    case True
    then show ?thesis by simp
  next
    case False
    show ?thesis
    proof (cases "callLLM calls")
      case (Inr mcs)
      then show ?thesis by auto
    next
      case (Inl e)
      then have "loop callLLM validMoveMapping tires (calls + 1) = Some y"
        using "1.hyps"(2) False by simp
      from "1.hyps"(1) [OF this] False obtain n mcs where "n \<ge> calls + 1" "callLLM n = Inr mcs"
        by auto
      then show ?thesis by (metis add_leD1)
    qed
  qed
qed

lemma successorsLoop_diverges:
  "tires < maxLLMTries \<Longrightarrow> (\<And>n. calls \<le> n \<Longrightarrow> \<exists>e. callLLM n = Inl e) \<Longrightarrow>
   successorsLoop callLLM validMoveMapping tires calls = None"
proof (rule ccontr)
  assume t: "tires < maxLLMTries" and th: "\<And>n. calls \<le> n \<Longrightarrow> \<exists>e. callLLM n = Inl e"
    and "successorsLoop callLLM validMoveMapping tires calls \<noteq> None"
  then obtain y where "successorsLoop callLLM validMoveMapping tires calls = Some y" by auto
  from successorsLoop_throwing_never_returns [OF this] t
  obtain n mcs where "n \<ge> calls" "callLLM n = Inr mcs" by auto
  then show False using th [of n] by auto
qed

text \<open>When no call throws, the loop stops within \<open>maxLLMTries\<close> calls.\<close>

lemma successorsLoop_answers_stop:
  "(\<And>n. calls \<le> n \<Longrightarrow> \<exists>mcs. callLLM n = Inr mcs) \<Longrightarrow>
   \<exists>r calls'. successorsLoop callLLM validMoveMapping tires calls = Some (r, calls') \<and>
               calls' \<le> calls + (maxLLMTries - tires)"
proof (induction "maxLLMTries - tires" arbitrary: tires calls)
  case 0
  then have "tires \<ge> maxLLMTries" by simp
  then show ?case by (subst successorsLoop.simps) simp
next
  case (Suc k)
  then have t: "\<not> tires \<ge> maxLLMTries" by simp
  obtain mcs where mcs: "callLLM calls = Inr mcs" using Suc.prems [of calls] by auto
  have k: "k = maxLLMTries - (tires + 1)" using Suc.hyps(2) by simp
  have "\<exists>r calls'. successorsLoop callLLM validMoveMapping (tires + 1) (calls + 1) = Some (r, calls')
          \<and> calls' \<le> calls + 1 + (maxLLMTries - (tires + 1))"
    using Suc.prems by (intro Suc.hyps(1) [OF k]) auto
  then obtain r calls' where rec: "successorsLoop callLLM validMoveMapping (tires + 1) (calls + 1) = Some (r, calls')"
    and le: "calls' \<le> calls + 1 + (maxLLMTries - (tires + 1))" by blast
  have le': "calls' \<le> calls + (maxLLMTries - tires)" using le t by simp
  have one: "calls + 1 \<le> calls + (maxLLMTries - tires)" using t by simp
  show ?case
    using t mcs rec le' one
    by (subst successorsLoop.simps) (auto split: list.splits option.splits)
qed

subsection \<open>Evaluated positions\<close>

lemma collideA_legalMoves:
  "getAllLegalMoves collideA Black = Inr [kingStep (7, 7) (6, 7) ''Kh7'']"
  by code_simp

lemma collideB_legalMoves:
  "getAllLegalMoves collideB Black =
     Inr [kingStep (7, 7) (6, 7) ''Kh7'', kingStep (7, 7) (7, 6) ''Kg8'']"
  by code_simp

lemma collide_wfBoard: "wfBoard (boardState collideA)" "wfBoard (boardState collideB)"
  by (simp_all add: wfBoard_def collideA_def collideB_def emptyRow_def)

lemma matedWhite_endgame: "getEndgameState matedWhite = Inr CheckmateWhite"
  by code_simp

lemma unmatedWhite_endgame: "getEndgameState unmatedWhite = Inr InProgress"
  by code_simp

lemma mated_hash: "hashGameState unmatedWhite = hashGameState matedWhite"
  by (simp add: hashGameState_occupancy unmatedWhite_def matedWhite_def movedPiece_def)

lemma mated_wfBoard: "wfBoard (boardState matedWhite)" "wfBoard (boardState unmatedWhite)"
  by (simp_all add: wfBoard_def matedWhite_def unmatedWhite_def emptyRow_def)

subsection \<open>Running a node\<close>

lemma addToMinimaxCache_frame [simp]:
  "llmCalls (addToMinimaxCache a h e) = llmCalls a"
  "retryingForever (addToMinimaxCache a h e) = retryingForever a"
  "gameDescriptionCache (addToMinimaxCache a h e) = gameDescriptionCache a"
  "successorsCache (addToMinimaxCache a h e) = successorsCache a"
  "valuePromises (addToMinimaxCache a h e) = valuePromises a"
  "nextValuePromise (addToMinimaxCache a h e) = nextValuePromise a"
  by (simp_all add: addToMinimaxCache_def split: option.splits)

lemma awaitCachedSuccessors_frame [simp]:
  "awaitCachedSuccessors (addToMinimaxCache a h e) h' = awaitCachedSuccessors a h'"
  "awaitCachedSuccessors (a\<lparr>valuePromises := vp, nextValuePromise := n\<rparr>) h' = awaitCachedSuccessors a h'"
  by (simp_all add: awaitCachedSuccessors_def)

lemma minimax_node:
  assumes "probeMinimaxCache a (hashGameState gs) b = None"
    and "getEndgameState gs = Inr e" "e \<noteq> CheckmateWhite" "e \<noteq> CheckmateBlack"
    and "awaitCachedSuccessors a (hashGameState gs) = Resolved cachedSuccessors"
  shows "minimax cs callLLM depth gs b maximizingPlayer a =
           settleNode (nextValuePromise a)
             (if leafDecision cs depth b (basicMinimaxCost cs) cachedSuccessors
              then evaluateLeaf cs callLLM gs (basicMinimaxCost cs)
                     (publishPending a (hashGameState gs) b)
              else expandNode
                     (\<lambda>gs' b' a'. minimax cs callLLM (depth + 1) gs' b' (\<not> maximizingPlayer) a')
                     cs callLLM gs b (basicMinimaxCost cs) cachedSuccessors maximizingPlayer
                     (publishPending a (hashGameState gs) b))"
  using assms
  by (subst minimax.simps)
     (simp add: Let_def newValuePromise_def publishPending_def settleNode_def split: prod.splits)

lemma getGameDescription_miss_answer:
  assumes "getTextRepresentation gs = Inr ()"
    and "gameDescriptionCache a (hashGameState gs) = None"
    and "callLLM (llmCalls a) = Inr (choice # others)"
  shows "getGameDescription callLLM gs a =
           (Resolved (content choice),
            a\<lparr>gameDescriptionCache :=
                 (gameDescriptionCache a)(hashGameState gs \<mapsto> Resolved (content choice)),
              llmCalls := llmCalls a + 1\<rparr>)"
  using assms
  by (simp add: getGameDescription_def Let_def
        callWithRetries_answer [of 0 callLLM "llmCalls a" "choice # others"] maxLLMTries_def)

lemma stateEvaluation_plain_answer:
  assumes "getGameDescription callLLM gs a = (Resolved d, a1)"
    and "callLLM (llmCalls a1) = Inr (messageChoice # others)"
    and "logprobs messageChoice = None"
  shows "stateEvaluation callLLM gs a =
           (Resolved (if content messageChoice = Some ''black'' then - 1 else 1),
            a1\<lparr>llmCalls := llmCalls a1 + 1\<rparr>)"
  using assms
  by (simp add: stateEvaluation_def evaluateChoice_def
        callWithRetries_answer [of 0 callLLM "llmCalls a1" "messageChoice # others"] maxLLMTries_def)

lemma minimax_leaf_run:
  assumes probe: "probeMinimaxCache a (hashGameState gs) b = None"
    and eg: "getEndgameState gs = Inr e" "e \<noteq> CheckmateWhite" "e \<noteq> CheckmateBlack"
    and sc: "successorsCache a (hashGameState gs) = None"
    and leaf: "leafDecision cs depth b (basicMinimaxCost cs) None"
    and rep: "getTextRepresentation gs = Inr ()"
    and dc: "gameDescriptionCache a (hashGameState gs) = None"
    and c1: "callLLM (llmCalls a) = Inr (choice # others)"
    and c2: "callLLM (llmCalls a + 1) = Inr (messageChoice # others')"
    and lp: "logprobs messageChoice = None"
  shows "minimax cs callLLM depth gs b maximizingPlayer a =
           (Resolved \<lparr>computedValue = (if content messageChoice = Some ''black'' then - 1 else 1),
                      usedBudget = basicMinimaxCost cs + stateEvaluationCost cs\<rparr>,
            (publishPending a (hashGameState gs) b)
              \<lparr>gameDescriptionCache :=
                 (gameDescriptionCache a)(hashGameState gs \<mapsto> Resolved (content choice)),
               llmCalls := llmCalls a + 2,
               valuePromises := (valuePromises a)
                 (nextValuePromise a :=
                    Resolved (if content messageChoice = Some ''black'' then - 1 else 1))\<rparr>)"
proof -
  let ?a2 = "publishPending a (hashGameState gs) b"
  let ?a3 = "?a2\<lparr>gameDescriptionCache :=
                 (gameDescriptionCache ?a2)(hashGameState gs \<mapsto> Resolved (content choice)),
               llmCalls := llmCalls ?a2 + 1\<rparr>"
  have f: "gameDescriptionCache ?a2 = gameDescriptionCache a" "llmCalls ?a2 = llmCalls a"
    by (simp_all add: publishPending_def)
  have d: "getGameDescription callLLM gs ?a2 = (Resolved (content choice), ?a3)"
    by (rule getGameDescription_miss_answer [OF rep]) (simp_all add: f dc c1)
  have ev: "stateEvaluation callLLM gs ?a2 =
              (Resolved (if content messageChoice = Some ''black'' then - 1 else 1),
               ?a3\<lparr>llmCalls := llmCalls ?a3 + 1\<rparr>)"
    by (rule stateEvaluation_plain_answer [OF d _ lp]) (use c2 in \<open>simp add: f\<close>)
  have aw: "awaitCachedSuccessors a (hashGameState gs) = Resolved None"
    using sc by (simp add: awaitCachedSuccessors_def)
  have el: "evaluateLeaf cs callLLM gs (basicMinimaxCost cs) ?a2 =
              (Resolved \<lparr>computedValue = (if content messageChoice = Some ''black'' then - 1 else 1),
                         usedBudget = basicMinimaxCost cs + stateEvaluationCost cs\<rparr>,
               ?a3\<lparr>llmCalls := llmCalls ?a3 + 1\<rparr>)"
    unfolding evaluateLeaf_def ev by simp
  have vp: "valuePromises ?a2 = (valuePromises a)(nextValuePromise a := Pending)"
    by (simp add: publishPending_def)
  show ?thesis
    unfolding minimax_node [OF probe eg aw] using leaf
    by (simp only: if_True el) (simp add: settleNode_def f vp)
qed

subsection \<open>Entries of the description cache are never replaced\<close>

lemma getGameDescription_cache:
  "gameDescriptionCache a h = Some p \<Longrightarrow>
   gameDescriptionCache (snd (getGameDescription callLLM gs a)) h = Some p"
  by (auto simp: getGameDescription_def Let_def split: sum.splits option.splits prod.splits)

lemma stateEvaluation_cache:
  "gameDescriptionCache a h = Some p \<Longrightarrow>
   gameDescriptionCache (snd (stateEvaluation callLLM gs a)) h = Some p"
  using getGameDescription_cache [of a h p callLLM gs]
  by (auto simp: stateEvaluation_def Let_def
        split: sum.splits option.splits prod.splits promise.splits list.splits)

lemma getSuccessors_cache:
  "gameDescriptionCache a h = Some p \<Longrightarrow>
   gameDescriptionCache (snd (getSuccessors callLLM gs a)) h = Some p"
  using getGameDescription_cache [of a h p callLLM gs]
  by (auto simp: getSuccessors_def Let_def
        split: sum.splits option.splits prod.splits promise.splits list.splits)

text \<open>
  The search reaches the description cache only through the oracle tasks, so
  the entries survive \<open>minimax\<close> and \<open>selectMove\<close> as well.
\<close>

lemma exploreSubnodes_cache:
  assumes "\<And>gs' b' a'. gameDescriptionCache a' h = Some p \<Longrightarrow>
             gameDescriptionCache (snd (search gs' b' a')) h = Some p"
  shows "gameDescriptionCache a h = Some p \<Longrightarrow>
         gameDescriptionCache (snd (exploreSubnodes search budgetForSearch successors a)) h = Some p"
proof (induction successors arbitrary: a)
  case Nil
  then show ?case by simp
next
  case (Cons successor rest)
  have "gameDescriptionCache
          (snd (search (nextState successor) (budgetForSearch * probability successor) a)) h = Some p"
    by (rule assms [OF Cons.prems])
  from Cons.IH [OF this] show ?case
    by (auto simp: Let_def split: prod.splits)
qed

lemma minimaxParallelTreeSearch_cache:
  assumes "\<And>gs' b' a'. gameDescriptionCache a' h = Some p \<Longrightarrow>
             gameDescriptionCache (snd (search gs' b' a')) h = Some p"
    and "gameDescriptionCache a h = Some p"
  shows "gameDescriptionCache
           (snd (minimaxParallelTreeSearch search budgetForSearch successors maximizingPlayer a)) h = Some p"
  using exploreSubnodes_cache [of h p search a budgetForSearch successors, OF assms]
  by (auto simp: minimaxParallelTreeSearch_def Let_def split: prod.splits promise.splits list.splits)

lemma evaluateLeaf_cache:
  "gameDescriptionCache a h = Some p \<Longrightarrow>
   gameDescriptionCache (snd (evaluateLeaf cs callLLM gs used a)) h = Some p"
  using stateEvaluation_cache [of a h p callLLM gs]
  by (auto simp: evaluateLeaf_def split: prod.splits promise.splits)

lemma expandNode_cache:
  assumes "\<And>gs' b' a'. gameDescriptionCache a' h = Some p \<Longrightarrow>
             gameDescriptionCache (snd (search gs' b' a')) h = Some p"
    and "gameDescriptionCache a h = Some p"
  shows "gameDescriptionCache
           (snd (expandNode search cs callLLM gs b used cachedSuccessors maximizingPlayer a)) h = Some p"
proof -
  have tree: "gameDescriptionCache a2 h = Some p"
    if "minimaxParallelTreeSearch search b' successors maximizingPlayer a1 = (r, a2)"
      and "gameDescriptionCache a1 h = Some p" for b' successors a1 r a2
    using minimaxParallelTreeSearch_cache [of h p search a1 b' successors maximizingPlayer,
        OF assms(1) that(2)] that(1)
    by simp
  have req: "gameDescriptionCache a1 h = Some p"
    if "getSuccessors callLLM gs a = (sp, a1)" for sp a1
    using getSuccessors_cache [OF assms(2), of callLLM gs] that by simp
  show ?thesis
    using assms(2)
    by (cases cachedSuccessors)
       (auto simp: expandNode_def Let_def split: prod.splits promise.splits
          dest!: req dest: tree)
qed

lemma minimax_description_cache:
  "gameDescriptionCache a h = Some p \<Longrightarrow>
   gameDescriptionCache (snd (minimax cs callLLM depth gs b maximizingPlayer a)) h = Some p"
proof (induction "nat (maxDepth cs - depth)" arbitrary: depth gs b maximizingPlayer a rule: less_induct)
  case less
  show ?case
  proof (cases "probeMinimaxCache a (hashGameState gs) b")
    case (Some cacheResult)
    then show ?thesis
      using less.prems by (subst minimax.simps) (simp add: Let_def split: promise.splits)
  next
    case None
    show ?thesis
    proof (cases "getEndgameState gs")
      case (Inl e)
      then show ?thesis
        using less.prems None by (subst minimax.simps) (simp add: Let_def)
    next
      case (Inr e)
      show ?thesis
      proof (cases "e = CheckmateWhite \<or> e = CheckmateBlack")
        case True
        then show ?thesis
          using less.prems None Inr
          by (subst minimax.simps) (auto simp: Let_def publishTerminal_def newValuePromise_def)
      next
        case False
        let ?a2 = "publishPending a (hashGameState gs) b"
        have c2: "gameDescriptionCache ?a2 h = Some p"
          using less.prems by (simp add: publishPending_def)
        show ?thesis
        proof (cases "awaitCachedSuccessors a (hashGameState gs)")
          case (Resolved cachedSuccessors)
          have node: "minimax cs callLLM depth gs b maximizingPlayer a =
                settleNode (nextValuePromise a)
                  (if leafDecision cs depth b (basicMinimaxCost cs) cachedSuccessors
                   then evaluateLeaf cs callLLM gs (basicMinimaxCost cs) ?a2
                   else expandNode
                     (\<lambda>gs' b' a'. minimax cs callLLM (depth + 1) gs' b' (\<not> maximizingPlayer) a')
                     cs callLLM gs b (basicMinimaxCost cs) cachedSuccessors maximizingPlayer ?a2)"
            using False by (intro minimax_node [OF None Inr _ _ Resolved]) auto
          show ?thesis
          proof (cases "leafDecision cs depth b (basicMinimaxCost cs) cachedSuccessors")
            case True
            then show ?thesis
              unfolding node using evaluateLeaf_cache [OF c2, of cs callLLM gs "basicMinimaxCost cs"]
              by (simp add: settleNode_def)
          next
            case leaf: False
            then have "depth < maxDepth cs"
              by (simp add: leafDecision_def)
            then have m: "nat (maxDepth cs - (depth + 1)) < nat (maxDepth cs - depth)"
              by simp
            have ch: "gameDescriptionCache
                        (snd (minimax cs callLLM (depth + 1) gs' b' (\<not> maximizingPlayer) a')) h = Some p"
              if "gameDescriptionCache a' h = Some p" for gs' b' a'
              by (rule less.hyps [OF m that])
            show ?thesis
              unfolding node
              using leaf expandNode_cache [of h p
                  "\<lambda>gs' b' a'. minimax cs callLLM (depth + 1) gs' b' (\<not> maximizingPlayer) a'"
                  ?a2 cs callLLM gs b "basicMinimaxCost cs" cachedSuccessors maximizingPlayer,
                  OF ch c2]
              by (simp add: settleNode_def)
          qed
        next
          case Pending
          then show ?thesis
            using less.prems None Inr False
            by (subst minimax.simps)
               (auto simp: Let_def newValuePromise_def split: prod.splits)
        next
          case (Rejected x)
          then show ?thesis
            using less.prems None Inr False
            by (subst minimax.simps)
               (auto simp: Let_def newValuePromise_def split: prod.splits)
        qed
      qed
    qed
  qed
qed

lemma selectMove_cache:
  assumes "gameDescriptionCache a h = Some p"
  shows "gameDescriptionCache (snd (selectMove cs callLLM gs a)) h = Some p"
proof -
  have ch: "gameDescriptionCache
              (snd (minimax cs callLLM 1 gs' b' (\<not> (turn gs = White)) a')) h = Some p"
    if "gameDescriptionCache a' h = Some p" for gs' b' a'
    by (rule minimax_description_cache [OF that])
  have ex: "gameDescriptionCache a2 h = Some p"
    if "exploreSubnodes (\<lambda>gs' b' a'. minimax cs callLLM 1 gs' b' (\<not> (turn gs = White)) a')
          b' successors a1 = (rs, a2)"
      and "gameDescriptionCache a1 h = Some p" for b' successors a1 rs a2
    using exploreSubnodes_cache [of h p
        "\<lambda>gs' b' a'. minimax cs callLLM 1 gs' b' (\<not> (turn gs = White)) a'" a1 b' successors,
        OF ch that(2)] that(1)
    by simp
  have req: "gameDescriptionCache a1 h = Some p"
    if "getSuccessors callLLM gs a = (sp, a1)" for sp a1
    using getSuccessors_cache [OF assms, of callLLM gs] that by simp
  show ?thesis
    using assms
    by (cases "successorsCache a (hashGameState gs)")
       (auto simp: selectMove_def Let_def split: prod.splits promise.splits sum.splits
          dest!: req dest: ex)
qed

subsection \<open>Terminal nodes\<close>

text \<open>
  A checkmated state that passes the cache probe: the terminal value is
  returned with the basic charge and published as a fulfilled promise, without
  any evaluation or successor request.
\<close>

lemma minimax_checkmate_probe_miss:
  assumes "probeMinimaxCache a (hashGameState gs) b = None"
    and "getEndgameState gs = Inr e"
    and "e = CheckmateWhite \<or> e = CheckmateBlack"
  shows "\<exists>a'. minimax cs callLLM depth gs b maximizingPlayer a =
                 (Resolved \<lparr>computedValue = (if e = CheckmateWhite then - 1 else 1),
                            usedBudget = basicMinimaxCost cs\<rparr>, a') \<and>
              llmCalls a' = llmCalls a \<and> retryingForever a' = retryingForever a \<and>
              gameDescriptionCache a' = gameDescriptionCache a \<and>
              successorsCache a' = successorsCache a \<and>
              valuePromises a' (nextValuePromise a) =
                Resolved (if e = CheckmateWhite then - 1 else 1) \<and>
              minimaxCache a' (hashGameState gs) =
                (case minimaxCache a (hashGameState gs) of
                   None \<Rightarrow> Some \<lparr>valuePromise = nextValuePromise a, budget = basicMinimaxCost cs\<rparr>
                 | Some existingEntry \<Rightarrow>
                     if budget existingEntry > basicMinimaxCost cs then Some existingEntry
                     else Some \<lparr>valuePromise = nextValuePromise a, budget = basicMinimaxCost cs\<rparr>)"
proof -
  let ?v = "if e = CheckmateWhite then - 1 else 1 :: real"
  let ?a' = "publishTerminal a (hashGameState gs) ?v (basicMinimaxCost cs)"
  have run: "minimax cs callLLM depth gs b maximizingPlayer a =
               (Resolved \<lparr>computedValue = ?v, usedBudget = basicMinimaxCost cs\<rparr>, ?a')"
    using assms by (subst minimax.simps) (auto simp: Let_def)
  have "llmCalls ?a' = llmCalls a" "retryingForever ?a' = retryingForever a"
    "gameDescriptionCache ?a' = gameDescriptionCache a" "successorsCache ?a' = successorsCache a"
    "valuePromises ?a' (nextValuePromise a) = Resolved ?v"
    by (simp_all add: publishTerminal_def newValuePromise_def addToMinimaxCache_def
          split: option.splits)
  moreover have "minimaxCache ?a' (hashGameState gs) =
                (case minimaxCache a (hashGameState gs) of
                   None \<Rightarrow> Some \<lparr>valuePromise = nextValuePromise a, budget = basicMinimaxCost cs\<rparr>
                 | Some existingEntry \<Rightarrow>
                     if budget existingEntry > basicMinimaxCost cs then Some existingEntry
                     else Some \<lparr>valuePromise = nextValuePromise a, budget = basicMinimaxCost cs\<rparr>)"
    by (simp add: publishTerminal_def newValuePromise_def addToMinimaxCache_def
          split: option.splits)
  ultimately show ?thesis using run by blast
qed

text \<open>
  The same when the probe may hit, provided that what is under the hash is the
  state's own terminal entry: the terminal value is returned, and it is in the
  cache at the end.
\<close>

lemma minimax_checkmate_own_entry:
  assumes "getEndgameState gs = Inr e"
    and "e = CheckmateWhite \<or> e = CheckmateBlack"
    and "\<And>entry. minimaxCache a (hashGameState gs) = Some entry \<Longrightarrow>
           valuePromises a (valuePromise entry) = Resolved (if e = CheckmateWhite then - 1 else 1)"
  shows "\<exists>u a' entry.
           minimax cs callLLM depth gs b maximizingPlayer a =
             (Resolved \<lparr>computedValue = (if e = CheckmateWhite then - 1 else 1), usedBudget = u\<rparr>, a') \<and>
           llmCalls a' = llmCalls a \<and>
           minimaxCache a' (hashGameState gs) = Some entry \<and>
           valuePromises a' (valuePromise entry) = Resolved (if e = CheckmateWhite then - 1 else 1)"
proof (cases "probeMinimaxCache a (hashGameState gs) b")
  case (Some cacheResult)
  then have c: "minimaxCache a (hashGameState gs) = Some cacheResult"
    by (auto simp: probeMinimaxCache_def split: option.splits if_splits)
  have "minimax cs callLLM depth gs b maximizingPlayer a =
          (Resolved \<lparr>computedValue = (if e = CheckmateWhite then - 1 else 1), usedBudget = 0\<rparr>, a)"
    using Some assms(3) [OF c] by (subst minimax.simps) (simp add: Let_def)
  then show ?thesis
    using c assms(3) [OF c] by blast
next
  case None
  let ?v = "if e = CheckmateWhite then - 1 else 1 :: real"
  let ?a' = "publishTerminal a (hashGameState gs) ?v (basicMinimaxCost cs)"
  have run: "minimax cs callLLM depth gs b maximizingPlayer a =
               (Resolved \<lparr>computedValue = ?v, usedBudget = basicMinimaxCost cs\<rparr>, ?a')"
    using None assms(1,2) by (subst minimax.simps) (auto simp: Let_def)
  have calls: "llmCalls ?a' = llmCalls a"
    by (simp add: publishTerminal_def newValuePromise_def)
  have vp: "valuePromises ?a' = (valuePromises a)(nextValuePromise a := Resolved ?v)"
    by (simp add: publishTerminal_def newValuePromise_def)
  have "\<exists>entry. minimaxCache ?a' (hashGameState gs) = Some entry \<and>
                 valuePromises ?a' (valuePromise entry) = Resolved ?v"
  proof (cases "minimaxCache a (hashGameState gs)")
    case None
    then show ?thesis
      unfolding vp
      by (simp add: publishTerminal_def newValuePromise_def addToMinimaxCache_def)
  next
    case (Some existingEntry)
    then show ?thesis
      unfolding vp using assms(3) [OF Some]
      by (simp add: publishTerminal_def newValuePromise_def addToMinimaxCache_def)
  qed
  then show ?thesis
    using run calls by blast
qed

subsection \<open>A leaf search on a new agent\<close>

lemma unmatedWhite_search:
  "minimax defaultCostSetup (describeThenAnswer ''white'') 1 unmatedWhite 100 True newAgent =
     (Resolved \<lparr>computedValue = 1, usedBudget = 11\<rparr>, searchedAgent)"
proof -
  let ?o = "describeThenAnswer ''white''"
  have run: "minimax defaultCostSetup ?o 1 unmatedWhite 100 True newAgent =
          (Resolved \<lparr>computedValue = (if content \<lparr>content = Some ''white'', logprobs = None\<rparr>
                                           = Some ''black'' then - 1 else 1),
                     usedBudget = basicMinimaxCost defaultCostSetup
                                  + stateEvaluationCost defaultCostSetup\<rparr>,
           (publishPending newAgent (hashGameState unmatedWhite) 100)
             \<lparr>gameDescriptionCache :=
                (gameDescriptionCache newAgent)(hashGameState unmatedWhite \<mapsto>
                   Resolved (content \<lparr>content = Some ''Both sides have a bare king.'',
                                       logprobs = None\<rparr>)),
              llmCalls := llmCalls newAgent + 2,
              valuePromises := (valuePromises newAgent)
                (nextValuePromise newAgent :=
                   Resolved (if content \<lparr>content = Some ''white'', logprobs = None\<rparr>
                               = Some ''black'' then - 1 else 1))\<rparr>)"
    by (rule minimax_leaf_run [OF _ unmatedWhite_endgame, where others = "[]" and others' = "[]"])
       (simp_all add: probeMinimaxCache_def newAgent_def leafDecision_def defaultCostSetup_def
          getTextRepresentation_wf mated_wfBoard describeThenAnswer_def)
  show ?thesis
    unfolding run
    by (simp add: mated_hash publishPending_def addToMinimaxCache_def newAgent_def
          defaultCostSetup_def searchedAgent_def)
qed

subsection \<open>A search whose successor request fails\<close>

lemma getGameDescription_exhausted:
  assumes "getTextRepresentation gs = Inr ()"
    and "gameDescriptionCache a (hashGameState gs) = None"
    and "\<And>n. llmCalls a \<le> n \<Longrightarrow> n < llmCalls a + maxLLMTries \<Longrightarrow> \<exists>e. callLLM n = Inl e"
  shows "getGameDescription callLLM gs a =
           (Rejected descriptionFailure,
            a\<lparr>gameDescriptionCache :=
                 (gameDescriptionCache a)(hashGameState gs \<mapsto> Rejected descriptionFailure),
              llmCalls := llmCalls a + 5\<rparr>)"
proof -
  have loop: "callWithRetries callLLM 0 (llmCalls a) = (None, llmCalls a + (maxLLMTries - 0))"
    by (rule callWithRetries_all_throw) (use assms(3) in auto)
  show ?thesis
    using assms(1,2) loop
    by (simp add: getGameDescription_def Let_def descriptionFailure_def maxLLMTries_def)
qed

lemma unmatedWhite_Kh2:
  "makeMove unmatedWhite (kingStep (0, 7) (1, 7) ''Kh2'') = Inr afterKh2"
  by code_simp

lemma unmatedWhite_failed_search:
  "minimax searchCostSetup alwaysThrow 1 unmatedWhite 100 True newAgent =
     (Rejected descriptionFailure, failedSearchAgent)"
proof -
  let ?h = "hashGameState unmatedWhite"
  let ?a2 = "publishPending newAgent ?h 100"
  have p: "probeMinimaxCache newAgent ?h 100 = None"
    by (simp add: probeMinimaxCache_def newAgent_def)
  have aw: "awaitCachedSuccessors newAgent ?h = Resolved None"
    by (simp add: awaitCachedSuccessors_def newAgent_def)
  have n: "InProgress \<noteq> CheckmateWhite" "InProgress \<noteq> CheckmateBlack"
    by simp_all
  have l: "\<not> leafDecision searchCostSetup 1 100 (basicMinimaxCost searchCostSetup) None"
    by (simp add: leafDecision_def realizedGetSuccessorsCost_def estimatedNumberOfSuccessors_def
          estimateNumberOfSuccessors_def targetSuccessorCount_def searchCostSetup_def
          defaultCostSetup_def)
  have d: "getGameDescription alwaysThrow unmatedWhite ?a2 =
             (Rejected descriptionFailure,
              ?a2\<lparr>gameDescriptionCache :=
                     (gameDescriptionCache ?a2)(?h \<mapsto> Rejected descriptionFailure),
                   llmCalls := llmCalls ?a2 + 5\<rparr>)"
    by (rule getGameDescription_exhausted)
       (simp_all add: getTextRepresentation_wf mated_wfBoard publishPending_def newAgent_def
          alwaysThrow_def)
  have s: "getSuccessors alwaysThrow unmatedWhite ?a2 =
             (Rejected descriptionFailure,
              ?a2\<lparr>gameDescriptionCache :=
                     (gameDescriptionCache ?a2)(?h \<mapsto> Rejected descriptionFailure),
                   llmCalls := llmCalls ?a2 + 5\<rparr>)"
    by (simp add: getSuccessors_def d)
  have x: "expandNode
             (\<lambda>gs' b' a'. minimax searchCostSetup alwaysThrow (1 + 1) gs' b' (\<not> True) a')
             searchCostSetup alwaysThrow unmatedWhite 100 (basicMinimaxCost searchCostSetup) None True ?a2 =
           (Rejected descriptionFailure,
            ?a2\<lparr>gameDescriptionCache :=
                   (gameDescriptionCache ?a2)(?h \<mapsto> Rejected descriptionFailure),
                 llmCalls := llmCalls ?a2 + 5,
                 successorsCache := (successorsCache ?a2)(?h \<mapsto> Rejected descriptionFailure)\<rparr>)"
    by (simp add: expandNode_def Let_def s)
  show ?thesis
    unfolding minimax_node [OF p unmatedWhite_endgame n aw] using l
    by (simp only: if_False x)
       (simp add: settleNode_def publishPending_def addToMinimaxCache_def newAgent_def
          failedSearchAgent_def)
qed

subsection \<open>The reduction at the root\<close>

lemma awaitAll_Resolved: "awaitAll ps = Resolved vs \<Longrightarrow> ps = map Resolved vs"
  by (induction ps arbitrary: vs) (auto split: promise.splits)

lemma exploreSubnodes_length:
  "length (fst (exploreSubnodes search budgetForSearch successors a)) = length successors"
proof (induction successors arbitrary: a)
  case Nil
  then show ?case by simp
next
  case (Cons successor rest)
  show ?case
    using Cons.IH [of "snd (search (nextState successor) (budgetForSearch * probability successor) a)"]
    by (auto simp: Let_def split: prod.splits)
qed

lemma selectBest_split:
  "results \<noteq> [] \<Longrightarrow>
   \<exists>best before after.
     selectBest maximizingPlayer results = Inr best \<and>
     results = before @ best # after \<and>
     (if maximizingPlayer
      then (\<forall>r\<in>set before. computedValue (snd r) \<le> computedValue (snd best)) \<and>
           (\<forall>r\<in>set after. computedValue (snd r) < computedValue (snd best))
      else (\<forall>r\<in>set before. computedValue (snd best) \<le> computedValue (snd r)) \<and>
           (\<forall>r\<in>set after. computedValue (snd best) < computedValue (snd r)))"
proof -
  assume "results \<noteq> []"
  then obtain x xs where xs: "results = x # xs" by (cases results) auto
  show ?thesis
  proof (cases maximizingPlayer)
    case True
    then show ?thesis
      using foldl_keep_greater [of x xs "\<lambda>r. computedValue (snd r)"]
      by (simp add: selectBest_def xs)
  next
    case False
    then show ?thesis
      using foldl_keep_less [of x xs "\<lambda>r. computedValue (snd r)"]
      by (simp add: selectBest_def xs)
  qed
qed

subsection \<open>A root with two children\<close>

lemma twoKings_legalMoves:
  "getAllLegalMoves twoKings White =
     Inr [kingStep (0, 0) (1, 0) ''Ka2'', kingStep (0, 0) (0, 1) ''Kb1'']"
  by code_simp

lemma twoKings_Ka2: "makeMove twoKings (kingStep (0, 0) (1, 0) ''Ka2'') = Inr afterKa2"
  by code_simp

lemma twoKings_Kb1: "makeMove twoKings (kingStep (0, 0) (0, 1) ''Kb1'') = Inr afterKb1"
  by code_simp

lemma afterKa2_endgame: "getEndgameState afterKa2 = Inr InProgress"
  by code_simp

lemma afterKb1_endgame: "getEndgameState afterKb1 = Inr InProgress"
  by code_simp

lemma twoKings_wfBoard:
  "wfBoard (boardState twoKings)" "wfBoard (boardState afterKa2)" "wfBoard (boardState afterKb1)"
  by (simp_all add: wfBoard_def twoKings_def afterKa2_def afterKb1_def emptyRow_def)

lemma twoKings_hashes:
  "hashGameState afterKa2 \<noteq> hashGameState twoKings"
  "hashGameState afterKb1 \<noteq> hashGameState twoKings"
  "hashGameState afterKb1 \<noteq> hashGameState afterKa2"
  by code_simp+

lemma twoKings_extract:
  "extractMovesFromMessage
     (validMoveMappingOf [kingStep (0, 0) (1, 0) ''Ka2'', kingStep (0, 0) (0, 1) ''Kb1''])
     ''The king should leave the corner. Moves: Ka2, Kb1'' =
   Some [kingStep (0, 0) (1, 0) ''Ka2'', kingStep (0, 0) (0, 1) ''Kb1'']"
  by code_simp

lemma twoKings_successors:
  "getSuccessors proposeThenAnswer twoKings newAgent =
     (Resolved [ka2Progression, kb1Progression], (describedAgent twoKings)\<lparr>llmCalls := 2\<rparr>)"
proof -
  have d: "getGameDescription proposeThenAnswer twoKings newAgent =
             (Resolved (Some ''Both sides have a bare king.''), describedAgent twoKings)"
    by (simp add: getGameDescription_def getTextRepresentation_wf twoKings_wfBoard newAgent_def
          Let_def callWithRetries_answer [of 0 proposeThenAnswer 0] maxLLMTries_def
          proposeThenAnswer_def describedAgent_def)
  have l: "successorsLoop proposeThenAnswer
             (validMoveMappingOf [kingStep (0, 0) (1, 0) ''Ka2'', kingStep (0, 0) (0, 1) ''Kb1''])
             0 (Suc 0) =
           Some (Inr [kingStep (0, 0) (1, 0) ''Ka2'', kingStep (0, 0) (0, 1) ''Kb1''], 2)"
    by (subst successorsLoop.simps)
       (simp add: maxLLMTries_def proposeThenAnswer_def twoKings_extract)
  have c: "llmCalls (describedAgent twoKings) = Suc 0"
    by (simp add: describedAgent_def newAgent_def)
  have t: "turn twoKings = White"
    by (simp add: twoKings_def)
  show ?thesis
    unfolding getSuccessors_def d
    by (simp add: t twoKings_legalMoves c l twoKings_Ka2 twoKings_Kb1 ka2Progression_def
          kb1Progression_def Let_def)
qed

text \<open>A child of the root: a leaf, whatever its budget, evaluated by two oracle calls.\<close>

lemma twoKings_child:
  assumes "gs = afterKa2 \<or> gs = afterKb1"
    and "minimaxCache a (hashGameState gs) = None"
    and "successorsCache a (hashGameState gs) = None"
    and "gameDescriptionCache a (hashGameState gs) = None"
    and "2 \<le> llmCalls a"
  shows "minimax defaultCostSetup proposeThenAnswer 1 gs b False a =
           (Resolved \<lparr>computedValue = 1, usedBudget = 11\<rparr>,
            (publishPending a (hashGameState gs) b)
              \<lparr>gameDescriptionCache :=
                 (gameDescriptionCache a)(hashGameState gs \<mapsto> Resolved (Some ''white'')),
               llmCalls := llmCalls a + 2,
               valuePromises := (valuePromises a)(nextValuePromise a := Resolved 1)\<rparr>)"
proof -
  have e: "getEndgameState gs = Inr InProgress"
    using assms(1) afterKa2_endgame afterKb1_endgame by auto
  have w: "getTextRepresentation gs = Inr ()"
    using assms(1) by (auto simp: getTextRepresentation_wf twoKings_wfBoard)
  have o: "proposeThenAnswer (llmCalls a) = Inr [\<lparr>content = Some ''white'', logprobs = None\<rparr>]"
    "proposeThenAnswer (llmCalls a + 1) = Inr [\<lparr>content = Some ''white'', logprobs = None\<rparr>]"
    using assms(5) by (simp_all add: proposeThenAnswer_def)
  have "minimax defaultCostSetup proposeThenAnswer 1 gs b False a =
          (Resolved \<lparr>computedValue = (if content \<lparr>content = Some ''white'', logprobs = None\<rparr>
                                           = Some ''black'' then - 1 else 1),
                     usedBudget = basicMinimaxCost defaultCostSetup
                                  + stateEvaluationCost defaultCostSetup\<rparr>,
           (publishPending a (hashGameState gs) b)
             \<lparr>gameDescriptionCache :=
                (gameDescriptionCache a)(hashGameState gs \<mapsto>
                   Resolved (content \<lparr>content = Some ''white'', logprobs = None\<rparr>)),
              llmCalls := llmCalls a + 2,
              valuePromises := (valuePromises a)
                (nextValuePromise a :=
                   Resolved (if content \<lparr>content = Some ''white'', logprobs = None\<rparr>
                               = Some ''black'' then - 1 else 1))\<rparr>)"
    by (rule minimax_leaf_run [OF _ e _ _ assms(3) _ w assms(4) o(1) o(2)])
       (simp_all add: probeMinimaxCache_def assms(2) leafDecision_def defaultCostSetup_def)
  then show ?thesis
    by (simp add: defaultCostSetup_def)
qed

lemma twoKings_first_child:
  "minimax defaultCostSetup proposeThenAnswer 1 afterKa2 245 False rootedAgent =
     (Resolved \<lparr>computedValue = 1, usedBudget = 11\<rparr>, halfTiedAgent)"
proof -
  have "minimax defaultCostSetup proposeThenAnswer 1 afterKa2 245 False rootedAgent =
          (Resolved \<lparr>computedValue = 1, usedBudget = 11\<rparr>,
           (publishPending rootedAgent (hashGameState afterKa2) 245)
             \<lparr>gameDescriptionCache :=
                (gameDescriptionCache rootedAgent)(hashGameState afterKa2 \<mapsto>
                   Resolved (Some ''white'')),
              llmCalls := llmCalls rootedAgent + 2,
              valuePromises :=
                (valuePromises rootedAgent)(nextValuePromise rootedAgent := Resolved 1)\<rparr>)"
    by (rule twoKings_child) (simp_all add: rootedAgent_def twoKings_hashes)
  then show ?thesis
    by (simp add: rootedAgent_def halfTiedAgent_def publishPending_def addToMinimaxCache_def)
qed

lemma twoKings_second_child:
  "minimax defaultCostSetup proposeThenAnswer 1 afterKb1 245 False halfTiedAgent =
     (Resolved \<lparr>computedValue = 1, usedBudget = 11\<rparr>, tiedAgent)"
proof -
  have "minimax defaultCostSetup proposeThenAnswer 1 afterKb1 245 False halfTiedAgent =
          (Resolved \<lparr>computedValue = 1, usedBudget = 11\<rparr>,
           (publishPending halfTiedAgent (hashGameState afterKb1) 245)
             \<lparr>gameDescriptionCache :=
                (gameDescriptionCache halfTiedAgent)(hashGameState afterKb1 \<mapsto>
                   Resolved (Some ''white'')),
              llmCalls := llmCalls halfTiedAgent + 2,
              valuePromises :=
                (valuePromises halfTiedAgent)(nextValuePromise halfTiedAgent := Resolved 1)\<rparr>)"
    by (rule twoKings_child) (simp_all add: halfTiedAgent_def twoKings_hashes)
  then show ?thesis
    by (simp add: halfTiedAgent_def tiedAgent_def publishPending_def addToMinimaxCache_def
          twoKings_hashes)
qed

lemma twoKings_selectMove:
  "selectMove defaultCostSetup proposeThenAnswer twoKings newAgent =
     (Resolved (kingStep (0, 0) (0, 1) ''Kb1''), tiedAgent)"
proof -
  have ex: "exploreSubnodes
              (\<lambda>gs' b' a'. minimax defaultCostSetup proposeThenAnswer 1 gs' b' False a')
              490 [ka2Progression, kb1Progression] rootedAgent =
            ([Resolved \<lparr>computedValue = 1, usedBudget = 11\<rparr>,
              Resolved \<lparr>computedValue = 1, usedBudget = 11\<rparr>], tiedAgent)"
    using twoKings_first_child twoKings_second_child
    by (simp add: ka2Progression_def kb1Progression_def Let_def)
  have r: "(describedAgent twoKings)
             \<lparr>llmCalls := 2,
              successorsCache :=
                [hashGameState twoKings \<mapsto> Resolved [ka2Progression, kb1Progression]]\<rparr> =
           rootedAgent"
    by (simp add: describedAgent_def newAgent_def rootedAgent_def)
  have t: "turn twoKings = White"
    by (simp add: twoKings_def)
  have s: "successorsCache newAgent (hashGameState twoKings) = None"
    by (simp add: newAgent_def)
  have b: "totalBudget defaultCostSetup - getSuccessorsCost defaultCostSetup = 490"
    by (simp add: defaultCostSetup_def)
  have m: "move ka2Progression = kingStep (0, 0) (1, 0) ''Ka2''"
    "move kb1Progression = kingStep (0, 0) (0, 1) ''Kb1''"
    by (simp_all add: ka2Progression_def kb1Progression_def)
  have sc: "successorsCache (describedAgent twoKings) = Map.empty"
    by (simp add: describedAgent_def newAgent_def)
  show ?thesis
    unfolding selectMove_def using ex
    by (simp add: Let_def t s twoKings_successors b m selectBest_def sc r
          del: exploreSubnodes.simps)
qed

section \<open>Claims\<close>

text \<open>
  C1 (the hash identifies states up to their legal moves; its cell tag is
  \<open>empty\<close> or \<open>color_type_hasMoved[_justMoved2]\<close>).  The code does not do this:
  \<open>hashCellState\<close> builds the tag of a piece and never returns it, so every
  occupied cell is hashed as \<open>undefined\<close>.  The positions \<open>collideA\<close> and
  \<open>collideB\<close> differ in the piece on g1, hash to the same string, and give
  black different legal moves: against the rook only Kh7, against the knight
  also Kg8.
\<close>

theorem hashGameState_collision:
  "hashGameState collideA = hashGameState collideB \<and>
   getAllLegalMoves collideA Black = Inr [kingStep (7, 7) (6, 7) ''Kh7''] \<and>
   getAllLegalMoves collideB Black =
     Inr [kingStep (7, 7) (6, 7) ''Kh7'', kingStep (7, 7) (7, 6) ''Kg8'']"
  by (simp add: hashGameState_occupancy collideA_legalMoves collideB_legalMoves)
     (simp add: collideA_def collideB_def movedPiece_def)

text \<open>
  C2 (after a white pawn has moved two squares an adjacent black pawn has the
  en-passant capture among black's legal moves on the next ply, and after any
  later white move that is not a double step it has not).  The first half holds
  up to the filter every legal move passes: after a double step from the second
  rank, a black pawn next to the arriving pawn has the capture among its pawn
  moves, and the capture is a legal move exactly when it does not leave the
  black king in check.  The theorem is about a board of 8 by 8 cells; \<open>c\<close> is
  the file of the white pawn and \<open>c'\<close> the file of the black one.
\<close>

theorem enPassant_after_double_step:
  assumes wf: "wfBoard (boardState s)" and t: "turn s = White"
    and c: "0 \<le> c" "c \<le> 7" and c': "0 \<le> c'" "c' \<le> 7" and adj: "c' = c + 1 \<or> c' = c - 1"
    and wp: "readCell (boardState s) (1, c) = Inr (Some p)" "ptype p = Pawn" "color p = White"
    and bp: "readCell (boardState s) (3, c') = Inr (Some q)" "ptype q = Pawn" "color q = Black"
    and m: "moveFrom m = (1, c)" "moveTo m = (3, c)" "isPawnMoving2 m"
           "\<not> enPassant m" "\<not> castling m" "promotion m = None"
  shows "\<exists>s' a pawnMoves.
           makeMove s m = Inr s' \<and> turn s' = Black \<and>
           getPawnMoves s' (3, c') = Inr pawnMoves \<and>
           (plainMove (3, c') (2, c))\<lparr>enPassant := True, algebraic := a\<rparr> \<in> set pawnMoves \<and>
           (\<forall>legal. getAllLegalMoves s' Black = Inr legal \<longrightarrow>
              ((plainMove (3, c') (2, c))\<lparr>enPassant := True, algebraic := a\<rparr> \<in> set legal) =
              (doesMovePutMovingPlayerInCheck s'
                 ((plainMove (3, c') (2, c))\<lparr>enPassant := True, algebraic := a\<rparr>) = Inr False))"
proof -
  define p' where "p' = p\<lparr>hasMoved := True, justMoved2 := Some True\<rparr>"
  define b1 where "b1 = (boardState s)[nat 3 := (boardState s ! nat 3)[nat c := Some p']]"
  define b2 where "b2 = b1[nat 1 := (b1 ! nat 1)[nat c := None]]"
  define s' where "s' = \<lparr>turn = Black, boardState = b2, moveHistory = moveHistory s @ [m]\<rparr>"
  have on1: "onBoard (1, c)" and on3: "onBoard (3, c)" and on3': "onBoard (3, c')"
    and on2: "onBoard (2, c)"
    using c c' by (simp_all add: onBoard_def)
  have mk: "makeMove s m = Inr s'"
    using makeMove_plain [of s m p] wf on1 on3 wp t m
    by (simp add: s'_def b2_def b1_def p'_def Let_def)
  have wf1: "wfBoard b1"
    unfolding b1_def by (rule wfBoard_update [OF wf])
  have wf2: "wfBoard (boardState s')"
    unfolding s'_def b2_def using wfBoard_update [OF wf1] by simp
  have r1: "readCell b1 q' = (if q' = (3, c) then Inr (Some p') else readCell (boardState s) q')"
    if "onBoard q'" for q'
    using readCell_update [OF wf on3 that, of "Some p'"] by (simp add: b1_def)
  have r2: "readCell (boardState s') q' = (if q' = (1, c) then Inr None else readCell b1 q')"
    if "onBoard q'" for q'
    using readCell_update [OF wf1 on1 that, of None] by (simp add: s'_def b2_def)
  have white: "readCell (boardState s') (3, c) = Inr (Some p')"
    using r2 [OF on3] r1 [OF on3] by simp
  have black: "readCell (boardState s') (3, c') = Inr (Some q)"
    using r2 [OF on3'] r1 [OF on3'] adj bp by auto
  define k where "k = c - c'"
  have k: "k = 1 \<or> k = - 1" using adj by (auto simp: k_def)
  have side: "getPosInDirection (3, c') (0, k) = Some (3, c)"
    using c by (simp add: getPosInDirection_def k_def)
  have diag: "getPosInDirection (3, c') (- 1, k) = Some (2, c)"
    using c by (simp add: getPosInDirection_def k_def)
  obtain a where a: "annotateMove s' ((plainMove (3, c') (2, c))\<lparr>enPassant := True\<rparr>)
      = Inr ((plainMove (3, c') (2, c))\<lparr>enPassant := True, algebraic := a\<rparr>)"
    using annotateMove_wf [of s' "(plainMove (3, c') (2, c))\<lparr>enPassant := True\<rparr>" q] wf2 on2 black
    by (auto simp: plainMove_def)
  let ?ep = "(plainMove (3, c') (2, c))\<lparr>enPassant := True, algebraic := a\<rparr>"
  have epk: "pawnEnPassantMove s' (3, c') q (getPosInDirection (3, c') (0, k))
               (getPosInDirection (3, c') (- 1, k)) = Inr [?ep]"
    using white wp bp a by (simp add: side diag pawnEnPassantMove_def p'_def)
  obtain other where other: "pawnEnPassantMove s' (3, c') q (getPosInDirection (3, c') (0, - k))
               (getPosInDirection (3, c') (- 1, - k)) = Inr other"
    using pawnEnPassantMove_wf [OF wf2 black, of "- 1" "- k"] by auto
  obtain fw where fw: "pawnForwardMoves s' (3, c') q (- 1) = Inr fw"
    using pawnForwardMoves_wf [OF wf2 black] by blast
  obtain capL where capL: "pawnCaptureMove s' (3, c') q (getPosInDirection (3, c') (- 1, - 1)) = Inr capL"
    using pawnCaptureMove_wf [OF wf2 black] by blast
  obtain capR where capR: "pawnCaptureMove s' (3, c') q (getPosInDirection (3, c') (- 1, 1)) = Inr capR"
    using pawnCaptureMove_wf [OF wf2 black] by blast
  obtain pawnMoves where pm: "getPawnMoves s' (3, c') = Inr pawnMoves" and inpm: "?ep \<in> set pawnMoves"
  proof (cases "k = 1")
    case True
    then have "getPawnMoves s' (3, c') = Inr (fw @ capL @ capR @ (other @ [?ep]))"
      using black bp fw capL capR epk other by (simp add: getPawnMoves_def Let_def)
    then show ?thesis using that by simp
  next
    case False
    then have "k = - 1" using k by simp
    then have "getPawnMoves s' (3, c') = Inr (fw @ capL @ capR @ ([?ep] @ other))"
      using black bp fw capL capR epk other by (simp add: getPawnMoves_def Let_def)
    then show ?thesis using that by simp
  qed
  have legal: "(?ep \<in> set legal) = (doesMovePutMovingPlayerInCheck s' ?ep = Inr False)"
    if all: "getAllLegalMoves s' Black = Inr legal" for legal
  proof -
    from concatE_Inr [OF all [unfolded getAllLegalMoves_def]]
    have ok: "\<forall>x\<in>set (map (legalMovesAt s' Black) allSquares). \<exists>l. x = Inr l"
      and un: "set legal = (\<Union>x\<in>set (map (legalMovesAt s' Black) allSquares).
                              case x of Inr l \<Rightarrow> set l | Inl e \<Rightarrow> {})"
      by blast+
    have sq: "(3, c') \<in> set allSquares"
      using c' by (auto simp: allSquares_def intro!: bexI [of _ 3])
    then obtain l where l: "legalMovesAt s' Black (3, c') = Inr l"
      using ok by auto
    have kl: "keepLegal s' pawnMoves = Inr l"
      using l black bp pm by (simp add: legalMovesAt_def getMovesFromPosition_def)
    show ?thesis
    proof
      assume "?ep \<in> set legal"
      then obtain x where x: "x \<in> set (map (legalMovesAt s' Black) allSquares)"
        and inx: "?ep \<in> (case x of Inr l \<Rightarrow> set l | Inl e \<Rightarrow> {})"
        unfolding un by blast
      from x ok obtain l' where xl: "x = Inr l'" by blast
      from x obtain pos where "x = legalMovesAt s' Black pos" by auto
      then have l': "legalMovesAt s' Black pos = Inr l'" using xl by simp
      have mem: "?ep \<in> set l'" using inx xl by simp
      from legalMovesAt_Inr [OF l' mem] show "doesMovePutMovingPlayerInCheck s' ?ep = Inr False" .
    next
      assume "doesMovePutMovingPlayerInCheck s' ?ep = Inr False"
      then have "?ep \<in> set l" using keepLegal_Inr [OF kl] inpm by simp
      then show "?ep \<in> set legal"
        unfolding un using sq l by force
    qed
  qed
  have "turn s' = Black" by (simp add: s'_def)
  then show ?thesis using mk pm inpm legal by blast
qed

theorem enPassant_after_double_step_witness:
  "wfBoard (boardState epReady0) \<and> turn epReady0 = White \<and>
   readCell (boardState epReady0) (1, 4) = Inr (freshPiece White Pawn) \<and>
   readCell (boardState epReady0) (3, 3) = Inr (movedPiece Black Pawn) \<and>
   moveFrom doubleStepE4 = (1, 4) \<and> moveTo doubleStepE4 = (3, 4) \<and> isPawnMoving2 doubleStepE4 \<and>
   (\<exists>s' a pawnMoves.
      makeMove epReady0 doubleStepE4 = Inr s' \<and> turn s' = Black \<and>
      getPawnMoves s' (3, 3) = Inr pawnMoves \<and>
      (plainMove (3, 3) (2, 4))\<lparr>enPassant := True, algebraic := a\<rparr> \<in> set pawnMoves \<and>
      (\<forall>legal. getAllLegalMoves s' Black = Inr legal \<longrightarrow>
         ((plainMove (3, 3) (2, 4))\<lparr>enPassant := True, algebraic := a\<rparr> \<in> set legal) =
         (doesMovePutMovingPlayerInCheck s'
            ((plainMove (3, 3) (2, 4))\<lparr>enPassant := True, algebraic := a\<rparr>) = Inr False)))"
proof -
  have wf: "wfBoard (boardState epReady0)"
    by (simp add: wfBoard_def epReady0_def emptyRow_def)
  have t: "turn epReady0 = White"
    by (simp add: epReady0_def)
  have wp: "readCell (boardState epReady0) (1, 4)
              = Inr (Some \<lparr>ptype = Pawn, color = White, hasMoved = False, justMoved2 = None\<rparr>)"
    by (simp add: readCell_def epReady0_def emptyRow_def freshPiece_def)
  have bp: "readCell (boardState epReady0) (3, 3)
              = Inr (Some \<lparr>ptype = Pawn, color = Black, hasMoved = True, justMoved2 = Some False\<rparr>)"
    by (simp add: readCell_def epReady0_def emptyRow_def movedPiece_def)
  have m: "moveFrom doubleStepE4 = (1, 4)" "moveTo doubleStepE4 = (3, 4)"
    "isPawnMoving2 doubleStepE4" "\<not> enPassant doubleStepE4" "\<not> castling doubleStepE4"
    "promotion doubleStepE4 = None"
    by (simp_all add: doubleStepE4_def plainMove_def)
  show ?thesis
    using enPassant_after_double_step [of epReady0 4 3
            "\<lparr>ptype = Pawn, color = White, hasMoved = False, justMoved2 = None\<rparr>"
            "\<lparr>ptype = Pawn, color = Black, hasMoved = True, justMoved2 = Some False\<rparr>"
            doubleStepE4]
      wf t wp bp m
    by (simp add: freshPiece_def movedPiece_def)
qed

theorem enPassant_pinned_counterexample:
  "getPawnMoves pinned0 (1, 4) = Inr [(plainMove (1, 4) (2, 4))\<lparr>algebraic := ''e3''\<rparr>, doubleStepE4] \<and>
   makeMove pinned0 doubleStepE4 = Inr pinned1 \<and>
   getPawnMoves pinned1 (3, 3) = Inr [(plainMove (3, 3) (2, 3))\<lparr>algebraic := ''d3''\<rparr>, enPassantE3] \<and>
   getAllLegalMoves pinned1 Black =
     Inr [(plainMove (3, 3) (2, 3))\<lparr>algebraic := ''d3''\<rparr>,
          kingStep (7, 3) (6, 3) ''Kd7'', kingStep (7, 3) (7, 4) ''Ke8'',
          kingStep (7, 3) (7, 2) ''Kc8'']"
proof (intro conjI)
  show "getPawnMoves pinned0 (1, 4)
          = Inr [(plainMove (1, 4) (2, 4))\<lparr>algebraic := ''e3''\<rparr>, doubleStepE4]"
    by code_simp
  show "makeMove pinned0 doubleStepE4 = Inr pinned1"
    by code_simp
  show "getPawnMoves pinned1 (3, 3)
          = Inr [(plainMove (3, 3) (2, 3))\<lparr>algebraic := ''d3''\<rparr>, enPassantE3]"
    by code_simp
  show "getAllLegalMoves pinned1 Black =
          Inr [(plainMove (3, 3) (2, 3))\<lparr>algebraic := ''d3''\<rparr>,
               kingStep (7, 3) (6, 3) ''Kd7'', kingStep (7, 3) (7, 4) ''Ke8'',
               kingStep (7, 3) (7, 2) ''Kc8'']"
    by code_simp
qed

text \<open>
  The second half of the sentence is about plies the theorem above does not
  reach.  \<open>movePieceAccordingToMove\<close> writes \<open>justMoved2\<close> on the piece that moves
  and on no other, so the flag of a pawn that made a double step stays set until
  that pawn moves again.  In \<open>epReady0\<close>, after e4, Kd8 and Kd1, the position
  \<open>epLater\<close> is reached, in which black still has the capture.
\<close>

definition epLater :: GameState where
  "epLater =
     \<lparr>turn = Black,
      boardState =
        [[None, None, None, movedPiece White King, None, None, None, None],
         emptyRow,
         emptyRow,
         [None, None, None, movedPiece Black Pawn,
          Some \<lparr>ptype = Pawn, color = White, hasMoved = True, justMoved2 = Some True\<rparr>,
          None, None, None],
         emptyRow, emptyRow, emptyRow,
         [None, None, None, movedPiece Black King, None, None, None, None]],
      moveHistory = [doubleStepE4, kingStep (7, 4) (7, 3) ''Kd8'', kingStep (0, 4) (0, 3) ''Kd1'']\<rparr>"

lemma enPassant_flag_outlives_next_ply:
  "bindE (makeMove epReady0 doubleStepE4) (\<lambda>s1.
   bindE (makeMove s1 (kingStep (7, 4) (7, 3) ''Kd8'')) (\<lambda>s2.
     makeMove s2 (kingStep (0, 4) (0, 3) ''Kd1''))) = Inr epLater \<and>
   getAllLegalMoves epLater Black =
     Inr [(plainMove (3, 3) (2, 3))\<lparr>algebraic := ''d3''\<rparr>, enPassantE3,
          kingStep (7, 3) (6, 3) ''Kd7'', kingStep (7, 3) (7, 4) ''Ke8'',
          kingStep (7, 3) (7, 2) ''Kc8'']"
proof (intro conjI)
  show "bindE (makeMove epReady0 doubleStepE4) (\<lambda>s1.
        bindE (makeMove s1 (kingStep (7, 4) (7, 3) ''Kd8'')) (\<lambda>s2.
          makeMove s2 (kingStep (0, 4) (0, 3) ''Kd1''))) = Inr epLater"
    by code_simp
  show "getAllLegalMoves epLater Black =
          Inr [(plainMove (3, 3) (2, 3))\<lparr>algebraic := ''d3''\<rparr>, enPassantE3,
               kingStep (7, 3) (6, 3) ''Kd7'', kingStep (7, 3) (7, 4) ''Ke8'',
               kingStep (7, 3) (7, 2) ''Kc8'']"
    by code_simp
qed

text \<open>
  C3 (every oracle task stops after at most \<open>maxLLMTries = 5\<close> failed attempts and
  raises; in particular \<open>getSuccessors\<close> never retries a thrown failure more than
  5 times).  The description and evaluation loops count every attempt
  (\<open>callWithRetries_all_throw\<close>, \<open>callWithRetries_bound\<close>), and the successor loop
  counts answers it cannot use (\<open>successorsLoop_answers_stop\<close>).  A thrown failure
  in the successor loop is not counted: \<open>catch\<close> continues before \<open>tires++\<close>, and
  against an oracle that throws from some call on the loop never ends
  (\<open>successorsLoop_diverges\<close>).  For black to move in \<open>collideB\<close>, with an oracle
  that answers the description and then throws, the request never settles.
\<close>

theorem getSuccessors_retries_forever:
  "getSuccessors describeThenThrow collideB newAgent =
     (Pending, (describedAgent collideB)\<lparr>retryingForever := True\<rparr>)"
proof -
  have d: "getGameDescription describeThenThrow collideB newAgent =
             (Resolved (Some ''Both sides have a bare king.''), describedAgent collideB)"
    by (simp add: getGameDescription_def getTextRepresentation_wf collide_wfBoard newAgent_def Let_def
          callWithRetries_answer [of 0 describeThenThrow 0] maxLLMTries_def
          describeThenThrow_def describedAgent_def)
  have "\<exists>e. describeThenThrow n = Inl e" if "1 \<le> n" for n
    using that by (simp add: describeThenThrow_def)
  then have l: "successorsLoop describeThenThrow vm 0 (Suc 0) = None" for vm
    by (intro successorsLoop_diverges) (simp_all add: maxLLMTries_def)
  have t: "turn collideB = Black"
    by (simp add: collideB_def)
  have c: "llmCalls (describedAgent collideB) = Suc 0"
    by (simp add: describedAgent_def)
  show ?thesis
    by (simp add: getSuccessors_def d t collideB_legalMoves c l)
qed

text \<open>
  C4 (without log-probabilities the evaluation is -1 for the content \<open>black\<close>, +1
  for the content \<open>white\<close>, and an error for any other content).  The first two
  hold; the third does not: the branch compares the content with \<open>"black"\<close> only
  and returns +1 in every other case, so no content makes it raise.  Stated for
  \<open>stateEvaluation\<close> once the description is there and the evaluate call has
  answered with a first choice that carries no log-probabilities.
\<close>

theorem stateEvaluation_without_logprobs:
  assumes "getGameDescription callLLM gs a = (Resolved description, a1)"
    and "callWithRetries callLLM 0 (llmCalls a1) = (Some (messageChoice # others), calls)"
    and "logprobs messageChoice = None"
  shows "stateEvaluation callLLM gs a =
           (Resolved (if content messageChoice = Some ''black'' then - 1 else 1),
            a1\<lparr>llmCalls := calls\<rparr>)"
  using assms by (simp add: stateEvaluation_def evaluateChoice_def)

theorem stateEvaluation_without_logprobs_witness:
  "getGameDescription (describeThenAnswer ''black'') collideA newAgent =
     (Resolved (Some ''Both sides have a bare king.''), describedAgent collideA) \<and>
   callWithRetries (describeThenAnswer ''black'') 0 (llmCalls (describedAgent collideA)) =
     (Some [\<lparr>content = Some ''black'', logprobs = None\<rparr>], 2) \<and>
   logprobs \<lparr>content = Some ''black'', logprobs = None\<rparr> = None \<and>
   stateEvaluation (describeThenAnswer ''black'') collideA newAgent =
     (Resolved (- 1), (describedAgent collideA)\<lparr>llmCalls := 2\<rparr>)"
proof -
  have d: "getGameDescription (describeThenAnswer ''black'') collideA newAgent =
             (Resolved (Some ''Both sides have a bare king.''), describedAgent collideA)"
    by (simp add: getGameDescription_def getTextRepresentation_wf collide_wfBoard newAgent_def Let_def
          callWithRetries_answer [of 0 "describeThenAnswer ''black''" 0] maxLLMTries_def
          describeThenAnswer_def describedAgent_def)
  have c: "callWithRetries (describeThenAnswer ''black'') 0 (llmCalls (describedAgent collideA)) =
             (Some [\<lparr>content = Some ''black'', logprobs = None\<rparr>], 2)"
  proof -
    have "llmCalls (describedAgent collideA) = 1"
      by (simp add: describedAgent_def newAgent_def)
    moreover have "callWithRetries (describeThenAnswer ''black'') 0 1 =
                     (Some [\<lparr>content = Some ''black'', logprobs = None\<rparr>], 1 + 1)"
      by (rule callWithRetries_answer) (simp_all add: maxLLMTries_def describeThenAnswer_def)
    ultimately show ?thesis by simp
  qed
  show ?thesis
    using stateEvaluation_without_logprobs [OF d c] d c by simp
qed

theorem stateEvaluation_other_content_counterexample:
  "stateEvaluation (describeThenAnswer ''draw'') collideA newAgent =
     (Resolved 1, (describedAgent collideA)\<lparr>llmCalls := 2\<rparr>)"
proof -
  have d: "getGameDescription (describeThenAnswer ''draw'') collideA newAgent =
             (Resolved (Some ''Both sides have a bare king.''), describedAgent collideA)"
    by (simp add: getGameDescription_def getTextRepresentation_wf collide_wfBoard newAgent_def Let_def
          callWithRetries_answer [of 0 "describeThenAnswer ''draw''" 0] maxLLMTries_def
          describeThenAnswer_def describedAgent_def)
  have c: "callWithRetries (describeThenAnswer ''draw'') 0 (llmCalls (describedAgent collideA)) =
             (Some [\<lparr>content = Some ''draw'', logprobs = None\<rparr>], 2)"
  proof -
    have "llmCalls (describedAgent collideA) = 1"
      by (simp add: describedAgent_def newAgent_def)
    moreover have "callWithRetries (describeThenAnswer ''draw'') 0 1 =
                     (Some [\<lparr>content = Some ''draw'', logprobs = None\<rparr>], 1 + 1)"
      by (rule callWithRetries_answer) (simp_all add: maxLLMTries_def describeThenAnswer_def)
    ultimately show ?thesis by simp
  qed
  show ?thesis
    by (simp add: stateEvaluation_def d c evaluateChoice_def)
qed

text \<open>
  C5 (a cache entry for the state's hash whose budget is at least the requested
  one, or within 0.1 of it, is returned with \<open>usedBudget = 0\<close> and without any
  oracle call).  The entry holds a promise, and the call awaits it.  So the
  call yields what the promise yields: its value, with \<open>usedBudget = 0\<close>, when it
  is fulfilled; its exception when it is rejected; nothing when it never
  settles.  The agent (caches and the count of oracle calls) is exactly as
  before.
\<close>

theorem minimax_cache_hit:
  assumes "minimaxCache a (hashGameState gs) = Some entry"
    and "budget entry \<ge> b \<or> \<bar>budget entry - b\<bar> < 1 / 10"
  shows "minimax cs callLLM depth gs b maximizingPlayer a =
           ((case valuePromises a (valuePromise entry) of
               Resolved v \<Rightarrow> Resolved \<lparr>computedValue = v, usedBudget = 0\<rparr>
             | Rejected e \<Rightarrow> Rejected e
             | Pending \<Rightarrow> Pending), a)"
proof -
  have "probeMinimaxCache a (hashGameState gs) b = Some entry"
    using assms by (simp add: probeMinimaxCache_def budgetCacheTolerance_def)
  then show ?thesis
    by (subst minimax.simps) (simp add: Let_def split: promise.splits)
qed

definition cachedAgent :: Agent where
  "cachedAgent =
     newAgent\<lparr>minimaxCache := [hashGameState collideA \<mapsto> \<lparr>valuePromise = 0, budget = 100\<rparr>],
              valuePromises := (\<lambda>_. Pending)(0 := Resolved (6 / 10)),
              nextValuePromise := 1\<rparr>"

theorem minimax_cache_hit_witness:
  "minimaxCache cachedAgent (hashGameState collideA) = Some \<lparr>valuePromise = 0, budget = 100\<rparr> \<and>
   (budget \<lparr>valuePromise = 0, budget = 100\<rparr> \<ge> (40::real) \<or>
    \<bar>budget \<lparr>valuePromise = 0, budget = 100\<rparr> - 40\<bar> < (1::real) / 10) \<and>
   minimax defaultCostSetup describeThenThrow 1 collideA 40 True cachedAgent =
     (Resolved \<lparr>computedValue = 6 / 10, usedBudget = 0\<rparr>, cachedAgent)"
proof -
  have e: "minimaxCache cachedAgent (hashGameState collideA) = Some \<lparr>valuePromise = 0, budget = 100\<rparr>"
    by (simp add: cachedAgent_def)
  have b: "budget \<lparr>valuePromise = 0, budget = 100\<rparr> \<ge> (40::real) \<or>
           \<bar>budget \<lparr>valuePromise = 0, budget = 100\<rparr> - 40\<bar> < (1::real) / 10"
    by simp
  have v: "valuePromises cachedAgent 0 = Resolved (6 / 10)"
    by (simp add: cachedAgent_def)
  show ?thesis
    using minimax_cache_hit [OF e b, of defaultCostSetup describeThenThrow 1 True] e v by simp
qed

text \<open>
  An entry need not hold a value.  The search of \<open>unmatedWhite\<close> against the
  oracle that always throws is rejected and leaves its rejected promise in the
  cache.  The same request once more finds that entry, whose budget is the
  requested one, and is rejected with the same exception, whatever the oracle
  would answer now.
\<close>

theorem minimax_cache_hit_rejected_counterexample:
  "minimax searchCostSetup alwaysThrow 1 unmatedWhite 100 True newAgent =
     (Rejected descriptionFailure, failedSearchAgent) \<and>
   minimaxCache failedSearchAgent (hashGameState unmatedWhite) =
     Some \<lparr>valuePromise = 0, budget = 100\<rparr> \<and>
   valuePromises failedSearchAgent 0 = Rejected descriptionFailure \<and>
   minimax searchCostSetup (describeThenAnswer ''white'') 1 unmatedWhite 100 True failedSearchAgent =
     (Rejected descriptionFailure, failedSearchAgent)"
proof (intro conjI)
  show "minimax searchCostSetup alwaysThrow 1 unmatedWhite 100 True newAgent =
          (Rejected descriptionFailure, failedSearchAgent)"
    by (rule unmatedWhite_failed_search)
  show hit: "minimaxCache failedSearchAgent (hashGameState unmatedWhite) =
               Some \<lparr>valuePromise = 0, budget = 100\<rparr>"
    by (simp add: failedSearchAgent_def)
  show v: "valuePromises failedSearchAgent 0 = Rejected descriptionFailure"
    by (simp add: failedSearchAgent_def)
  have "probeMinimaxCache failedSearchAgent (hashGameState unmatedWhite) 100 =
          Some \<lparr>valuePromise = 0, budget = 100\<rparr>"
    by (simp add: probeMinimaxCache_def hit)
  then show "minimax searchCostSetup (describeThenAnswer ''white'') 1 unmatedWhite 100 True
               failedSearchAgent = (Rejected descriptionFailure, failedSearchAgent)"
    by (subst minimax.simps) (simp add: Let_def v)
qed

text \<open>
  C6 (the root picks the child of maximal value for white and of minimal value
  for black; on ties the first child wins under the maximizing reduction).
  The extremal part holds.  The tie rule does not: both reductions keep
  \<open>prev\<close> only on a strict comparison, so among children of equal value the
  last one in successor order is returned.  Whenever \<open>selectMove\<close> returns a
  move: the successors of the root came from the cache or from \<open>getSuccessors\<close>,
  every child was searched at depth 1 for the other player and returned a
  result, and the move returned is that of a child which splits the children
  so that every child before it is no better and every child after it is
  strictly worse.
\<close>

theorem selectMove_last_extremal:
  assumes "selectMove cs callLLM gs a = (Resolved m, a')"
  shows "\<exists>successors b a1 results before best after.
           (successorsCache a (hashGameState gs) = Some (Resolved successors) \<and>
              b = totalBudget cs \<and> a1 = a \<or>
            successorsCache a (hashGameState gs) = None \<and>
              b = totalBudget cs - getSuccessorsCost cs \<and>
              (\<exists>a0. getSuccessors callLLM gs a = (Resolved successors, a0) \<and>
                    a1 = a0\<lparr>successorsCache :=
                              (successorsCache a0)(hashGameState gs \<mapsto> Resolved successors)\<rparr>)) \<and>
           exploreSubnodes
             (\<lambda>gs' b' a''. minimax cs callLLM 1 gs' b' (\<not> (turn gs = White)) a'')
             b successors a1 = (map Resolved results, a') \<and>
           length results = length successors \<and>
           zip (map move successors) results = before @ best # after \<and>
           m = fst best \<and>
           (if turn gs = White
            then (\<forall>r\<in>set before. computedValue (snd r) \<le> computedValue (snd best)) \<and>
                 (\<forall>r\<in>set after. computedValue (snd r) < computedValue (snd best))
            else (\<forall>r\<in>set before. computedValue (snd best) \<le> computedValue (snd r)) \<and>
                 (\<forall>r\<in>set after. computedValue (snd best) < computedValue (snd r)))"
proof -
  let ?h = "hashGameState gs"
  let ?search = "\<lambda>gs' b' a''. minimax cs callLLM 1 gs' b' (\<not> (turn gs = White)) a''"
  define root where
    "root = (case successorsCache a ?h of
               Some sp \<Rightarrow> (sp, totalBudget cs, a)
             | None \<Rightarrow>
                 (let (sp, a') = getSuccessors callLLM gs a
                  in (sp, totalBudget cs - getSuccessorsCost cs,
                      a'\<lparr>successorsCache := (successorsCache a')(?h \<mapsto> sp)\<rparr>)))"
  obtain sp b a1 where root: "root = (sp, b, a1)"
    by (cases root) auto
  have sel: "selectMove cs callLLM gs a =
          (case sp of
             Pending \<Rightarrow> (Pending, a1)
           | Rejected e \<Rightarrow> (Rejected e, a1)
           | Resolved successors \<Rightarrow>
               if successors = [] then (Rejected (Error ''No successors found''), a1)
               else
                 (let (subnodeExplorations, a2) = exploreSubnodes ?search b successors a1
                  in case awaitAll subnodeExplorations of
                       Pending \<Rightarrow> (Pending, a2)
                     | Rejected e \<Rightarrow> (Rejected e, a2)
                     | Resolved results \<Rightarrow>
                         (case selectBest (turn gs = White) (zip (map move successors) results) of
                            Inl e \<Rightarrow> (Rejected e, a2)
                          | Inr best \<Rightarrow> (Resolved (fst best), a2))))"
    using root unfolding selectMove_def root_def by (simp add: Let_def)
  obtain successors where sp: "sp = Resolved successors" and ne: "successors \<noteq> []"
    using assms unfolding sel by (cases sp) (auto split: if_splits)
  obtain subs a2 where ex: "exploreSubnodes ?search b successors a1 = (subs, a2)"
    by (cases "exploreSubnodes ?search b successors a1") auto
  obtain results where aw: "awaitAll subs = Resolved results"
    using assms unfolding sel sp using ne ex by (cases "awaitAll subs") auto
  have subs: "subs = map Resolved results"
    by (rule awaitAll_Resolved [OF aw])
  have len: "length results = length successors"
    using exploreSubnodes_length [of ?search b successors a1] ex subs by simp
  then have "zip (map move successors) results \<noteq> []"
    using ne by (cases successors; cases results) auto
  from selectBest_split [OF this, of "turn gs = White"]
  obtain best before after where
    best: "selectBest (turn gs = White) (zip (map move successors) results) = Inr best"
    and split: "zip (map move successors) results = before @ best # after"
    and ext: "if turn gs = White
            then (\<forall>r\<in>set before. computedValue (snd r) \<le> computedValue (snd best)) \<and>
                 (\<forall>r\<in>set after. computedValue (snd r) < computedValue (snd best))
            else (\<forall>r\<in>set before. computedValue (snd best) \<le> computedValue (snd r)) \<and>
                 (\<forall>r\<in>set after. computedValue (snd best) < computedValue (snd r))"
    by blast
  have res: "m = fst best" "a' = a2"
    using assms unfolding sel sp using ne ex aw best by simp_all
  have src: "successorsCache a ?h = Some (Resolved successors) \<and> b = totalBudget cs \<and> a1 = a \<or>
             successorsCache a ?h = None \<and> b = totalBudget cs - getSuccessorsCost cs \<and>
             (\<exists>a0. getSuccessors callLLM gs a = (Resolved successors, a0) \<and>
                   a1 = a0\<lparr>successorsCache := (successorsCache a0)(?h \<mapsto> Resolved successors)\<rparr>)"
    using root sp unfolding root_def
    by (auto simp: Let_def split: option.splits prod.splits)
  show ?thesis
    using src ex subs res len split ext by blast
qed

text \<open>
  \<open>selectMove\<close> on \<open>twoKings\<close>, white to move, with a new agent: the oracle
  proposes Ka2 and Kb1, in this order, and both children are evaluated to 1.
\<close>

theorem selectMove_last_extremal_witness:
  "selectMove defaultCostSetup proposeThenAnswer twoKings newAgent =
     (Resolved (kingStep (0, 0) (0, 1) ''Kb1''), tiedAgent) \<and>
   (\<exists>successors b a1 results before best after.
      (successorsCache newAgent (hashGameState twoKings) = Some (Resolved successors) \<and>
         b = totalBudget defaultCostSetup \<and> a1 = newAgent \<or>
       successorsCache newAgent (hashGameState twoKings) = None \<and>
         b = totalBudget defaultCostSetup - getSuccessorsCost defaultCostSetup \<and>
         (\<exists>a0. getSuccessors proposeThenAnswer twoKings newAgent = (Resolved successors, a0) \<and>
               a1 = a0\<lparr>successorsCache :=
                         (successorsCache a0)(hashGameState twoKings \<mapsto> Resolved successors)\<rparr>)) \<and>
      exploreSubnodes
        (\<lambda>gs' b' a''. minimax defaultCostSetup proposeThenAnswer 1 gs' b'
                         (\<not> (turn twoKings = White)) a'')
        b successors a1 = (map Resolved results, tiedAgent) \<and>
      length results = length successors \<and>
      zip (map move successors) results = before @ best # after \<and>
      kingStep (0, 0) (0, 1) ''Kb1'' = fst best \<and>
      (if turn twoKings = White
       then (\<forall>r\<in>set before. computedValue (snd r) \<le> computedValue (snd best)) \<and>
            (\<forall>r\<in>set after. computedValue (snd r) < computedValue (snd best))
       else (\<forall>r\<in>set before. computedValue (snd best) \<le> computedValue (snd r)) \<and>
            (\<forall>r\<in>set after. computedValue (snd best) < computedValue (snd r))))"
  using twoKings_selectMove selectMove_last_extremal [OF twoKings_selectMove]
  by (rule conjI)

text \<open>
  There the two children tie, white is to move, and the move returned is Kb1,
  the move of the second child.
\<close>

theorem selectMove_tie_counterexample:
  "turn twoKings = White \<and>
   getSuccessors proposeThenAnswer twoKings newAgent =
     (Resolved [ka2Progression, kb1Progression], (describedAgent twoKings)\<lparr>llmCalls := 2\<rparr>) \<and>
   move ka2Progression = kingStep (0, 0) (1, 0) ''Ka2'' \<and>
   move kb1Progression = kingStep (0, 0) (0, 1) ''Kb1'' \<and>
   minimax defaultCostSetup proposeThenAnswer 1 (nextState ka2Progression) 245 False rootedAgent =
     (Resolved \<lparr>computedValue = 1, usedBudget = 11\<rparr>, halfTiedAgent) \<and>
   minimax defaultCostSetup proposeThenAnswer 1 (nextState kb1Progression) 245 False halfTiedAgent =
     (Resolved \<lparr>computedValue = 1, usedBudget = 11\<rparr>, tiedAgent) \<and>
   selectMove defaultCostSetup proposeThenAnswer twoKings newAgent =
     (Resolved (kingStep (0, 0) (0, 1) ''Kb1''), tiedAgent)"
proof (intro conjI)
  show "turn twoKings = White"
    by (simp add: twoKings_def)
  show "getSuccessors proposeThenAnswer twoKings newAgent =
          (Resolved [ka2Progression, kb1Progression], (describedAgent twoKings)\<lparr>llmCalls := 2\<rparr>)"
    by (rule twoKings_successors)
  show "move ka2Progression = kingStep (0, 0) (1, 0) ''Ka2''"
    by (simp add: ka2Progression_def)
  show "move kb1Progression = kingStep (0, 0) (0, 1) ''Kb1''"
    by (simp add: kb1Progression_def)
  show "minimax defaultCostSetup proposeThenAnswer 1 (nextState ka2Progression) 245 False
          rootedAgent = (Resolved \<lparr>computedValue = 1, usedBudget = 11\<rparr>, halfTiedAgent)"
    using twoKings_first_child by (simp add: ka2Progression_def)
  show "minimax defaultCostSetup proposeThenAnswer 1 (nextState kb1Progression) 245 False
          halfTiedAgent = (Resolved \<lparr>computedValue = 1, usedBudget = 11\<rparr>, tiedAgent)"
    using twoKings_second_child by (simp add: kb1Progression_def)
  show "selectMove defaultCostSetup proposeThenAnswer twoKings newAgent =
          (Resolved (kingStep (0, 0) (0, 1) ''Kb1''), tiedAgent)"
    by (rule twoKings_selectMove)
qed

text \<open>
  C7 (for a state classified \<open>checkmateWhite\<close> \<open>minimax\<close> returns -1, for
  \<open>checkmateBlack\<close> +1, without evaluating or requesting successors, and the
  value is in the minimax cache when the function returns).  \<open>minimax\<close> probes
  the cache first, under the hash of the state, and \<open>hashGameState\<close> gives
  \<open>unmatedWhite\<close> and \<open>matedWhite\<close> the same hash.  A new agent searches
  \<open>unmatedWhite\<close> at depth 1 with budget 100 and publishes the value 1 that the
  oracle gave.  Asked then for \<open>matedWhite\<close>, in which white is checkmated, with
  budget 50, it takes the entry: it returns 1 with \<open>usedBudget = 0\<close>, and the
  agent, where the only value under the hash is 1, is as before.
\<close>

theorem minimax_checkmate_hash_collision:
  "getEndgameState matedWhite = Inr CheckmateWhite \<and>
   getEndgameState unmatedWhite = Inr InProgress \<and>
   hashGameState unmatedWhite = hashGameState matedWhite \<and>
   minimax defaultCostSetup (describeThenAnswer ''white'') 1 unmatedWhite 100 True newAgent =
     (Resolved \<lparr>computedValue = 1, usedBudget = 11\<rparr>, searchedAgent) \<and>
   minimax defaultCostSetup (describeThenAnswer ''white'') 1 matedWhite 50 True searchedAgent =
     (Resolved \<lparr>computedValue = 1, usedBudget = 0\<rparr>, searchedAgent) \<and>
   minimaxCache searchedAgent (hashGameState matedWhite) = Some \<lparr>valuePromise = 0, budget = 100\<rparr> \<and>
   valuePromises searchedAgent 0 = Resolved 1"
proof (intro conjI)
  show "getEndgameState matedWhite = Inr CheckmateWhite"
    by (rule matedWhite_endgame)
  show "getEndgameState unmatedWhite = Inr InProgress"
    by (rule unmatedWhite_endgame)
  show "hashGameState unmatedWhite = hashGameState matedWhite"
    by (rule mated_hash)
  show "minimax defaultCostSetup (describeThenAnswer ''white'') 1 unmatedWhite 100 True newAgent =
          (Resolved \<lparr>computedValue = 1, usedBudget = 11\<rparr>, searchedAgent)"
    by (rule unmatedWhite_search)
  show hit: "minimaxCache searchedAgent (hashGameState matedWhite)
               = Some \<lparr>valuePromise = 0, budget = 100\<rparr>"
    by (simp add: searchedAgent_def)
  show v: "valuePromises searchedAgent 0 = Resolved 1"
    by (simp add: searchedAgent_def)
  have "probeMinimaxCache searchedAgent (hashGameState matedWhite) 50
          = Some \<lparr>valuePromise = 0, budget = 100\<rparr>"
    by (simp add: probeMinimaxCache_def hit)
  then show "minimax defaultCostSetup (describeThenAnswer ''white'') 1 matedWhite 50 True searchedAgent =
          (Resolved \<lparr>computedValue = 1, usedBudget = 0\<rparr>, searchedAgent)"
    by (subst minimax.simps) (simp add: Let_def v)
qed



text \<open>
  C9 (applying a move through \<open>ChessGame.makeMove\<close> on a game constructed from
  \<open>s\<close> leaves \<open>s\<close> unchanged).  The method writes to the object the game was
  constructed from: after the call the caller's state holds the moved piece, the
  new turn and the longer history.  What leaves the input alone is the
  expression the agent builds successors with, which clones first: the input
  object, and every other object of the store, is as before, and the result is
  a new object holding the state after the move.
\<close>

theorem moveOnClone_pure:
  "r < length h \<Longrightarrow> moveOnClone h r m = Inr (r', h') \<Longrightarrow>
   h' ! r = h ! r \<and> take (length h) h' = h \<and> length h < r' \<and> r' < length h' \<and>
   makeMove (h ! r) m = Inr (h' ! r')"
  by (auto simp: moveOnClone_def cloneDeep_def getGameState_def newChessGame_def
        ChessGame_makeMove_def bindE_def nth_append Let_def split: sum.splits)

theorem moveOnClone_pure_witness:
  "(0::nat) < length [collideB] \<and>
   moveOnClone [collideB] 0 (kingStep (7, 7) (6, 7) ''Kh7'') = Inr (2, [collideB, afterKh7, afterKh7]) \<and>
   [collideB, afterKh7, afterKh7] ! 0 = [collideB] ! 0 \<and>
   makeMove ([collideB] ! 0) (kingStep (7, 7) (6, 7) ''Kh7'') = Inr ([collideB, afterKh7, afterKh7] ! 2)"
proof -
  have m: "makeMove collideB (kingStep (7, 7) (6, 7) ''Kh7'') = Inr afterKh7"
    by code_simp
  have run: "moveOnClone [collideB] 0 (kingStep (7, 7) (6, 7) ''Kh7'')
               = Inr (2, [collideB, afterKh7, afterKh7])"
    by (simp add: moveOnClone_def cloneDeep_def getGameState_def newChessGame_def
          ChessGame_makeMove_def m)
  show ?thesis
    using moveOnClone_pure [of 0 "[collideB]" "kingStep (7, 7) (6, 7) ''Kh7''" 2
            "[collideB, afterKh7, afterKh7]"] run
    by simp
qed

theorem ChessGame_makeMove_mutates_counterexample:
  "ChessGame_makeMove [collideB] (newChessGame 0) (kingStep (7, 7) (6, 7) ''Kh7'') = Inr [afterKh7] \<and>
   afterKh7 \<noteq> collideB"
proof -
  have m: "makeMove collideB (kingStep (7, 7) (6, 7) ''Kh7'') = Inr afterKh7"
    by code_simp
  have "turn afterKh7 \<noteq> turn collideB"
    by (simp add: afterKh7_def collideB_def)
  then have "afterKh7 \<noteq> collideB" by auto
  then show ?thesis
    by (simp add: ChessGame_makeMove_def newChessGame_def m)
qed

text \<open>
  C10 (a description that failed \<open>maxLLMTries\<close> times stays in the description
  cache as a rejected promise, and every later evaluation or successor request
  for the state fails at once with the same error and without a new oracle
  call).  When the state has no description yet and the next five calls throw,
  \<open>getGameDescription\<close> makes exactly these five calls, rejects, and leaves the
  rejected promise under the state's hash.  In every agent that holds this entry,
  with any oracle, the description, the evaluation and the successor request
  for the state are rejected with that error and return the agent unchanged.
  No operation of the agent replaces an entry of the description cache: neither
  the three oracle tasks nor \<open>minimax\<close> nor \<open>selectMove\<close>, whatever state they are
  run on.
\<close>

theorem failed_description_stays_cached:
  assumes "getTextRepresentation gs = Inr ()"
    and "gameDescriptionCache a (hashGameState gs) = None"
    and "\<And>n. llmCalls a \<le> n \<Longrightarrow> n < llmCalls a + maxLLMTries \<Longrightarrow> \<exists>e. callLLM n = Inl e"
  shows "getGameDescription callLLM gs a =
           (Rejected descriptionFailure,
            a\<lparr>gameDescriptionCache :=
                 (gameDescriptionCache a)(hashGameState gs \<mapsto> Rejected descriptionFailure),
              llmCalls := llmCalls a + 5\<rparr>) \<and>
         (\<forall>later a2. gameDescriptionCache a2 (hashGameState gs) = Some (Rejected descriptionFailure) \<longrightarrow>
            getGameDescription later gs a2 = (Rejected descriptionFailure, a2) \<and>
            stateEvaluation later gs a2 = (Rejected descriptionFailure, a2) \<and>
            getSuccessors later gs a2 = (Rejected descriptionFailure, a2)) \<and>
         (\<forall>later a2 gs' h p cs depth b maximizingPlayer.
            gameDescriptionCache a2 h = Some p \<longrightarrow>
            gameDescriptionCache (snd (getGameDescription later gs' a2)) h = Some p \<and>
            gameDescriptionCache (snd (stateEvaluation later gs' a2)) h = Some p \<and>
            gameDescriptionCache (snd (getSuccessors later gs' a2)) h = Some p \<and>
            gameDescriptionCache (snd (minimax cs later depth gs' b maximizingPlayer a2)) h = Some p \<and>
            gameDescriptionCache (snd (selectMove cs later gs' a2)) h = Some p)"
proof -
  have loop: "callWithRetries callLLM 0 (llmCalls a) = (None, llmCalls a + (maxLLMTries - 0))"
    by (rule callWithRetries_all_throw) (use assms(3) in auto)
  have run: "getGameDescription callLLM gs a =
               (Rejected descriptionFailure,
                a\<lparr>gameDescriptionCache :=
                     (gameDescriptionCache a)(hashGameState gs \<mapsto> Rejected descriptionFailure),
                  llmCalls := llmCalls a + 5\<rparr>)"
    using assms(1,2) loop
    by (simp add: getGameDescription_def Let_def descriptionFailure_def maxLLMTries_def)
  have again: "getGameDescription later gs a2 = (Rejected descriptionFailure, a2)"
    if "gameDescriptionCache a2 (hashGameState gs) = Some (Rejected descriptionFailure)"
    for later :: CallLLM and a2 :: Agent
    using that assms(1) by (simp add: getGameDescription_def Let_def)
  have failing: "getGameDescription later gs a2 = (Rejected descriptionFailure, a2) \<and>
                 stateEvaluation later gs a2 = (Rejected descriptionFailure, a2) \<and>
                 getSuccessors later gs a2 = (Rejected descriptionFailure, a2)"
    if "gameDescriptionCache a2 (hashGameState gs) = Some (Rejected descriptionFailure)"
    for later :: CallLLM and a2 :: Agent
    by (simp add: stateEvaluation_def getSuccessors_def again [OF that])
  have kept: "gameDescriptionCache (snd (getGameDescription later gs' a2)) h = Some p \<and>
              gameDescriptionCache (snd (stateEvaluation later gs' a2)) h = Some p \<and>
              gameDescriptionCache (snd (getSuccessors later gs' a2)) h = Some p \<and>
              gameDescriptionCache (snd (minimax cs later depth gs' b maximizingPlayer a2)) h = Some p \<and>
              gameDescriptionCache (snd (selectMove cs later gs' a2)) h = Some p"
    if "gameDescriptionCache a2 h = Some p"
    for later :: CallLLM and a2 :: Agent and gs' h p cs depth b maximizingPlayer
    by (simp add: getGameDescription_cache [OF that] stateEvaluation_cache [OF that]
          getSuccessors_cache [OF that] minimax_description_cache [OF that] selectMove_cache [OF that])
  show ?thesis
    using run failing kept by blast
qed

definition failedAgent :: Agent where
  "failedAgent =
     newAgent\<lparr>gameDescriptionCache := [hashGameState collideA \<mapsto> Rejected descriptionFailure],
              llmCalls := 5\<rparr>"

theorem failed_description_stays_cached_witness:
  "getTextRepresentation collideA = Inr () \<and>
   gameDescriptionCache newAgent (hashGameState collideA) = None \<and>
   alwaysThrow 0 = Inl (Error ''rate limit'') \<and>
   alwaysThrow 4 = Inl (Error ''rate limit'') \<and>
   getGameDescription alwaysThrow collideA newAgent = (Rejected descriptionFailure, failedAgent) \<and>
   stateEvaluation (describeThenAnswer ''white'') collideA failedAgent =
     (Rejected descriptionFailure, failedAgent) \<and>
   getSuccessors (describeThenAnswer ''white'') collideA failedAgent =
     (Rejected descriptionFailure, failedAgent) \<and>
   gameDescriptionCache (snd (stateEvaluation (describeThenAnswer ''white'') matedWhite failedAgent))
     (hashGameState collideA) = Some (Rejected descriptionFailure) \<and>
   gameDescriptionCache
     (snd (selectMove defaultCostSetup (describeThenAnswer ''white'') matedWhite failedAgent))
     (hashGameState collideA) = Some (Rejected descriptionFailure)"
proof -
  have rep: "getTextRepresentation collideA = Inr ()"
    by (rule getTextRepresentation_wf) (simp add: collide_wfBoard)
  have miss: "gameDescriptionCache newAgent (hashGameState collideA) = None"
    by (simp add: newAgent_def)
  have throws: "\<exists>e. alwaysThrow n = Inl e" for n
    by (simp add: alwaysThrow_def)
  have entry: "gameDescriptionCache failedAgent (hashGameState collideA) =
                 Some (Rejected descriptionFailure)"
    by (simp add: failedAgent_def)
  have a1: "newAgent\<lparr>gameDescriptionCache :=
                        (gameDescriptionCache newAgent)
                          (hashGameState collideA \<mapsto> Rejected descriptionFailure),
                      llmCalls := llmCalls newAgent + 5\<rparr> = failedAgent"
    by (simp add: failedAgent_def newAgent_def)
  show ?thesis
    using failed_description_stays_cached [of collideA newAgent alwaysThrow, OF rep miss throws]
      entry rep miss
    unfolding a1 by (simp add: alwaysThrow_def)
qed

end
